(* ===== verification/Prelude.thy ===== *)
theory Prelude
  imports Main "HOL-Library.Word"
begin

text \<open>
  Shared vocabulary of the Z-Wing development: bytes and byte strings, the outcome of a Go
  function that may return an error or panic, the two sequencing combinators that model
  \<open>if err != nil { return err }\<close>, the pieces of the Go standard library the sources use on
  plain data (\<open>copy\<close>, \<open>encoding/binary\<close> in big-endian order, \<open>crypto/subtle\<close>,
  \<open>encoding/hex\<close>), and two interfaces used by several components: a byte codec
  (\<open>codec\<close>) and a transition system with an inductive invariant (\<open>invariant_system\<close>).
\<close>

unbundle bit_operations_syntax

named_theorems outcome_simps \<open>equations and inversions of the outcome combinators\<close>
named_theorems size_simps \<open>the fixed sizes of the wire format\<close>
named_theorems len_simps \<open>lengths of the byte strings the operations produce\<close>

subsection \<open>Bytes\<close>

type_synonym byte = "8 word"
type_synonym bytes = "byte list"

text \<open>\<open>[]byte("...")\<close>: the bytes of a string literal.\<close>

definition bytes_of :: "string \<Rightarrow> bytes" where
  "bytes_of s = map of_char s"

text \<open>\<open>copy(a[:], src)\<close> into a fresh (zeroed) array of \<open>n\<close> bytes.\<close>

definition copy_array :: "nat \<Rightarrow> bytes \<Rightarrow> bytes" where
  "copy_array n src = take n src @ replicate (n - length src) 0"

subsection \<open>Outcomes\<close>

text \<open>
  A call returns a value, returns an error value, or panics. A caller that checks
  \<open>err != nil\<close> and returns is \<open>bindR\<close> (pure) or \<open>bindS\<close> (the state reached by the
  failing call is kept); a panic is propagated by both.
\<close>

datatype ('e, 'a) outcome = Ok 'a | Err 'e | Panic string

primrec bindR :: "('e, 'a) outcome \<Rightarrow> ('a \<Rightarrow> ('e, 'b) outcome) \<Rightarrow> ('e, 'b) outcome" where
  "bindR (Ok a) f = f a"
| "bindR (Err e) f = Err e"
| "bindR (Panic p) f = Panic p"

definition bindS ::
  "('e, 'a) outcome \<times> 's \<Rightarrow> ('a \<Rightarrow> 's \<Rightarrow> ('e, 'b) outcome \<times> 's) \<Rightarrow> ('e, 'b) outcome \<times> 's" where
  "bindS r f = (case r of (Ok a, s) \<Rightarrow> f a s | (Err e, s) \<Rightarrow> (Err e, s) | (Panic p, s) \<Rightarrow> (Panic p, s))"

definition is_Ok :: "('e, 'a) outcome \<Rightarrow> bool" where
  "is_Ok r = (case r of Ok _ \<Rightarrow> True | _ \<Rightarrow> False)"

definition is_Panic :: "('e, 'a) outcome \<Rightarrow> bool" where
  "is_Panic r = (case r of Panic _ \<Rightarrow> True | _ \<Rightarrow> False)"

text \<open>A call into another package returns an error or a value; it is lifted to an outcome.\<close>

definition lift_ext :: "'e + 'a \<Rightarrow> ('e, 'a) outcome" where
  "lift_ext r = (case r of Inl e \<Rightarrow> Err e | Inr a \<Rightarrow> Ok a)"

text \<open>\<open>v, _ := f()\<close>: the error is dropped and the value is the zero value the callee returns.\<close>

definition drop_err :: "'a \<Rightarrow> 'e + 'a \<Rightarrow> 'a" where
  "drop_err z r = (case r of Inl _ \<Rightarrow> z | Inr a \<Rightarrow> a)"

text \<open>
  The slice expression \<open>s[lo:hi]\<close> panics when its bounds are out of range. Go lets \<open>hi\<close> go up to
  the capacity of \<open>s\<close>; here the limit is its length, so a program that is shown not to panic does
  not panic in Go either, and never looks at bytes beyond the length. \<open>s[lo:]\<close> is \<open>slice_from\<close>.
\<close>

definition slice_ok :: "int \<Rightarrow> int \<Rightarrow> 'a list \<Rightarrow> bool" where
  "slice_ok lo hi s \<longleftrightarrow> 0 \<le> lo \<and> lo \<le> hi \<and> hi \<le> int (length s)"

definition slice :: "int \<Rightarrow> int \<Rightarrow> 'a list \<Rightarrow> ('e, 'a list) outcome" where
  "slice lo hi s =
     (if slice_ok lo hi s then Ok (take (nat (hi - lo)) (drop (nat lo) s))
      else Panic ''runtime error: slice bounds out of range'')"

definition slice_from :: "int \<Rightarrow> 'a list \<Rightarrow> ('e, 'a list) outcome" where
  "slice_from lo s = slice lo (int (length s)) s"

subsection \<open>Big-endian integers (encoding/binary)\<close>

definition PutUint16 :: "16 word \<Rightarrow> bytes" where
  "PutUint16 v = [ucast (drop_bit 8 v), ucast v]"

definition Uint16 :: "bytes \<Rightarrow> 16 word" where
  "Uint16 b = ucast (b ! 1) OR push_bit 8 (ucast (b ! 0))"

definition PutUint32 :: "32 word \<Rightarrow> bytes" where
  "PutUint32 v = [ucast (drop_bit 24 v), ucast (drop_bit 16 v), ucast (drop_bit 8 v), ucast v]"

definition Uint32 :: "bytes \<Rightarrow> 32 word" where
  "Uint32 b = ucast (b ! 3) OR push_bit 8 (ucast (b ! 2)) OR push_bit 16 (ucast (b ! 1))
     OR push_bit 24 (ucast (b ! 0))"

definition PutUint64 :: "64 word \<Rightarrow> bytes" where
  "PutUint64 v = PutUint32 (ucast (drop_bit 32 v)) @ PutUint32 (ucast v)"

subsection \<open>Constant-time comparison (crypto/subtle)\<close>

text \<open>
  \<open>subtle.ConstantTimeCompare\<close>: 0 when the lengths differ, otherwise the OR of the XORs of
  all byte pairs is accumulated and compared with 0.
\<close>

definition ConstantTimeByteEq :: "byte \<Rightarrow> byte \<Rightarrow> int" where
  "ConstantTimeByteEq x y = (if x XOR y = 0 then 1 else 0)"

definition ConstantTimeCompare :: "bytes \<Rightarrow> bytes \<Rightarrow> int" where
  "ConstantTimeCompare x y =
     (if length x \<noteq> length y then 0
      else ConstantTimeByteEq (foldl (\<lambda>v (a, b). v OR (a XOR b)) 0 (zip x y)) 0)"

subsection \<open>Hexadecimal text (encoding/hex)\<close>

definition hex_digit :: "nat \<Rightarrow> char" where
  "hex_digit n = ''0123456789abcdef'' ! n"

definition EncodeToString :: "bytes \<Rightarrow> string" where
  "EncodeToString b = concat (map (\<lambda>x. [hex_digit (unat x div 16), hex_digit (unat x mod 16)]) b)"

subsection \<open>Lemmas on lists and arrays\<close>

lemma length_bytes_of [simp, len_simps]: "length (bytes_of s) = length s"
  by (simp add: bytes_of_def)

lemma length_copy_array [simp, len_simps]: "length (copy_array n src) = n"
  by (simp add: copy_array_def)

lemma copy_array_exact [simp]: "length src = n \<Longrightarrow> copy_array n src = src"
  by (simp add: copy_array_def)

lemma take_drop_append_eq:
  "length a = n \<Longrightarrow> take n (a @ b) = a \<and> drop n (a @ b) = b"
  by simp

lemma append_eq_split:
  "length a = length c \<Longrightarrow> (a @ b = c @ d) = (a = c \<and> b = d)"
  by simp

subsection \<open>Lemmas on outcomes\<close>

lemma bindS_simps [simp, outcome_simps]:
  "bindS (Ok a, s) f = f a s"
  "bindS (Err e, s) f = (Err e, s)"
  "bindS (Panic p, s) f = (Panic p, s)"
  by (simp_all add: bindS_def)

lemma bindS_if [outcome_simps]:
  "bindS (if c then x else y) f = (if c then bindS x f else bindS y f)"
  by simp

lemma lift_ext_simps [simp, outcome_simps]:
  "lift_ext (Inl e) = Err e"
  "lift_ext (Inr a) = Ok a"
  by (simp_all add: lift_ext_def)

lemma drop_err_simps [simp, outcome_simps]:
  "drop_err z (Inl e) = z"
  "drop_err z (Inr a) = a"
  by (simp_all add: drop_err_def)

lemma is_Ok_simps [simp, outcome_simps]:
  "is_Ok (Ok a)" "\<not> is_Ok (Err e)" "\<not> is_Ok (Panic p)"
  by (simp_all add: is_Ok_def)

lemma is_Panic_simps [simp, outcome_simps]:
  "\<not> is_Panic (Ok a)" "\<not> is_Panic (Err e)" "is_Panic (Panic p)"
  by (simp_all add: is_Panic_def)

lemma bindR_Ok_iff [outcome_simps]:
  "bindR r f = Ok b \<longleftrightarrow> (\<exists>a. r = Ok a \<and> f a = Ok b)"
  by (cases r) auto

lemma bindS_Ok_iff [outcome_simps]:
  "bindS r f = (Ok b, s') \<longleftrightarrow> (\<exists>a s. r = (Ok a, s) \<and> f a s = (Ok b, s'))"
  by (auto simp: bindS_def split: prod.splits outcome.splits)

lemma lift_ext_Ok_iff [outcome_simps]: "lift_ext r = Ok a \<longleftrightarrow> r = Inr a"
  by (cases r) auto

lemma lift_ext_Err_iff [outcome_simps]: "lift_ext r = Err e \<longleftrightarrow> r = Inl e"
  by (cases r) auto

lemma lift_ext_not_Panic [simp]: "\<not> is_Panic (lift_ext r)"
  by (cases r) auto

text \<open>Slices within bounds, and the only way to panic.\<close>

lemma slice_prefix [simp]: "0 \<le> n \<Longrightarrow> n \<le> int (length s) \<Longrightarrow> slice 0 n s = Ok (take (nat n) s)"
  by (simp add: slice_def slice_ok_def)

lemma slice_nat [simp]:
  "a \<le> b \<Longrightarrow> b \<le> length s \<Longrightarrow> slice (int a) (int b) s = Ok (take (b - a) (drop a s))"
  by (simp add: slice_def slice_ok_def nat_diff_distrib)

lemma slice_from_in [simp]: "0 \<le> n \<Longrightarrow> n \<le> int (length s) \<Longrightarrow> slice_from n s = Ok (drop (nat n) s)"
  by (simp add: slice_from_def slice_def slice_ok_def nat_diff_distrib)

lemma slice_Panic_iff: "is_Panic (slice lo hi s) \<longleftrightarrow> \<not> slice_ok lo hi s"
  by (simp add: slice_def)

lemma slice_from_Panic_iff: "is_Panic (slice_from lo s) \<longleftrightarrow> \<not> (0 \<le> lo \<and> lo \<le> int (length s))"
  by (auto simp: slice_from_def slice_Panic_iff slice_ok_def)

lemma bindR_not_Panic:
  "\<not> is_Panic a \<Longrightarrow> (\<And>x. a = Ok x \<Longrightarrow> \<not> is_Panic (f x)) \<Longrightarrow> \<not> is_Panic (bindR a f)"
  by (cases a) auto

lemma bindS_not_Panic:
  "\<not> is_Panic (fst r) \<Longrightarrow> (\<And>x s. r = (Ok x, s) \<Longrightarrow> \<not> is_Panic (fst (f x s))) \<Longrightarrow>
     \<not> is_Panic (fst (bindS r f))"
  by (cases r; cases "fst r") auto

lemma bindS_cases:
  assumes "bindS r f = (x, s')"
  obtains (Ok) a s where "r = (Ok a, s)" "f a s = (x, s')"
        | (Err) e where "r = (Err e, s')" "x = Err e"
        | (Panic) p where "r = (Panic p, s')" "x = Panic p"
  using assms by (cases r; cases "fst r") auto

subsection \<open>Lemmas on big-endian integers\<close>

lemma length_Put [simp, len_simps]:
  "length (PutUint16 a) = 2" "length (PutUint32 b) = 4" "length (PutUint64 c) = 8"
  by (simp_all add: PutUint16_def PutUint32_def PutUint64_def)

lemma bit_beyond [simp]: "LENGTH('w) \<le> n \<Longrightarrow> \<not> bit (w :: 'w::len word) n"
  using bit_imp_le_length linorder_not_less by blast

lemma Uint16_Put [simp]: "Uint16 (PutUint16 v) = v"
  by (rule bit_word_eqI) (auto simp: Uint16_def PutUint16_def bit_simps)

lemma Uint32_Put [simp]: "Uint32 (PutUint32 v) = v"
proof (rule bit_word_eqI)
  fix n
  assume "n < LENGTH(32)"
  then consider "n < 8" | "8 \<le> n" "n < 16" | "16 \<le> n" "n < 24" | "24 \<le> n" "n < 32"
    by fastforce
  then show "bit (Uint32 (PutUint32 v)) n = bit v n"
    by cases (auto simp: Uint32_def PutUint32_def bit_simps)
qed

lemma Uint16_Put_append [simp]: "Uint16 (PutUint16 v @ xs) = v"
  by (rule bit_word_eqI) (auto simp: Uint16_def PutUint16_def bit_simps)

lemma PutUint16_Uint16 [simp]:
  assumes "length b = 2"
  shows "PutUint16 (Uint16 b) = b"
proof -
  obtain x y where b: "b = [x, y]"
    using assms by (auto simp: length_Suc_conv numeral_2_eq_2)
  have "(ucast (drop_bit 8 (Uint16 [x, y])) :: byte) = x" "(ucast (Uint16 [x, y]) :: byte) = y"
    by (rule bit_word_eqI, auto simp: Uint16_def bit_simps)+
  then show ?thesis by (simp add: b PutUint16_def)
qed

lemma PutUint32_Uint32 [simp]:
  assumes "length b = 4"
  shows "PutUint32 (Uint32 b) = b"
proof -
  obtain w x y z where b: "b = [w, x, y, z]"
    using assms by (auto simp: length_Suc_conv numeral_eq_Suc)
  have "(ucast (drop_bit 24 (Uint32 [w, x, y, z])) :: byte) = w"
    "(ucast (drop_bit 16 (Uint32 [w, x, y, z])) :: byte) = x"
    "(ucast (drop_bit 8 (Uint32 [w, x, y, z])) :: byte) = y"
    "(ucast (Uint32 [w, x, y, z]) :: byte) = z"
    by (rule bit_word_eqI, auto simp: Uint32_def bit_simps nth_Cons')+
  then show ?thesis by (simp add: b PutUint32_def)
qed

lemma PutUint16_inj [simp]: "PutUint16 a = PutUint16 b \<longleftrightarrow> a = b"
  by (metis Uint16_Put)

lemma PutUint32_inj [simp]: "PutUint32 a = PutUint32 b \<longleftrightarrow> a = b"
  by (metis Uint32_Put)

lemma PutUint64_inj [simp]: "PutUint64 a = PutUint64 b \<longleftrightarrow> a = b"
proof
  assume "PutUint64 a = PutUint64 b"
  then have hi: "(ucast (drop_bit 32 a) :: 32 word) = ucast (drop_bit 32 b)"
    and lo: "(ucast a :: 32 word) = ucast b"
    by (auto simp: PutUint64_def)
  show "a = b"
  proof (rule bit_word_eqI)
    fix n
    assume "n < LENGTH(64)"
    then show "bit a n = bit b n"
      using arg_cong [OF hi, of "\<lambda>w. bit w (n - 32)"] arg_cong [OF lo, of "\<lambda>w. bit w n"]
      by (cases "n < 32") (auto simp: bit_simps)
  qed
qed simp

lemma word_of_nat_inj_lt:
  "m < 2 ^ LENGTH('w::len) \<Longrightarrow> n < 2 ^ LENGTH('w) \<Longrightarrow>
     (word_of_nat m :: 'w word) = word_of_nat n \<longleftrightarrow> m = n"
  by (simp add: word_of_nat_eq_iff take_bit_nat_eq_self)

subsection \<open>Lemmas on constant-time comparison\<close>

lemma or_word_eq_0 [simp]: "(a OR b = (0::'w::len word)) \<longleftrightarrow> a = 0 \<and> b = 0"
  by (auto simp: bit_eq_iff bit_simps)

lemma xor_word_eq_0 [simp]: "(a XOR b = (0::'w::len word)) \<longleftrightarrow> a = b"
  by (auto simp: bit_eq_iff bit_simps)

lemma foldl_or_xor_eq_0:
  "foldl (\<lambda>v (a, b). v OR (a XOR b)) w zs = (0::byte) \<longleftrightarrow> w = 0 \<and> (\<forall>(a, b) \<in> set zs. a = b)"
  by (induction zs arbitrary: w) auto

lemma ConstantTimeCompare_iff [simp]: "ConstantTimeCompare x y = 1 \<longleftrightarrow> x = y"
proof (cases "length x = length y")
  case True
  then have "(\<forall>(a, b) \<in> set (zip x y). a = b) \<longleftrightarrow> x = y"
    by (induction x y rule: list_induct2) auto
  with True show ?thesis
    by (simp add: ConstantTimeCompare_def ConstantTimeByteEq_def foldl_or_xor_eq_0)
next
  case False
  then show ?thesis by (auto simp: ConstantTimeCompare_def)
qed

subsection \<open>The codec interface\<close>

text \<open>
  A wire format: an encoder, a decoder that may refuse, and the values the encoder is meant
  for. The decoder inverts the encoder on those values, accepts nothing else, and returns only
  such values. Injectivity and canonicity (one encoding per value, one value per encoding)
  follow once and for all. \<open>sane\<close> is what the codec assumes of the packages it calls.
\<close>

locale codec =
  fixes sane :: bool
    and enc :: "'a \<Rightarrow> bytes"
    and dec :: "bytes \<Rightarrow> ('e, 'a) outcome"
    and wf :: "'a \<Rightarrow> bool"
  assumes dec_enc: "sane \<Longrightarrow> wf x \<Longrightarrow> dec (enc x) = Ok x"
    and enc_dec: "sane \<Longrightarrow> dec b = Ok x \<Longrightarrow> enc x = b \<and> wf x"
begin

lemma enc_inject: "sane \<Longrightarrow> wf x \<Longrightarrow> wf y \<Longrightarrow> enc x = enc y \<longleftrightarrow> x = y"
  using dec_enc by (metis outcome.inject(1))

lemma dec_iff: "sane \<Longrightarrow> dec b = Ok x \<longleftrightarrow> wf x \<and> enc x = b"
  by (metis dec_enc enc_dec)

lemma dec_inject: "sane \<Longrightarrow> dec b = Ok x \<Longrightarrow> dec c = Ok x \<Longrightarrow> b = c"
  by (metis enc_dec)

lemma dec_image: "sane \<Longrightarrow> {b. \<exists>x. dec b = Ok x} = enc ` {x. wf x}"
  by (auto simp: dec_iff)

end

subsection \<open>Transition systems with an inductive invariant\<close>

text \<open>
  A transition system with an initial set and an invariant that the initial states satisfy and
  every step keeps; every state reached from an initial one satisfies it.
\<close>

locale invariant_system =
  fixes start :: "'s \<Rightarrow> bool"
    and step :: "'s \<Rightarrow> 's \<Rightarrow> bool"
    and inv :: "'s \<Rightarrow> bool"
  assumes inv_start: "start s \<Longrightarrow> inv s"
    and inv_step: "inv s \<Longrightarrow> step s t \<Longrightarrow> inv t"
begin

lemma inv_steps: "step\<^sup>*\<^sup>* s t \<Longrightarrow> inv s \<Longrightarrow> inv t"
  by (induction rule: rtranclp_induct) (auto intro: inv_step)

lemma inv_reachable: "start s \<Longrightarrow> step\<^sup>*\<^sup>* s t \<Longrightarrow> inv t"
  using inv_start inv_steps by blast

end

end
