(* ===== verification/GoIO.thy ===== *)
theory GoIO
  imports Prelude
begin

text \<open>
  The error values of the program (\<open>errors.go\<close> and the \<open>errors.New\<close> calls of the other
  files) and the part of the Go standard library through which it does I/O: \<open>io.Reader\<close>,
  \<open>io.ReadFull\<close>, and \<open>net.Conn\<close>. A stream that delivers data is a list of segments (what
  successive \<open>Read\<close> calls find, in the order they arrive) followed by the error every later
  \<open>Read\<close> returns; a sink accepts a number of bytes (or any number) and then fails.
\<close>

subsection \<open>Errors (errors.go)\<close>

datatype go_error =
    ErrHandshakeFailed
  | ErrIdentityMismatch
  | ErrSignatureInvalid
  | ErrMessageTooLarge
  | ErrShortRead
  | ErrInvalidWireFormat
  | ErrChannelClosed
  | ErrSequenceExhausted
  | ErrConfigMissingID
  | ErrCiphertextCorrupted
  | ErrNew string        \<comment> \<open>\<open>errors.New(...)\<close> in kem.go, identity.go, channel.go\<close>
  | EOF                  \<comment> \<open>\<open>io.EOF\<close>\<close>
  | ErrUnexpectedEOF     \<comment> \<open>\<open>io.ErrUnexpectedEOF\<close>\<close>
  | ErrClosed            \<comment> \<open>\<open>net.ErrClosed\<close>\<close>
  | ErrExt string        \<comment> \<open>any error of another package or of the network\<close>

type_synonym 'a result = "(go_error, 'a) outcome"
type_synonym 'a ext = "go_error + 'a"

subsection \<open>io.Reader and io.ReadFull\<close>

record reader =
  r_segs :: "bytes list"
  r_end :: go_error

text \<open>\<open>r.Read(p)\<close> with \<open>len(p) = n\<close>: the bytes delivered and the error, if any.\<close>

fun reader_Read :: "nat \<Rightarrow> reader \<Rightarrow> (bytes \<times> go_error option) \<times> reader" where
  "reader_Read n r =
     (case r_segs r of
        [] \<Rightarrow> (([], Some (r_end r)), r)
      | s # ss \<Rightarrow>
          ((take n s, None), r\<lparr>r_segs := (if length s \<le> n then ss else drop n s # ss)\<rparr>))"

text \<open>The bytes still to come.\<close>

definition avail :: "reader \<Rightarrow> bytes" where
  "avail r = concat (r_segs r)"

text \<open>
  \<open>io.ReadAtLeast(r, buf, len(buf))\<close>: read until the buffer of \<open>n\<close> bytes is full or a read
  fails; \<open>acc\<close> is the filled prefix of the buffer.
\<close>

function ReadAtLeast_loop ::
  "nat \<Rightarrow> bytes \<Rightarrow> reader \<Rightarrow> (bytes \<times> go_error option) \<times> reader" where
  "ReadAtLeast_loop n acc r =
     (if n \<le> length acc then ((acc, None), r)
      else case reader_Read (n - length acc) r of
             ((bs, Some e), r') \<Rightarrow> ((acc @ bs, Some e), r')
           | ((bs, None), r') \<Rightarrow> ReadAtLeast_loop n (acc @ bs) r')"
  by pat_completeness auto
termination
  by (relation "measure (\<lambda>(n, acc, r). length (r_segs r) + (n - length acc))")
    (auto split: list.splits if_splits)

declare ReadAtLeast_loop.simps [simp del]

text \<open>
  \<open>io.ReadFull\<close>: the filled prefix of the buffer, and \<open>io.EOF\<close> turned into
  \<open>io.ErrUnexpectedEOF\<close> when some but not all bytes were read.
\<close>

definition ReadFull_buf :: "nat \<Rightarrow> reader \<Rightarrow> (bytes \<times> go_error option) \<times> reader" where
  "ReadFull_buf n r =
     (case ReadAtLeast_loop n [] r of
        ((acc, err), r') \<Rightarrow>
          ((acc, if n \<le> length acc then None
                 else if acc \<noteq> [] \<and> err = Some EOF then Some ErrUnexpectedEOF else err), r'))"

definition ReadFull :: "nat \<Rightarrow> reader \<Rightarrow> bytes result \<times> reader" where
  "ReadFull n r =
     (case ReadFull_buf n r of
        ((acc, None), r') \<Rightarrow> (Ok acc, r')
      | ((acc, Some e), r') \<Rightarrow> (Err e, r'))"

subsection \<open>net.Conn\<close>

text \<open>
  \<open>nc_room\<close> is the number of bytes writes still accept (\<open>None\<close>: any number), \<open>nc_werr\<close>
  the error of the write that exceeds it; \<open>nc_sent\<close> is everything handed to the network.
  Deadlines are recorded as set; that a deadline passes shows as \<open>r_end\<close> and \<open>nc_room\<close>.
\<close>

record net_conn =
  nc_in :: reader
  nc_sent :: bytes
  nc_room :: "nat option"
  nc_werr :: go_error
  nc_closed :: bool
  nc_rdeadline :: "int option"
  nc_wdeadline :: "int option"
  nc_local :: string
  nc_remote :: string

definition conn_Write :: "bytes \<Rightarrow> net_conn \<Rightarrow> unit result \<times> net_conn" where
  "conn_Write p c =
     (if nc_closed c then (Err ErrClosed, c)
      else case nc_room c of
             None \<Rightarrow> (Ok (), c\<lparr>nc_sent := nc_sent c @ p\<rparr>)
           | Some k \<Rightarrow>
               (if length p \<le> k
                then (Ok (), c\<lparr>nc_sent := nc_sent c @ p, nc_room := Some (k - length p)\<rparr>)
                else (Err (nc_werr c), c\<lparr>nc_sent := nc_sent c @ take k p, nc_room := Some 0\<rparr>)))"

definition conn_ReadFull :: "nat \<Rightarrow> net_conn \<Rightarrow> bytes result \<times> net_conn" where
  "conn_ReadFull n c = (case ReadFull n (nc_in c) of (x, r) \<Rightarrow> (x, c\<lparr>nc_in := r\<rparr>))"

text \<open>\<open>Close\<close>: reads and writes fail afterwards; a second \<open>Close\<close> is an error.\<close>

definition conn_Close :: "net_conn \<Rightarrow> unit result \<times> net_conn" where
  "conn_Close c =
     (if nc_closed c then (Err ErrClosed, c)
      else (Ok (), c\<lparr>nc_closed := True, nc_in := \<lparr>r_segs = [], r_end = ErrClosed\<rparr>\<rparr>))"

definition conn_SetReadDeadline :: "int option \<Rightarrow> net_conn \<Rightarrow> unit result \<times> net_conn" where
  "conn_SetReadDeadline t c =
     (if nc_closed c then (Err ErrClosed, c) else (Ok (), c\<lparr>nc_rdeadline := t\<rparr>))"

definition conn_SetWriteDeadline :: "int option \<Rightarrow> net_conn \<Rightarrow> unit result \<times> net_conn" where
  "conn_SetWriteDeadline t c =
     (if nc_closed c then (Err ErrClosed, c) else (Ok (), c\<lparr>nc_wdeadline := t\<rparr>))"

definition conn_SetDeadline :: "int option \<Rightarrow> net_conn \<Rightarrow> unit result \<times> net_conn" where
  "conn_SetDeadline t c =
     (if nc_closed c then (Err ErrClosed, c)
      else (Ok (), c\<lparr>nc_rdeadline := t, nc_wdeadline := t\<rparr>))"

text \<open>A connection that accepts every write and delivers the given segments, then \<open>e\<close>.\<close>

definition fresh_conn :: "bytes list \<Rightarrow> go_error \<Rightarrow> net_conn" where
  "fresh_conn segs e =
     \<lparr>nc_in = \<lparr>r_segs = segs, r_end = e\<rparr>, nc_sent = [], nc_room = None, nc_werr = EOF,
      nc_closed = False, nc_rdeadline = None, nc_wdeadline = None,
      nc_local = ''l'', nc_remote = ''r''\<rparr>"

text \<open>The connection takes whatever is written to it.\<close>

definition accepts :: "net_conn \<Rightarrow> bool" where
  "accepts c \<longleftrightarrow> \<not> nc_closed c \<and> nc_room c = None"

subsection \<open>ReadFull does not depend on segmentation\<close>

lemma ReadAtLeast_loop_spec:
  assumes "length acc \<le> n"
  shows "\<exists>r'. ReadAtLeast_loop n acc r =
      ((acc @ take (n - length acc) (avail r),
        if n - length acc \<le> length (avail r) then None else Some (r_end r)), r') \<and>
    avail r' = drop (n - length acc) (avail r) \<and> r_end r' = r_end r"
  using assms
proof (induction n acc r rule: ReadAtLeast_loop.induct)
  case (1 n acc r)
  show ?case
  proof (cases "n \<le> length acc")
    case True
    with "1.prems" show ?thesis by (simp add: ReadAtLeast_loop.simps [of n acc r])
  next
    case short: False
    show ?thesis
    proof (cases "r_segs r")
      case Nil
      with short show ?thesis by (simp add: ReadAtLeast_loop.simps [of n acc r] avail_def)
    next
      case (Cons s ss)
      define k where "k = n - length acc"
      obtain r2 where rd: "reader_Read k r = ((take k s, None), r2)"
        and av: "avail r = take k s @ avail r2" and en: "r_end r2 = r_end r"
        using Cons by (auto simp: avail_def)
      have eq: "ReadAtLeast_loop n acc r = ReadAtLeast_loop n (acc @ take k s) r2"
        using short rd by (simp add: ReadAtLeast_loop.simps [of n acc r] k_def)
      have "length (acc @ take k s) \<le> n" using short by (simp add: k_def)
      from "1.IH" [OF short rd [unfolded k_def, symmetric] refl refl, folded k_def, OF this]
      obtain r' where "ReadAtLeast_loop n (acc @ take k s) r2 =
          (((acc @ take k s) @ take (n - length (acc @ take k s)) (avail r2),
            if n - length (acc @ take k s) \<le> length (avail r2) then None else Some (r_end r2)), r')"
        and "avail r' = drop (n - length (acc @ take k s)) (avail r2)" "r_end r' = r_end r2"
        by blast
      moreover have "n - length (acc @ take k s) = k - length s"
        using short by (simp add: k_def)
      moreover have "k - min (length s) k = k - length s" by simp
      ultimately show ?thesis
        using eq en by (auto simp: av k_def [symmetric] split: if_splits)
    qed
  qed
qed

lemma ReadFull_buf_spec:
  "\<exists>r'. ReadFull_buf n r =
      ((take n (avail r),
        if n \<le> length (avail r) then None
        else if avail r \<noteq> [] \<and> r_end r = EOF then Some ErrUnexpectedEOF else Some (r_end r)), r') \<and>
    avail r' = drop n (avail r) \<and> r_end r' = r_end r"
  using ReadAtLeast_loop_spec [of "[]" n r]
  by (fastforce simp: ReadFull_buf_def split: if_splits)

lemma ReadFull_Ok:
  assumes "n \<le> length (avail r)"
  shows "\<exists>r'. ReadFull n r = (Ok (take n (avail r)), r') \<and> avail r' = drop n (avail r)
    \<and> r_end r' = r_end r"
  using ReadFull_buf_spec [of n r] assms by (auto simp: ReadFull_def)

lemma ReadFull_short:
  assumes "length (avail r) < n"
  shows "\<exists>r'. ReadFull n r =
      (Err (if avail r \<noteq> [] \<and> r_end r = EOF then ErrUnexpectedEOF else r_end r), r') \<and>
    avail r' = [] \<and> r_end r' = r_end r"
  using ReadFull_buf_spec [of n r] assms by (auto simp: ReadFull_def)

lemma ReadFull_Ok_iff:
  "ReadFull n r = (Ok b, r') \<Longrightarrow>
     n \<le> length (avail r) \<and> b = take n (avail r) \<and> avail r' = drop n (avail r) \<and> r_end r' = r_end r"
  using ReadFull_Ok [of n r] ReadFull_short [of r n] by (cases "n \<le> length (avail r)") auto

lemma ReadFull_not_Panic [simp]: "\<not> is_Panic (fst (ReadFull n r))"
  by (auto simp: ReadFull_def split: prod.splits option.splits)

lemma conn_ReadFull_Ok:
  assumes "n \<le> length (avail (nc_in c))"
  shows "\<exists>r'. conn_ReadFull n c = (Ok (take n (avail (nc_in c))), c\<lparr>nc_in := r'\<rparr>) \<and>
    avail r' = drop n (avail (nc_in c)) \<and> r_end r' = r_end (nc_in c)"
  using ReadFull_Ok [OF assms] by (auto simp: conn_ReadFull_def)

lemma conn_ReadFull_short:
  assumes "length (avail (nc_in c)) < n"
  shows "\<exists>r'. conn_ReadFull n c =
      (Err (if avail (nc_in c) \<noteq> [] \<and> r_end (nc_in c) = EOF then ErrUnexpectedEOF
            else r_end (nc_in c)), c\<lparr>nc_in := r'\<rparr>) \<and>
    avail r' = [] \<and> r_end r' = r_end (nc_in c)"
  using ReadFull_short [OF assms] by (auto simp: conn_ReadFull_def)

lemma conn_Write_accepts [simp]:
  "accepts c \<Longrightarrow> conn_Write p c = (Ok (), c\<lparr>nc_sent := nc_sent c @ p\<rparr>)"
  by (simp add: conn_Write_def accepts_def)

lemma conn_Write_in [simp]: "nc_in (snd (conn_Write p c)) = nc_in c"
  by (simp add: conn_Write_def split: option.splits)

lemma conn_Write_not_Panic [simp]: "\<not> is_Panic (fst (conn_Write p c))"
  by (simp add: conn_Write_def split: option.splits)

lemma accepts_updates [simp]:
  "accepts (c\<lparr>nc_sent := x\<rparr>) = accepts c" "accepts (c\<lparr>nc_in := y\<rparr>) = accepts c"
  by (simp_all add: accepts_def)

lemma avail_fresh [simp]: "avail (nc_in (fresh_conn segs e)) = concat segs"
  by (simp add: fresh_conn_def avail_def)

lemma accepts_fresh [simp]: "accepts (fresh_conn segs e)"
  by (simp add: fresh_conn_def accepts_def)

end
