(* ===== verification/Crypto.thy ===== *)
theory Crypto
  imports GoIO
begin

text \<open>
  The cryptographic packages the program calls and does not contain
  (\<open>luxfi/crypto/ed25519\<close>, \<open>luxfi/crypto/mldsa\<close>, \<open>luxfi/crypto/mlkem\<close>,
  \<open>golang.org/x/crypto/curve25519\<close>, \<open>hkdf\<close>, \<open>chacha20poly1305\<close>) are one parameter of the
  model: a record of their functions over opaque key types. What the program relies on is stated
  as named predicates (\<open>ed_laws\<close>, \<open>dsa_laws\<close>, \<open>kem_laws\<close>, \<open>x25519_laws\<close>,
  \<open>hkdf_laws\<close>, \<open>aead_laws\<close>), each the documented behaviour of one package. \<open>toy_crypto\<close> is
  an executable instance that satisfies all of them; it only shows that the hypotheses can hold.
  The theory also fixes the state a call works on (\<open>world\<close>).
\<close>

subsection \<open>The state of a call\<close>

text \<open>
  \<open>w_rand\<close> is \<open>crypto/rand.Reader\<close>, \<open>w_custom\<close> an entropy source supplied by the caller,
  \<open>w_conn\<close> the raw connection, and \<open>w_mem\<close> lists the buffers that held secrets with their
  contents at the time the function that owned them returned.
\<close>

record world =
  w_rand :: reader
  w_custom :: reader
  w_conn :: net_conn
  w_mem :: "(string \<times> bytes) list"

text \<open>A non-nil \<open>io.Reader\<close> argument.\<close>

datatype rdref = RandReader | CustomReader

definition with_reader :: "rdref \<Rightarrow> (reader \<Rightarrow> 'a \<times> reader) \<Rightarrow> world \<Rightarrow> 'a \<times> world" where
  "with_reader ref f w =
     (case ref of
        RandReader \<Rightarrow> (case f (w_rand w) of (x, r) \<Rightarrow> (x, w\<lparr>w_rand := r\<rparr>))
      | CustomReader \<Rightarrow> (case f (w_custom w) of (x, r) \<Rightarrow> (x, w\<lparr>w_custom := r\<rparr>)))"

definition on_conn :: "(net_conn \<Rightarrow> 'a \<times> net_conn) \<Rightarrow> world \<Rightarrow> 'a \<times> world" where
  "on_conn f w = (case f (w_conn w) of (x, c) \<Rightarrow> (x, w\<lparr>w_conn := c\<rparr>))"

definition leave :: "(string \<times> bytes) list \<Rightarrow> world \<Rightarrow> world" where
  "leave bufs w = w\<lparr>w_mem := w_mem w @ bufs\<rparr>"

subsection \<open>The packages\<close>

record ('dsk, 'dpk, 'ksk, 'kpk) crypto =
  ed_GenerateKey :: "reader \<Rightarrow> (bytes \<times> bytes) ext \<times> reader"
  ed_Sign :: "bytes \<Rightarrow> bytes \<Rightarrow> bytes"
  ed_Verify :: "bytes \<Rightarrow> bytes \<Rightarrow> bytes \<Rightarrow> bool"
  dsa_GenerateKey :: "reader \<Rightarrow> 'dsk ext \<times> reader"
  dsa_GenerateKey_nil :: "reader \<Rightarrow> (go_error, 'dsk) outcome \<times> reader"
  dsa_PublicKey :: "'dsk \<Rightarrow> 'dpk"
  dsa_SignCtx :: "'dsk \<Rightarrow> bytes \<Rightarrow> bytes \<Rightarrow> reader \<Rightarrow> bytes ext \<times> reader"
  dsa_VerifySignatureCtx :: "'dpk \<Rightarrow> bytes \<Rightarrow> bytes \<Rightarrow> bytes \<Rightarrow> bool"
  dsa_Bytes :: "'dpk \<Rightarrow> bytes"
  dsa_PublicKeyFromBytes :: "bytes \<Rightarrow> 'dpk ext"
  kem_GenerateKeyPair :: "reader \<Rightarrow> ('kpk \<times> 'ksk) ext \<times> reader"
  kem_PublicKey :: "'ksk \<Rightarrow> 'kpk"
  kem_Bytes :: "'kpk \<Rightarrow> bytes"
  kem_PublicKeyFromBytes :: "bytes \<Rightarrow> 'kpk ext"
  kem_Encapsulate :: "'kpk \<Rightarrow> reader \<Rightarrow> (bytes \<times> bytes) ext \<times> reader"
  kem_Decapsulate :: "'ksk \<Rightarrow> bytes \<Rightarrow> bytes ext"
  x25519 :: "bytes \<Rightarrow> bytes \<Rightarrow> bytes ext"
  x25519_Basepoint :: bytes
  hkdf_sha256 :: "bytes \<Rightarrow> bytes \<Rightarrow> bytes \<Rightarrow> bytes"
  chacha_Seal :: "bytes \<Rightarrow> bytes \<Rightarrow> bytes \<Rightarrow> bytes \<Rightarrow> bytes"
  chacha_Open :: "bytes \<Rightarrow> bytes \<Rightarrow> bytes \<Rightarrow> bytes \<Rightarrow> bytes option"

text \<open>
  \<open>dsa_GenerateKey_nil\<close> is \<open>mldsa.GenerateKey\<close> on a nil reader, whose outcome (a key, an error or a
  panic) is up to that package. \<open>ed25519.Verify\<close> of the standard library panics on a public key of
  the wrong length.
\<close>

definition ed25519_Verify :: "('dsk, 'dpk, 'ksk, 'kpk) crypto \<Rightarrow> bytes \<Rightarrow> bytes \<Rightarrow> bytes \<Rightarrow> bool result" where
  "ed25519_Verify C pub message sig =
     (if length pub \<noteq> 32 then Panic ''ed25519: bad public key length'' else Ok (ed_Verify C pub message sig))"

text \<open>
  Constants of these packages, as the comments of the sources give them.
  \<open>hkdf_sha256 secret salt info\<close> is everything the HKDF reader delivers before it fails.
\<close>

definition ed25519_PublicKeySize :: nat where [size_simps]: "ed25519_PublicKeySize = 32"
definition ed25519_SignatureSize :: nat where [size_simps]: "ed25519_SignatureSize = 64"
definition MLDSA65PublicKeySize :: nat where [size_simps]: "MLDSA65PublicKeySize = 1952"
definition MLDSA65SignatureSize :: nat where [size_simps]: "MLDSA65SignatureSize = 3309"
definition MLKEM768PublicKeySize :: nat where [size_simps]: "MLKEM768PublicKeySize = 1184"
definition MLKEM768CiphertextSize :: nat where [size_simps]: "MLKEM768CiphertextSize = 1088"
definition curve25519_PointSize :: nat where [size_simps]: "curve25519_PointSize = 32"
definition chacha20poly1305_KeySize :: nat where [size_simps]: "chacha20poly1305_KeySize = 32"
definition chacha20poly1305_Overhead :: nat where [size_simps]: "chacha20poly1305_Overhead = 16"

subsection \<open>What the program relies on\<close>

definition ed_keypair :: "('dsk, 'dpk, 'ksk, 'kpk) crypto \<Rightarrow> bytes \<Rightarrow> bytes \<Rightarrow> bool" where
  "ed_keypair C pub priv \<longleftrightarrow> (\<exists>r r'. ed_GenerateKey C r = (Inr (pub, priv), r'))"

definition dsa_key :: "('dsk, 'dpk, 'ksk, 'kpk) crypto \<Rightarrow> 'dsk \<Rightarrow> bool" where
  "dsa_key C sk \<longleftrightarrow>
     (\<exists>r r'. dsa_GenerateKey C r = (Inr sk, r') \<or> dsa_GenerateKey_nil C r = (Ok sk, r'))"

definition kem_keypair :: "('dsk, 'dpk, 'ksk, 'kpk) crypto \<Rightarrow> 'kpk \<Rightarrow> 'ksk \<Rightarrow> bool" where
  "kem_keypair C pk sk \<longleftrightarrow> (\<exists>r r'. kem_GenerateKeyPair C r = (Inr (pk, sk), r'))"

text \<open>Ed25519: generated keys have 32-byte public keys, sign with 64 bytes, and verify.\<close>

definition ed_laws :: "('dsk, 'dpk, 'ksk, 'kpk) crypto \<Rightarrow> bool" where
  "ed_laws C \<longleftrightarrow>
     (\<forall>pub priv d. ed_keypair C pub priv \<longrightarrow>
        length pub = ed25519_PublicKeySize \<and> length (ed_Sign C priv d) = ed25519_SignatureSize \<and>
        ed_Verify C pub d (ed_Sign C priv d))"

text \<open>ML-DSA-65 public keys: fixed-size encoding, accepted exactly when the size is right.\<close>

definition dsa_codec_laws :: "('dsk, 'dpk, 'ksk, 'kpk) crypto \<Rightarrow> bool" where
  "dsa_codec_laws C \<longleftrightarrow>
     (\<forall>b pk. dsa_PublicKeyFromBytes C b = Inr pk \<longrightarrow> dsa_Bytes C pk = b) \<and>
     (\<forall>b. length b = MLDSA65PublicKeySize \<longrightarrow> (\<exists>pk. dsa_PublicKeyFromBytes C b = Inr pk)) \<and>
     (\<forall>sk. dsa_key C sk \<longrightarrow>
        length (dsa_Bytes C (dsa_PublicKey C sk)) = MLDSA65PublicKeySize \<and>
        dsa_PublicKeyFromBytes C (dsa_Bytes C (dsa_PublicKey C sk)) = Inr (dsa_PublicKey C sk))"

text \<open>ML-DSA-65 signing with a generated key does not fail and its signatures verify.\<close>

definition dsa_sign_laws :: "('dsk, 'dpk, 'ksk, 'kpk) crypto \<Rightarrow> bool" where
  "dsa_sign_laws C \<longleftrightarrow>
     (\<forall>sk d ctx r. dsa_key C sk \<and> length ctx \<le> 255 \<longrightarrow>
        (\<exists>sig r'. dsa_SignCtx C sk d ctx r = (Inr sig, r') \<and> length sig = MLDSA65SignatureSize \<and>
           dsa_VerifySignatureCtx C (dsa_PublicKey C sk) d sig ctx))"

text \<open>ML-KEM-768: public-key encoding, and decapsulation inverts encapsulation.\<close>

definition kem_codec_laws :: "('dsk, 'dpk, 'ksk, 'kpk) crypto \<Rightarrow> bool" where
  "kem_codec_laws C \<longleftrightarrow>
     (\<forall>b pk. kem_PublicKeyFromBytes C b = Inr pk \<longrightarrow> kem_Bytes C pk = b) \<and>
     (\<forall>pk sk. kem_keypair C pk sk \<longrightarrow>
        kem_PublicKey C sk = pk \<and> length (kem_Bytes C pk) = MLKEM768PublicKeySize \<and>
        kem_PublicKeyFromBytes C (kem_Bytes C pk) = Inr pk)"

definition kem_laws :: "('dsk, 'dpk, 'ksk, 'kpk) crypto \<Rightarrow> bool" where
  "kem_laws C \<longleftrightarrow>
     (\<forall>pk r ct ss r'. kem_Encapsulate C pk r = (Inr (ct, ss), r') \<longrightarrow>
        length ct = MLKEM768CiphertextSize) \<and>
     (\<forall>pk sk r ct ss r'. kem_keypair C pk sk \<and> kem_Encapsulate C pk r = (Inr (ct, ss), r') \<longrightarrow>
        kem_Decapsulate C sk ct = Inr ss)"

text \<open>
  X25519: base-point multiplication never fails, points are 32 bytes, and it is Diffie-Hellman;
  a multiple of the base point is not of low order, so it is never refused.
\<close>

definition x25519_laws :: "('dsk, 'dpk, 'ksk, 'kpk) crypto \<Rightarrow> bool" where
  "x25519_laws C \<longleftrightarrow>
     (\<forall>s. length s = 32 \<longrightarrow> (\<exists>p. x25519 C s (x25519_Basepoint C) = Inr p)) \<and>
     (\<forall>s p q. x25519 C s p = Inr q \<longrightarrow> length q = curve25519_PointSize) \<and>
     (\<forall>a b A B. length a = 32 \<and> length b = 32 \<and> x25519 C a (x25519_Basepoint C) = Inr A \<and>
        x25519 C b (x25519_Basepoint C) = Inr B \<longrightarrow>
        x25519 C a B = x25519 C b A \<and> (\<exists>q. x25519 C a B = Inr q))"

text \<open>HKDF-SHA256 delivers up to 255 hash lengths of output.\<close>

definition hkdf_laws :: "('dsk, 'dpk, 'ksk, 'kpk) crypto \<Rightarrow> bool" where
  "hkdf_laws C \<longleftrightarrow> (\<forall>secret salt info. length (hkdf_sha256 C secret salt info) = 255 * 32)"

text \<open>ChaCha20-Poly1305: 16 bytes of overhead, and opening inverts sealing.\<close>

definition aead_laws :: "('dsk, 'dpk, 'ksk, 'kpk) crypto \<Rightarrow> bool" where
  "aead_laws C \<longleftrightarrow>
     (\<forall>k n p a. length k = chacha20poly1305_KeySize \<and> length n = 12 \<longrightarrow>
        length (chacha_Seal C k n p a) = length p + chacha20poly1305_Overhead \<and>
        chacha_Open C k n (chacha_Seal C k n p a) a = Some p)"

definition crypto_laws :: "('dsk, 'dpk, 'ksk, 'kpk) crypto \<Rightarrow> bool" where
  "crypto_laws C \<longleftrightarrow> ed_laws C \<and> dsa_codec_laws C \<and> dsa_sign_laws C \<and> kem_codec_laws C \<and> kem_laws C \<and>
     x25519_laws C \<and> hkdf_laws C \<and> aead_laws C"

subsection \<open>An executable instance\<close>

text \<open>
  Keys are byte strings read from the entropy source; a signature is the digest next to the
  public key; the KEM sends its secret in clear; X25519 is bytewise XOR; sealing appends a tag
  made of nonce and key. It is insecure and satisfies every law.
\<close>

definition toy_gen :: "reader \<Rightarrow> bytes ext \<times> reader" where
  "toy_gen r = (case ReadFull 32 r of (Ok b, r') \<Rightarrow> (Inr b, r') | (_, r') \<Rightarrow> (Inl ErrUnexpectedEOF, r'))"

definition toy_from :: "nat \<Rightarrow> bytes \<Rightarrow> bytes ext" where
  "toy_from n b = (if length b = n then Inr b else Inl (ErrExt ''size''))"

definition toy_tag :: "bytes \<Rightarrow> bytes \<Rightarrow> bytes" where
  "toy_tag k n = copy_array 16 (n @ k)"

definition toy_crypto :: "(bytes, bytes, bytes, bytes) crypto" where
  "toy_crypto = \<lparr>
     ed_GenerateKey = (\<lambda>r. case toy_gen r of (Inr b, r') \<Rightarrow> (Inr (b, b), r') | (Inl e, r') \<Rightarrow> (Inl e, r')),
     ed_Sign = (\<lambda>priv d. copy_array 64 (d @ priv)),
     ed_Verify = (\<lambda>pub d s. s = copy_array 64 (d @ pub)),
     dsa_GenerateKey = toy_gen,
     dsa_GenerateKey_nil = (\<lambda>r. (Err (ErrExt ''nil reader''), r)),
     dsa_PublicKey = copy_array 1952,
     dsa_SignCtx = (\<lambda>sk d ctx r. (Inr (copy_array 3309 (d @ copy_array 1952 sk)), r)),
     dsa_VerifySignatureCtx = (\<lambda>pk d s ctx. s = copy_array 3309 (d @ pk)),
     dsa_Bytes = (\<lambda>pk. pk),
     dsa_PublicKeyFromBytes = toy_from 1952,
     kem_GenerateKeyPair = (\<lambda>r. case toy_gen r of (Inr b, r') \<Rightarrow> (Inr (copy_array 1184 b, b), r')
                                 | (Inl e, r') \<Rightarrow> (Inl e, r')),
     kem_PublicKey = copy_array 1184,
     kem_Bytes = (\<lambda>pk. pk),
     kem_PublicKeyFromBytes = toy_from 1184,
     kem_Encapsulate = (\<lambda>pk r. case toy_gen r of (Inr m, r') \<Rightarrow> (Inr (copy_array 1088 m, copy_array 32 m), r')
                                | (Inl e, r') \<Rightarrow> (Inl e, r')),
     kem_Decapsulate = (\<lambda>sk ct. Inr (copy_array 32 ct)),
     x25519 = (\<lambda>s p. Inr (map2 (XOR) (copy_array 32 s) (copy_array 32 p))),
     x25519_Basepoint = replicate 32 0,
     hkdf_sha256 = (\<lambda>secret salt info. copy_array (255 * 32) (drop 13 info @ secret)),
     chacha_Seal = (\<lambda>k n p a. p @ toy_tag k n),
     chacha_Open = (\<lambda>k n c a. if 16 \<le> length c \<and> drop (length c - 16) c = toy_tag k n
                              then Some (take (length c - 16) c) else None)\<rparr>"

lemma copy_array_copy_array: "m \<le> n \<Longrightarrow> copy_array m (copy_array n b) = copy_array m b"
  by (auto simp: copy_array_def min_def)

lemma map2_xor_zeros: "length s = n \<Longrightarrow> map2 (XOR) s (replicate n 0) = (s :: bytes)"
  by (induction s arbitrary: n) auto

lemma map2_xor_commute: "map2 (XOR) a b = map2 (XOR) b (a :: bytes)"
  by (induction a b rule: list_induct2') (auto simp: xor.commute)

lemma toy_gen_length: "toy_gen r = (Inr b, r') \<Longrightarrow> length b = 32"
  by (auto simp: toy_gen_def split: prod.splits outcome.splits dest!: ReadFull_Ok_iff)

lemma toy_ed_keypair: "ed_keypair toy_crypto pub priv \<Longrightarrow> pub = priv \<and> length pub = 32"
proof -
  assume "ed_keypair toy_crypto pub priv"
  then obtain r r' where g: "ed_GenerateKey toy_crypto r = (Inr (pub, priv), r')"
    by (auto simp: ed_keypair_def)
  then show ?thesis
    by (cases "toy_gen r"; cases "fst (toy_gen r)") (auto simp: toy_crypto_def dest: toy_gen_length)
qed

lemma toy_kem_keypair: "kem_keypair toy_crypto pk sk \<Longrightarrow> pk = copy_array 1184 sk"
proof -
  assume "kem_keypair toy_crypto pk sk"
  then obtain r r' where g: "kem_GenerateKeyPair toy_crypto r = (Inr (pk, sk), r')"
    by (auto simp: kem_keypair_def)
  then show ?thesis
    by (cases "toy_gen r"; cases "fst (toy_gen r)") (auto simp: toy_crypto_def)
qed

lemma toy_ed_laws: "ed_laws toy_crypto"
  unfolding ed_laws_def
  by (auto dest!: toy_ed_keypair) (simp_all add: toy_crypto_def size_simps)

lemma toy_dsa_laws: "dsa_codec_laws toy_crypto" "dsa_sign_laws toy_crypto"
  by (auto simp: dsa_codec_laws_def dsa_sign_laws_def dsa_key_def toy_crypto_def toy_from_def size_simps
      split: if_splits)

lemma toy_kem_laws: "kem_codec_laws toy_crypto" "kem_laws toy_crypto"
proof -
  show "kem_codec_laws toy_crypto"
    unfolding kem_codec_laws_def
    by (auto dest!: toy_kem_keypair)
      (auto simp: toy_crypto_def toy_from_def size_simps split: if_splits)
  show "kem_laws toy_crypto"
    by (auto simp: kem_laws_def toy_crypto_def size_simps copy_array_copy_array
        split: prod.splits sum.splits)
qed

lemma toy_x25519_laws: "x25519_laws toy_crypto"
  by (auto simp: x25519_laws_def toy_crypto_def size_simps map2_xor_zeros map2_xor_commute)

lemma toy_hkdf_aead_laws: "hkdf_laws toy_crypto" "aead_laws toy_crypto"
  by (auto simp: hkdf_laws_def aead_laws_def toy_crypto_def toy_tag_def size_simps)

lemma toy_crypto_laws: "crypto_laws toy_crypto"
  by (simp add: crypto_laws_def toy_ed_laws toy_dsa_laws toy_kem_laws toy_x25519_laws toy_hkdf_aead_laws)

lemma crypto_lawsD:
  assumes "crypto_laws C"
  shows "ed_laws C" "dsa_codec_laws C" "dsa_sign_laws C" "kem_codec_laws C" "kem_laws C"
    "x25519_laws C" "hkdf_laws C" "aead_laws C"
  using assms by (simp_all add: crypto_laws_def)

subsection \<open>Frame conditions of the state helpers\<close>

lemma with_reader_conn [simp]:
  "w_conn (snd (with_reader ref f w)) = w_conn w" "w_mem (snd (with_reader ref f w)) = w_mem w"
  by (auto simp: with_reader_def split: rdref.splits prod.splits)

lemma with_reader_frame:
  "with_reader ref f w = (x, w') \<Longrightarrow> w_conn w' = w_conn w \<and> w_mem w' = w_mem w"
  by (metis snd_conv with_reader_conn)

lemma on_conn_simps [simp]:
  "w_rand (snd (on_conn f w)) = w_rand w" "w_custom (snd (on_conn f w)) = w_custom w"
  "w_mem (snd (on_conn f w)) = w_mem w" "w_conn (snd (on_conn f w)) = snd (f (w_conn w))"
  "fst (on_conn f w) = fst (f (w_conn w))"
  by (auto simp: on_conn_def split: prod.splits)

lemma leave_simps [simp]:
  "w_rand (leave bs w) = w_rand w" "w_custom (leave bs w) = w_custom w"
  "w_conn (leave bs w) = w_conn w" "w_mem (leave bs w) = w_mem w @ bs"
  by (simp_all add: leave_def)

end
