(* ===== verification/Sha2.thy ===== *)
theory Sha2
  imports Prelude
begin

text \<open>
  SHA-256 as \<open>crypto/sha256\<close> computes it (FIPS 180-4). The program uses it for the identity
  digest and the transcript hash; \<open>New\<close>, a sequence of \<open>Write\<close>s and \<open>Sum(nil)\<close> give the
  digest of the concatenation of what was written.
\<close>

type_synonym word32 = "32 word"
type_synonym sha2_state =
  "word32 \<times> word32 \<times> word32 \<times> word32 \<times> word32 \<times> word32 \<times> word32 \<times> word32"

text \<open>A byte string cut into blocks of \<open>n\<close> bytes.\<close>

function chunks :: "nat \<Rightarrow> 'a list \<Rightarrow> 'a list list" where
  "chunks n xs = (if n = 0 \<or> xs = [] then [] else take n xs # chunks n (drop n xs))"
  by pat_completeness auto
termination
  by (relation "measure (\<lambda>(n, xs). length xs)") auto

declare chunks.simps [simp del]

definition rotr32 :: "nat \<Rightarrow> word32 \<Rightarrow> word32" where
  "rotr32 n w = drop_bit n w OR push_bit (32 - n) (take_bit n w)"

definition sha2_Ch :: "word32 \<Rightarrow> word32 \<Rightarrow> word32 \<Rightarrow> word32" where
  "sha2_Ch x y z = (x AND y) XOR (NOT x AND z)"

definition sha2_Maj :: "word32 \<Rightarrow> word32 \<Rightarrow> word32 \<Rightarrow> word32" where
  "sha2_Maj x y z = (x AND y) XOR (x AND z) XOR (y AND z)"

definition sha2_Sigma0 :: "word32 \<Rightarrow> word32" where
  "sha2_Sigma0 x = rotr32 2 x XOR rotr32 13 x XOR rotr32 22 x"

definition sha2_Sigma1 :: "word32 \<Rightarrow> word32" where
  "sha2_Sigma1 x = rotr32 6 x XOR rotr32 11 x XOR rotr32 25 x"

definition sha2_sigma0 :: "word32 \<Rightarrow> word32" where
  "sha2_sigma0 x = rotr32 7 x XOR rotr32 18 x XOR drop_bit 3 x"

definition sha2_sigma1 :: "word32 \<Rightarrow> word32" where
  "sha2_sigma1 x = rotr32 17 x XOR rotr32 19 x XOR drop_bit 10 x"

definition sha2_K :: "word32 list" where
  "sha2_K = [
     1116352408, 1899447441, 3049323471, 3921009573, 961987163, 1508970993, 2453635748, 2870763221,
     3624381080, 310598401, 607225278, 1426881987, 1925078388, 2162078206, 2614888103, 3248222580,
     3835390401, 4022224774, 264347078, 604807628, 770255983, 1249150122, 1555081692, 1996064986,
     2554220882, 2821834349, 2952996808, 3210313671, 3336571891, 3584528711, 113926993, 338241895,
     666307205, 773529912, 1294757372, 1396182291, 1695183700, 1986661051, 2177026350, 2456956037,
     2730485921, 2820302411, 3259730800, 3345764771, 3516065817, 3600352804, 4094571909, 275423344,
     430227734, 506948616, 659060556, 883997877, 958139571, 1322822218, 1537002063, 1747873779,
     1955562222, 2024104815, 2227730452, 2361852424, 2428436474, 2756734187, 3204031479, 3329325298]"

definition sha2_H0 :: sha2_state where
  "sha2_H0 = (0x6a09e667, 0xbb67ae85, 0x3c6ef372, 0xa54ff53a,
              0x510e527f, 0x9b05688c, 0x1f83d9ab, 0x5be0cd19)"

definition sha2_extend :: "word32 list \<Rightarrow> nat \<Rightarrow> word32 list" where
  "sha2_extend W t =
     W @ [sha2_sigma1 (W ! (t - 2)) + W ! (t - 7) + sha2_sigma0 (W ! (t - 15)) + W ! (t - 16)]"

definition sha2_schedule :: "bytes \<Rightarrow> word32 list" where
  "sha2_schedule blk = foldl sha2_extend (map Uint32 (chunks 4 blk)) [16..<64]"

fun sha2_step :: "sha2_state \<Rightarrow> word32 \<times> word32 \<Rightarrow> sha2_state" where
  "sha2_step (a, b, c, d, e, f, g, h) (k, w) =
     (let t1 = h + sha2_Sigma1 e + sha2_Ch e f g + k + w;
          t2 = sha2_Sigma0 a + sha2_Maj a b c
      in (t1 + t2, a, b, c, d + t1, e, f, g))"

fun sha2_add :: "sha2_state \<Rightarrow> sha2_state \<Rightarrow> sha2_state" where
  "sha2_add (a, b, c, d, e, f, g, h) (a', b', c', d', e', f', g', h') =
     (a + a', b + b', c + c', d + d', e + e', f + f', g + g', h + h')"

definition sha2_block :: "sha2_state \<Rightarrow> bytes \<Rightarrow> sha2_state" where
  "sha2_block H blk = sha2_add H (foldl sha2_step H (zip sha2_K (sha2_schedule blk)))"

definition sha2_pad :: "bytes \<Rightarrow> bytes" where
  "sha2_pad m = m @ [0x80] @ replicate ((119 - length m mod 64) mod 64) 0
     @ PutUint64 (word_of_nat (8 * length m))"

fun sha2_out :: "sha2_state \<Rightarrow> bytes" where
  "sha2_out (a, b, c, d, e, f, g, h) =
     PutUint32 a @ PutUint32 b @ PutUint32 c @ PutUint32 d @
     PutUint32 e @ PutUint32 f @ PutUint32 g @ PutUint32 h"

definition sha256 :: "bytes \<Rightarrow> bytes" where
  "sha256 m = sha2_out (foldl sha2_block sha2_H0 (chunks 64 (sha2_pad m)))"

lemma length_sha2_out [simp]: "length (sha2_out H) = 32"
  by (cases H rule: sha2_out.cases) simp

lemma length_sha256 [simp, len_simps]: "length (sha256 m) = 32"
  by (simp add: sha256_def)

text \<open>The padded message is a whole number of 64-byte blocks.\<close>

lemma sha2_pad_blocks: "length (sha2_pad m) mod 64 = 0"
proof -
  define r where "r = length m mod 64"
  have r: "r < 64" by (simp add: r_def)
  have "length (sha2_pad m) = length m + ((119 - r) mod 64 + 9)"
    by (simp add: sha2_pad_def r_def)
  then have "length (sha2_pad m) mod 64 = (r + ((119 - r) mod 64 + 9)) mod 64"
    unfolding r_def by (simp add: mod_add_left_eq)
  also have "\<dots> = 0"
  proof (cases "r < 56")
    case True
    then have "(119 - r) mod 64 = 55 - r" by (simp add: mod_if)
    with True show ?thesis by simp
  next
    case False
    with r have "(119 - r) mod 64 = 119 - r" by simp
    with False r show ?thesis by simp
  qed
  finally show ?thesis .
qed

end
