(* ===== verification/Sha3.thy ===== *)
theory Sha3
  imports Sha2
begin

text \<open>
  SHA3-256 as \<open>crypto/sha3\<close> computes it (FIPS 202): Keccak-f[1600] on 25 lanes of 64 bits,
  rate 136 bytes, domain byte 0x06. The program uses it in the X-Wing combiner.
\<close>

type_synonym lane = "64 word"

definition rotl64 :: "nat \<Rightarrow> lane \<Rightarrow> lane" where
  "rotl64 n w = push_bit n (take_bit (64 - n) w) OR drop_bit (64 - n) w"

definition keccak_RC :: "lane list" where
  "keccak_RC = [
     0x0000000000000001, 0x0000000000008082, 0x800000000000808a, 0x8000000080008000,
     0x000000000000808b, 0x0000000080000001, 0x8000000080008081, 0x8000000000008009,
     0x000000000000008a, 0x0000000000000088, 0x0000000080008009, 0x000000008000000a,
     0x000000008000808b, 0x800000000000008b, 0x8000000000008089, 0x8000000000008003,
     0x8000000000008002, 0x8000000000000080, 0x000000000000800a, 0x800000008000000a,
     0x8000000080008081, 0x8000000000008080, 0x0000000080000001, 0x8000000080008008]"

text \<open>Lane \<open>(x, y)\<close> is element \<open>5 y + x\<close>; a row is five lanes with the same \<open>y\<close>.\<close>

definition xors :: "lane list \<Rightarrow> lane list \<Rightarrow> lane list" where
  "xors = map2 (XOR)"

definition keccak_rows :: "lane list \<Rightarrow> lane list list" where
  "keccak_rows A =
     [take 5 A, take 5 (drop 5 A), take 5 (drop 10 A), take 5 (drop 15 A), take 5 (drop 20 A)]"

definition keccak_parity :: "lane list \<Rightarrow> lane list" where
  "keccak_parity A = foldr xors (keccak_rows A) [0, 0, 0, 0, 0]"

fun theta_effect :: "lane list \<Rightarrow> lane list" where
  "theta_effect [c0, c1, c2, c3, c4] =
     [c4 XOR rotl64 1 c1, c0 XOR rotl64 1 c2, c1 XOR rotl64 1 c3, c2 XOR rotl64 1 c4,
      c3 XOR rotl64 1 c0]"
| "theta_effect C = C"

definition keccak_theta :: "lane list \<Rightarrow> lane list" where
  "keccak_theta A = concat (map (xors (theta_effect (keccak_parity A))) (keccak_rows A))"

definition keccak_rho :: "lane list \<Rightarrow> lane list" where
  "keccak_rho A =
     map2 rotl64 [0, 1, 62, 28, 27, 36, 44, 6, 55, 20, 3, 10, 43, 25, 39, 41, 45, 15, 21, 8,
                  18, 2, 61, 56, 14] A"

definition keccak_pi :: "lane list \<Rightarrow> lane list" where
  "keccak_pi A =
     map (nth A) [0, 6, 12, 18, 24, 3, 9, 10, 16, 22, 1, 7, 13, 19, 20, 4, 5, 11, 17, 23,
                  2, 8, 14, 15, 21]"

fun chi_row :: "lane list \<Rightarrow> lane list" where
  "chi_row [a, b, c, d, e] =
     [a XOR (NOT b AND c), b XOR (NOT c AND d), c XOR (NOT d AND e), d XOR (NOT e AND a),
      e XOR (NOT a AND b)]"
| "chi_row r = r"

definition keccak_chi :: "lane list \<Rightarrow> lane list" where
  "keccak_chi A = concat (map chi_row (keccak_rows A))"

definition keccak_iota :: "lane \<Rightarrow> lane list \<Rightarrow> lane list" where
  "keccak_iota k A = (case A of [] \<Rightarrow> [] | x # xs \<Rightarrow> (x XOR k) # xs)"

definition keccak_round :: "lane list \<Rightarrow> lane \<Rightarrow> lane list" where
  "keccak_round A k = keccak_iota k (keccak_chi (keccak_pi (keccak_rho (keccak_theta A))))"

definition keccak_f :: "lane list \<Rightarrow> lane list" where
  "keccak_f A = foldl keccak_round A keccak_RC"

text \<open>Bytes of a lane are in little-endian order.\<close>

definition lane_of :: "bytes \<Rightarrow> lane" where
  "lane_of b = foldr (\<lambda>x w. ucast x OR push_bit 8 w) b 0"

definition lane_bytes :: "lane \<Rightarrow> bytes" where
  "lane_bytes w = rev (PutUint64 w)"

definition sha3_rate :: nat where
  "sha3_rate = 136"

definition sha3_pad :: "bytes \<Rightarrow> bytes" where
  "sha3_pad m =
     (let q = sha3_rate - length m mod sha3_rate in
      if q = 1 then m @ [0x86] else m @ [0x06] @ replicate (q - 2) 0 @ [0x80])"

text \<open>A block of 136 bytes is 17 lanes; the capacity of 8 lanes is left alone.\<close>

definition sha3_absorb :: "lane list \<Rightarrow> bytes \<Rightarrow> lane list" where
  "sha3_absorb A blk = keccak_f (xors A (map lane_of (chunks 8 blk) @ replicate 8 0))"

definition sha3_256 :: "bytes \<Rightarrow> bytes" where
  "sha3_256 m =
     concat (map lane_bytes (take 4 (foldl sha3_absorb (replicate 25 0) (chunks sha3_rate (sha3_pad m)))))"

subsection \<open>Sizes\<close>

lemma length_xors [simp]: "length (xors a b) = min (length a) (length b)"
  by (simp add: xors_def)

lemma length_theta_effect [simp]: "length (theta_effect C) = length C"
  by (cases C rule: theta_effect.cases) auto

lemma length_chi_row [simp]: "length (chi_row r) = length r"
  by (cases r rule: chi_row.cases) auto

lemma length_keccak_iota [simp]: "length (keccak_iota k A) = length A"
  by (simp add: keccak_iota_def split: list.splits)

lemma length_keccak_theta [simp]: "length A = 25 \<Longrightarrow> length (keccak_theta A) = 25"
  by (simp add: keccak_theta_def keccak_rows_def keccak_parity_def)

lemma length_keccak_rho [simp]: "length A = 25 \<Longrightarrow> length (keccak_rho A) = 25"
  by (simp add: keccak_rho_def)

lemma length_keccak_pi [simp]: "length (keccak_pi A) = 25"
  by (simp add: keccak_pi_def)

lemma length_keccak_chi [simp]: "length A = 25 \<Longrightarrow> length (keccak_chi A) = 25"
  by (simp add: keccak_chi_def keccak_rows_def)

lemma length_keccak_round [simp]: "length (keccak_round A k) = 25"
  by (simp add: keccak_round_def)

lemma length_foldl_round: "ks \<noteq> [] \<Longrightarrow> length (foldl keccak_round A ks) = 25"
  by (induction ks rule: rev_induct) auto

lemma length_keccak_f [simp]: "length (keccak_f A) = 25"
  unfolding keccak_f_def by (rule length_foldl_round) (simp add: keccak_RC_def)

lemma length_sha3_absorb [simp]: "length (sha3_absorb A blk) = 25"
  by (simp add: sha3_absorb_def)

lemma length_foldl_absorb [simp]: "length A = 25 \<Longrightarrow> length (foldl sha3_absorb A bs) = 25"
  by (induction bs rule: rev_induct) auto

lemma length_lane_bytes [simp]: "length (lane_bytes w) = 8"
  by (simp add: lane_bytes_def)

lemma length_sha3_256 [simp, len_simps]: "length (sha3_256 m) = 32"
proof -
  have "length (concat (map lane_bytes ws)) = 8 * length ws" for ws
    by (induction ws) auto
  then show ?thesis by (simp add: sha3_256_def)
qed

lemma sha3_pad_blocks: "length (sha3_pad m) mod sha3_rate = 0"
proof -
  define r where "r = length m mod 136"
  have r: "r < 136" by (simp add: r_def)
  have "length (sha3_pad m) = length m + (136 - r)"
    using r by (auto simp: sha3_pad_def sha3_rate_def Let_def r_def)
  then have "length (sha3_pad m) mod 136 = (r + (136 - r)) mod 136"
    unfolding r_def by (metis mod_add_left_eq)
  with r show ?thesis by (simp add: sha3_rate_def)
qed

end
