(* ===== verification/Kem.thy ===== *)
theory Kem
  imports Crypto Sha3
begin

text \<open>
  The X-Wing KEM (\<open>kem.go\<close>): key generation, encapsulation, decapsulation, the SHA3-256
  combiner, public-key encoding and the zeroing of secrets. The interpretation of
  \<open>kem_scheme\<close> is the contract the handshake uses; \<open>xk\<close> is the public-key codec.
\<close>

definition xwingLabelPrefix :: bytes where
  "xwingLabelPrefix = bytes_of [CHR 0x5C, CHR ''.'', CHR ''/'']"

definition xwingLabelName :: bytes where
  "xwingLabelName = bytes_of ''X-Wing''"

definition XWingPublicKeySize :: nat where
  "XWingPublicKeySize = MLKEM768PublicKeySize + curve25519_PointSize"

definition XWingCiphertextSize :: nat where
  "XWingCiphertextSize = MLKEM768CiphertextSize + curve25519_PointSize"

definition XWingSharedSize :: nat where
  "XWingSharedSize = 32"

record 'kpk XWingPublicKey =
  MLKEM :: 'kpk
  X25519 :: bytes

record 'ksk XWingPrivateKey =
  MLKEMPriv :: 'ksk
  X25519Priv :: bytes
  X25519Pub :: bytes

definition XWing_Public ::
  "('dsk, 'dpk, 'ksk, 'kpk) crypto \<Rightarrow> 'ksk XWingPrivateKey \<Rightarrow> 'kpk XWingPublicKey" where
  "XWing_Public C sk = \<lparr>MLKEM = kem_PublicKey C (MLKEMPriv sk), X25519 = X25519Pub sk\<rparr>"

definition XWing_MarshalBinary ::
  "('dsk, 'dpk, 'ksk, 'kpk) crypto \<Rightarrow> 'kpk XWingPublicKey \<Rightarrow> bytes" where
  "XWing_MarshalBinary C pk = kem_Bytes C (MLKEM pk) @ X25519 pk"

definition ParseXWingPublicKey ::
  "('dsk, 'dpk, 'ksk, 'kpk) crypto \<Rightarrow> bytes \<Rightarrow> 'kpk XWingPublicKey result" where
  "ParseXWingPublicKey C data =
     (if length data \<noteq> XWingPublicKeySize
      then Err (ErrNew ''zwing: invalid X-Wing public key size'')
      else bindR (slice 0 (int MLKEM768PublicKeySize) data) (\<lambda>mlkemBytes.
           bindR (lift_ext (kem_PublicKeyFromBytes C mlkemBytes)) (\<lambda>mlkemPK.
           bindR (slice_from (int MLKEM768PublicKeySize) data) (\<lambda>x25519Bytes.
           Ok \<lparr>MLKEM = mlkemPK, X25519 = copy_array 32 x25519Bytes\<rparr>))))"

text \<open>\<open>if reader == nil { reader = rand.Reader }\<close>\<close>

definition reader_or_rand :: "rdref option \<Rightarrow> rdref" where
  "reader_or_rand reader = (case reader of None \<Rightarrow> RandReader | Some r \<Rightarrow> r)"

definition ext_call :: "rdref \<Rightarrow> (reader \<Rightarrow> 'a ext \<times> reader) \<Rightarrow> world \<Rightarrow> 'a result \<times> world" where
  "ext_call ref f w = (case with_reader ref f w of (x, w') \<Rightarrow> (lift_ext x, w'))"

definition GenerateXWingKey ::
  "('dsk, 'dpk, 'ksk, 'kpk) crypto \<Rightarrow> rdref option \<Rightarrow> world \<Rightarrow> 'ksk XWingPrivateKey result \<times> world" where
  "GenerateXWingKey C reader w =
     (let reader = reader_or_rand reader in
      bindS (ext_call reader (kem_GenerateKeyPair C) w) (\<lambda>(_, mlkemPriv) w.
      bindS (with_reader reader (ReadFull 32) w) (\<lambda>priv w.
      let pub = drop_err [] (x25519 C priv (x25519_Basepoint C)) in
      (Ok \<lparr>MLKEMPriv = mlkemPriv, X25519Priv = priv, X25519Pub = copy_array 32 pub\<rparr>, w))))"

definition combineXWing :: "bytes \<Rightarrow> bytes \<Rightarrow> bytes \<Rightarrow> bytes \<Rightarrow> bytes" where
  "combineXWing ssM ssX ctX pkX =
     copy_array XWingSharedSize
       (sha3_256 (xwingLabelPrefix @ xwingLabelName @ ssM @ ssX @ ctX @ pkX))"

text \<open>\<open>for i := range b { b[i] = 0 }\<close>\<close>

definition zero :: "bytes \<Rightarrow> bytes" where
  "zero b = foldl (\<lambda>b i. b[i := 0]) b [0..<length b]"

definition XWingEncapsulate ::
  "('dsk, 'dpk, 'ksk, 'kpk) crypto \<Rightarrow> rdref option \<Rightarrow> 'kpk XWingPublicKey \<Rightarrow> world
     \<Rightarrow> (bytes \<times> bytes) result \<times> world" where
  "XWingEncapsulate C reader recipient w =
     (let reader = reader_or_rand reader in
      bindS (ext_call reader (kem_Encapsulate C (MLKEM recipient)) w) (\<lambda>(mlkemCT, ssM) w.
      case with_reader reader (ReadFull_buf 32) w of
        ((part, Some e), w) \<Rightarrow> (Err e, leave [(''ephPriv'', copy_array 32 part), (''ssM'', ssM)] w)
      | ((ephPriv, None), w) \<Rightarrow>
          (let ephPub = drop_err [] (x25519 C ephPriv (x25519_Basepoint C)) in
           case x25519 C ephPriv (X25519 recipient) of
             Inl e \<Rightarrow> (Err e, leave [(''ephPriv'', ephPriv), (''ssM'', ssM)] w)
           | Inr ssX \<Rightarrow>
               (let shared = combineXWing ssM ssX ephPub (X25519 recipient);
                    ciphertext = mlkemCT @ ephPub
                in (Ok (ciphertext, shared),
                    leave [(''ephPriv'', zero ephPriv), (''ssM'', zero ssM), (''ssX'', zero ssX),
                           (''shared'', shared)] w)))))"

definition decapsulateMLKEM ::
  "('dsk, 'dpk, 'ksk, 'kpk) crypto \<Rightarrow> 'ksk XWingPrivateKey \<Rightarrow> bytes \<Rightarrow> bytes ext" where
  "decapsulateMLKEM C sk ct = kem_Decapsulate C (MLKEMPriv sk) ct"

definition XWingDecapsulate ::
  "('dsk, 'dpk, 'ksk, 'kpk) crypto \<Rightarrow> 'ksk XWingPrivateKey \<Rightarrow> bytes \<Rightarrow> world \<Rightarrow> bytes result \<times> world" where
  "XWingDecapsulate C sk ciphertext w =
     (if length ciphertext \<noteq> XWingCiphertextSize
      then (Err (ErrNew ''zwing: invalid X-Wing ciphertext size''), w)
      else bindS (slice 0 (int MLKEM768CiphertextSize) ciphertext, w) (\<lambda>mlkemCT w.
           bindS (slice_from (int MLKEM768CiphertextSize) ciphertext, w) (\<lambda>ephPub w.
           case decapsulateMLKEM C sk mlkemCT of
             Inl e \<Rightarrow> (Err e, w)
           | Inr ssM \<Rightarrow>
               (case x25519 C (X25519Priv sk) ephPub of
                  Inl e \<Rightarrow> (Err e, leave [(''ssM'', ssM)] w)
                | Inr ssX \<Rightarrow>
                    (let shared = combineXWing ssM ssX ephPub (X25519Pub sk) in
                     (Ok shared,
                      leave [(''ssM'', zero ssM), (''ssX'', zero ssX), (''shared'', shared)] w))))))"

text \<open>
  Within its bounds the two slices are the first 1088 bytes and the rest; the guard on the size
  is what keeps them there.
\<close>

lemma XWingDecapsulate_eq:
  "XWingDecapsulate C sk ct w =
     (if length ct \<noteq> XWingCiphertextSize
      then (Err (ErrNew ''zwing: invalid X-Wing ciphertext size''), w)
      else case decapsulateMLKEM C sk (take MLKEM768CiphertextSize ct) of
             Inl e \<Rightarrow> (Err e, w)
           | Inr ssM \<Rightarrow>
               (case x25519 C (X25519Priv sk) (drop MLKEM768CiphertextSize ct) of
                  Inl e \<Rightarrow> (Err e, leave [(''ssM'', ssM)] w)
                | Inr ssX \<Rightarrow>
                    (Ok (combineXWing ssM ssX (drop MLKEM768CiphertextSize ct) (X25519Pub sk)),
                     leave [(''ssM'', zero ssM), (''ssX'', zero ssX),
                       (''shared'', combineXWing ssM ssX (drop MLKEM768CiphertextSize ct) (X25519Pub sk))] w)))"
  by (simp add: XWingDecapsulate_def XWingCiphertextSize_def Let_def split: sum.splits)

lemma ParseXWingPublicKey_eq:
  "ParseXWingPublicKey C data =
     (if length data \<noteq> XWingPublicKeySize
      then Err (ErrNew ''zwing: invalid X-Wing public key size'')
      else bindR (lift_ext (kem_PublicKeyFromBytes C (take MLKEM768PublicKeySize data))) (\<lambda>mlkemPK.
           Ok \<lparr>MLKEM = mlkemPK, X25519 = copy_array 32 (drop MLKEM768PublicKeySize data)\<rparr>))"
  by (simp add: ParseXWingPublicKey_def XWingPublicKeySize_def)

subsection \<open>Well-formed keys\<close>

text \<open>What key generation establishes.\<close>

definition xwing_key :: "('dsk, 'dpk, 'ksk, 'kpk) crypto \<Rightarrow> 'ksk XWingPrivateKey \<Rightarrow> bool" where
  "xwing_key C sk \<longleftrightarrow>
     (\<exists>pk. kem_keypair C pk (MLKEMPriv sk)) \<and> length (X25519Priv sk) = 32 \<and>
     x25519 C (X25519Priv sk) (x25519_Basepoint C) = Inr (X25519Pub sk)"

definition xwing_public :: "('dsk, 'dpk, 'ksk, 'kpk) crypto \<Rightarrow> 'kpk XWingPublicKey \<Rightarrow> bool" where
  "xwing_public C pk \<longleftrightarrow>
     length (X25519 pk) = 32 \<and> length (kem_Bytes C (MLKEM pk)) = MLKEM768PublicKeySize \<and>
     kem_PublicKeyFromBytes C (kem_Bytes C (MLKEM pk)) = Inr (MLKEM pk)"

subsection \<open>Sizes and zeroing\<close>

lemma XWing_sizes [size_simps]:
  "XWingPublicKeySize = 1216" "XWingCiphertextSize = 1120" "XWingSharedSize = 32"
  by (simp_all add: XWingPublicKeySize_def XWingCiphertextSize_def XWingSharedSize_def size_simps)

lemma length_combineXWing [simp, len_simps]: "length (combineXWing a b c d) = 32"
  by (simp add: combineXWing_def size_simps)

lemma zero_loop: "i \<le> length b \<Longrightarrow>
  foldl (\<lambda>b i. b[i := 0]) b [0..<i] = replicate i (0::byte) @ drop i b"
proof (induction i)
  case (Suc i)
  then show ?case
    by (simp add: list_update_append replicate_append_same flip: Cons_nth_drop_Suc)
qed simp

lemma zero_eq [simp]: "zero b = replicate (length b) 0"
  by (simp add: zero_def zero_loop)

subsection \<open>Key generation\<close>

lemma ext_call_Ok:
  "ext_call ref f w = (Ok a, w') \<Longrightarrow> \<exists>r r'. f r = (Inr a, r')"
  by (auto simp: ext_call_def with_reader_def outcome_simps split: prod.splits rdref.splits)

lemma ext_call_frame:
  "ext_call ref f w = (x, w') \<Longrightarrow> w_conn w' = w_conn w \<and> w_mem w' = w_mem w"
  by (auto simp: ext_call_def split: prod.splits dest: with_reader_frame)

lemma with_reader_ReadFull_Ok:
  "with_reader ref (ReadFull n) w = (Ok b, w') \<Longrightarrow> length b = n"
  by (auto simp: with_reader_def split: prod.splits rdref.splits dest!: ReadFull_Ok_iff)

lemma GenerateXWingKey_key:
  assumes "x25519_laws C" "GenerateXWingKey C reader w = (Ok sk, w')"
  shows "xwing_key C sk"
proof -
  from assms(2) obtain pk w1 priv where
    g: "ext_call (reader_or_rand reader) (kem_GenerateKeyPair C) w = (Ok (pk, MLKEMPriv sk), w1)"
    and rd: "with_reader (reader_or_rand reader) (ReadFull 32) w1 = (Ok priv, w')"
    and sk: "X25519Priv sk = priv"
      "X25519Pub sk = copy_array 32 (drop_err [] (x25519 C priv (x25519_Basepoint C)))"
    by (auto simp: GenerateXWingKey_def Let_def outcome_simps)
  have len: "length priv = 32" using with_reader_ReadFull_Ok [OF rd] .
  with assms(1) obtain p where "x25519 C priv (x25519_Basepoint C) = Inr p" "length p = 32"
    unfolding x25519_laws_def by (metis size_simps(7))
  with sk len ext_call_Ok [OF g] show ?thesis
    by (auto simp: xwing_key_def kem_keypair_def)
qed

subsection \<open>Encapsulation and decapsulation\<close>

lemma XWingEncapsulate_Ok:
  assumes "XWingEncapsulate C reader pk w = (Ok (ct, ss), w')"
  shows "\<exists>mct ssM eph ssX r r'. kem_Encapsulate C (MLKEM pk) r = (Inr (mct, ssM), r') \<and>
    length eph = 32 \<and> x25519 C eph (X25519 pk) = Inr ssX \<and>
    ct = mct @ drop_err [] (x25519 C eph (x25519_Basepoint C)) \<and>
    ss = combineXWing ssM ssX (drop_err [] (x25519 C eph (x25519_Basepoint C))) (X25519 pk) \<and>
    w_mem w' = w_mem w @ [(''ephPriv'', zero eph), (''ssM'', zero ssM), (''ssX'', zero ssX), (''shared'', ss)] \<and>
    w_conn w' = w_conn w"
proof -
  let ?R = "reader_or_rand reader"
  from assms obtain mct ssM w1 where
    e: "ext_call ?R (kem_Encapsulate C (MLKEM pk)) w = (Ok (mct, ssM), w1)"
    and rest: "(case with_reader ?R (ReadFull_buf 32) w1 of
        ((part, Some e), w) \<Rightarrow> (Err e, leave [(''ephPriv'', copy_array 32 part), (''ssM'', ssM)] w)
      | ((ephPriv, None), w) \<Rightarrow>
          (let ephPub = drop_err [] (x25519 C ephPriv (x25519_Basepoint C)) in
           case x25519 C ephPriv (X25519 pk) of
             Inl e \<Rightarrow> (Err e, leave [(''ephPriv'', ephPriv), (''ssM'', ssM)] w)
           | Inr ssX \<Rightarrow>
               (let shared = combineXWing ssM ssX ephPub (X25519 pk);
                    ciphertext = mct @ ephPub
                in (Ok (ciphertext, shared),
                    leave [(''ephPriv'', zero ephPriv), (''ssM'', zero ssM), (''ssX'', zero ssX),
                           (''shared'', shared)] w))))
      = (Ok (ct, ss), w')"
    by (auto simp: XWingEncapsulate_def Let_def outcome_simps)
  from rest obtain eph w2 ssX where rd: "with_reader ?R (ReadFull_buf 32) w1 = ((eph, None), w2)"
    and x: "x25519 C eph (X25519 pk) = Inr ssX"
    and out: "ct = mct @ drop_err [] (x25519 C eph (x25519_Basepoint C))"
      "ss = combineXWing ssM ssX (drop_err [] (x25519 C eph (x25519_Basepoint C))) (X25519 pk)"
      "w' = leave [(''ephPriv'', zero eph), (''ssM'', zero ssM), (''ssX'', zero ssX), (''shared'', ss)] w2"
    by (auto simp: Let_def simp del: zero_eq split: prod.splits option.splits sum.splits)
  have len: "length eph = 32"
    using rd ReadFull_buf_spec [of 32 "w_rand w1"] ReadFull_buf_spec [of 32 "w_custom w1"]
    by (auto simp: with_reader_def split: rdref.splits prod.splits if_splits)
  from ext_call_frame [OF e] with_reader_frame [OF rd] out x len ext_call_Ok [OF e] show ?thesis
    by (metis leave_simps(3,4))
qed

lemma XWingEncapsulate_sizes:
  assumes "kem_laws C" "x25519_laws C" "XWingEncapsulate C reader pk w = (Ok (ct, ss), w')"
  shows "length ct = XWingCiphertextSize" "length ss = XWingSharedSize"
proof -
  from XWingEncapsulate_Ok [OF assms(3)] obtain mct ssM eph ssX r r' where
    e: "kem_Encapsulate C (MLKEM pk) r = (Inr (mct, ssM), r')" "length eph = 32"
    and o: "ct = mct @ drop_err [] (x25519 C eph (x25519_Basepoint C))"
      "ss = combineXWing ssM ssX (drop_err [] (x25519 C eph (x25519_Basepoint C))) (X25519 pk)"
    by blast
  obtain p where "x25519 C eph (x25519_Basepoint C) = Inr p" "length p = curve25519_PointSize"
    using assms(2) e(2) unfolding x25519_laws_def by blast
  moreover have "length mct = MLKEM768CiphertextSize"
    using assms(1) e(1) unfolding kem_laws_def by blast
  ultimately show "length ct = XWingCiphertextSize" "length ss = XWingSharedSize"
    using o by (simp_all add: XWingCiphertextSize_def XWingSharedSize_def)
qed

lemma XWing_correct:
  assumes "kem_codec_laws C" "kem_laws C" "x25519_laws C" "xwing_key C sk"
    and "XWingEncapsulate C reader (XWing_Public C sk) w = (Ok (ct, ss), w')"
  shows "fst (XWingDecapsulate C sk ct v) = Ok ss"
proof -
  let ?base = "x25519_Basepoint C"
  from assms(4) obtain pk where kp: "kem_keypair C pk (MLKEMPriv sk)"
    and k: "length (X25519Priv sk) = 32" "x25519 C (X25519Priv sk) ?base = Inr (X25519Pub sk)"
    by (auto simp: xwing_key_def)
  from kp assms(1) have pub: "XWing_Public C sk = \<lparr>MLKEM = pk, X25519 = X25519Pub sk\<rparr>"
    unfolding XWing_Public_def kem_codec_laws_def by auto
  from XWingEncapsulate_Ok [OF assms(5)] obtain mct ssM eph ssX r r' where
    e: "kem_Encapsulate C pk r = (Inr (mct, ssM), r')" "length eph = 32"
      "x25519 C eph (X25519Pub sk) = Inr ssX"
    and o: "ct = mct @ drop_err [] (x25519 C eph ?base)"
      "ss = combineXWing ssM ssX (drop_err [] (x25519 C eph ?base)) (X25519Pub sk)"
    unfolding pub by auto
  obtain p where p: "x25519 C eph ?base = Inr p"
    using assms(3) e(2) unfolding x25519_laws_def by blast
  have "x25519 C (X25519Priv sk) p = Inr ssX"
    using assms(3) k e(2,3) p unfolding x25519_laws_def by metis
  moreover have "length mct = MLKEM768CiphertextSize" "kem_Decapsulate C (MLKEMPriv sk) mct = Inr ssM"
    using assms(2) e(1) kp unfolding kem_laws_def by blast+
  ultimately show ?thesis
    using o p XWingEncapsulate_sizes(1) [OF assms(2,3,5)]
    by (simp add: XWingDecapsulate_eq decapsulateMLKEM_def)
qed

lemma XWingDecapsulate_conn [simp]: "w_conn (snd (XWingDecapsulate C sk ct w)) = w_conn w"
  by (simp add: XWingDecapsulate_eq Let_def split: sum.splits)

lemma XWingDecapsulate_value:
  "fst (XWingDecapsulate C sk ct v) = fst (XWingDecapsulate C sk ct w)"
  by (simp add: XWingDecapsulate_eq Let_def split: sum.splits)

lemma XWingDecapsulate_length:
  "fst (XWingDecapsulate C sk ct w) = Ok ss \<Longrightarrow> length ss = XWingSharedSize"
  by (auto simp: XWingDecapsulate_eq Let_def size_simps split: sum.splits if_splits)

lemma XWing_not_Panic [simp]:
  "\<not> is_Panic (fst (XWingDecapsulate C sk ct w))"
  "\<not> is_Panic (fst (XWingEncapsulate C reader pk w))"
  by (auto simp: XWingDecapsulate_eq XWingEncapsulate_def Let_def bindS_def ext_call_def
      split: sum.splits prod.splits outcome.splits option.splits)
    (metis is_Panic_simps(3) lift_ext_not_Panic)

subsection \<open>The KEM interface\<close>

text \<open>
  What the handshake needs of a KEM: for a key pair, decapsulation returns what encapsulation
  produced, whatever state either runs in, and sizes are fixed. \<open>sane\<close> is the assumption on the
  packages underneath.
\<close>

locale kem_scheme =
  fixes sane :: bool
    and key :: "'sk \<Rightarrow> bool"
    and pub :: "'sk \<Rightarrow> 'pk"
    and encap :: "'pk \<Rightarrow> 's \<Rightarrow> (bytes \<times> bytes) result \<times> 's"
    and decap :: "'sk \<Rightarrow> bytes \<Rightarrow> 's \<Rightarrow> bytes result \<times> 's"
    and ctlen sslen :: nat
  assumes correct: "sane \<Longrightarrow> key sk \<Longrightarrow> encap (pub sk) s = (Ok (ct, ss), s') \<Longrightarrow>
      fst (decap sk ct t) = Ok ss"
    and sizes: "sane \<Longrightarrow> encap pk s = (Ok (ct, ss), s') \<Longrightarrow> length ct = ctlen \<and> length ss = sslen"
begin

text \<open>Both sides of a run hold the same secret.\<close>

lemma agree:
  assumes "sane" "key sk" "encap (pub sk) s = (Ok (ct, ss), s')" "decap sk ct t = (x, t')"
  shows "x = Ok ss" "length ct = ctlen" "length ss = sslen"
  using correct [OF assms(1-3), of t] sizes [OF assms(1,3)] assms(4) by simp_all

text \<open>Two encapsulations that send the same ciphertext to the same key share the same secret.\<close>

lemma ct_determines:
  assumes "sane" "key sk" "encap (pub sk) s = (Ok (ct, ss1), s')" "encap (pub sk) t = (Ok (ct, ss2), t')"
  shows "ss1 = ss2"
  using correct [OF assms(1,2,3), of s] correct [OF assms(1,2,4), of s] by simp

end

interpretation xw: kem_scheme "kem_codec_laws C \<and> kem_laws C \<and> x25519_laws C" "xwing_key C"
  "XWing_Public C" "XWingEncapsulate C reader" "XWingDecapsulate C" XWingCiphertextSize XWingSharedSize
  for C :: "('dsk, 'dpk, 'ksk, 'kpk) crypto" and reader
  by unfold_locales (auto intro: XWing_correct dest: XWingEncapsulate_sizes)

subsection \<open>The public-key codec\<close>

lemma xwing_public_Public:
  assumes "kem_codec_laws C" "x25519_laws C" "xwing_key C sk"
  shows "xwing_public C (XWing_Public C sk)"
proof -
  from assms(3) obtain pk where "kem_keypair C pk (MLKEMPriv sk)"
    "x25519 C (X25519Priv sk) (x25519_Basepoint C) = Inr (X25519Pub sk)"
    by (auto simp: xwing_key_def)
  moreover with assms(2) have "length (X25519Pub sk) = 32"
    unfolding x25519_laws_def by (metis size_simps(7))
  ultimately show ?thesis
    using assms(1) unfolding kem_codec_laws_def xwing_public_def XWing_Public_def by auto
qed

lemma ParseXWing_Marshal:
  "xwing_public C pk \<Longrightarrow> ParseXWingPublicKey C (XWing_MarshalBinary C pk) = Ok pk"
  by (simp add: xwing_public_def ParseXWingPublicKey_eq XWing_MarshalBinary_def size_simps)

lemma Marshal_ParseXWing:
  assumes "kem_codec_laws C" "ParseXWingPublicKey C data = Ok pk"
  shows "XWing_MarshalBinary C pk = data \<and> xwing_public C pk"
proof -
  from assms(2) obtain k where len: "length data = XWingPublicKeySize"
    and k: "kem_PublicKeyFromBytes C (take MLKEM768PublicKeySize data) = Inr k"
    and pk: "pk = \<lparr>MLKEM = k, X25519 = copy_array 32 (drop MLKEM768PublicKeySize data)\<rparr>"
    by (auto simp: ParseXWingPublicKey_eq outcome_simps split: if_splits)
  from assms(1) k have b: "kem_Bytes C k = take MLKEM768PublicKeySize data"
    unfolding kem_codec_laws_def by blast
  with len k pk show ?thesis
    by (simp add: XWing_MarshalBinary_def xwing_public_def size_simps)
qed

interpretation xk: codec "kem_codec_laws C" "XWing_MarshalBinary C" "ParseXWingPublicKey C" "xwing_public C"
  for C :: "('dsk, 'dpk, 'ksk, 'kpk) crypto"
  by unfold_locales (auto intro: ParseXWing_Marshal dest: Marshal_ParseXWing)

lemma length_XWing_Marshal [len_simps]:
  "xwing_public C pk \<Longrightarrow> length (XWing_MarshalBinary C pk) = XWingPublicKeySize"
  by (simp add: XWing_MarshalBinary_def xwing_public_def size_simps)

lemma ParseXWing_not_Panic [simp]: "\<not> is_Panic (ParseXWingPublicKey C data)"
  by (cases "kem_PublicKeyFromBytes C (take MLKEM768PublicKeySize data)")
    (simp_all add: ParseXWingPublicKey_eq)

end
