(* ===== verification/Ident.thy ===== *)
theory Ident
  imports Kem Sha2
begin

text \<open>
  Hybrid identities (\<open>identity.go\<close>): Ed25519 and ML-DSA-65 signing keys and an X-Wing static
  key. Generation, signing, verification, the public wire encoding, comparison, and the digest
  that is signed. \<open>ik\<close> is the public-identity codec and \<open>ids\<close> the signature contract the
  handshake uses.
\<close>

record ('dsk, 'ksk) Identity =
  id_EdPub :: bytes
  id_EdPriv :: bytes
  id_DSAPriv :: 'dsk
  id_XWing :: "'ksk XWingPrivateKey"

record ('dpk, 'kpk) IdentityPublic =
  ip_EdPub :: bytes
  ip_DSAPub :: 'dpk
  ip_XWingPub :: "'kpk XWingPublicKey"

definition IdentityPublicSize :: nat where
  "IdentityPublicSize = ed25519_PublicKeySize + MLDSA65PublicKeySize + XWingPublicKeySize"

definition zwingDomain :: bytes where
  "zwingDomain = bytes_of ''lux.zwing.v1''"

text \<open>
  The reader may be nil: \<open>ed25519.GenerateKey\<close> then uses \<open>rand.Reader\<close> (as documented in the
  standard library), \<open>GenerateXWingKey\<close> does the same, and \<open>mldsa.GenerateKey\<close> does what that package
  does.
\<close>

definition mldsa_GenerateKey ::
  "('dsk, 'dpk, 'ksk, 'kpk) crypto \<Rightarrow> rdref option \<Rightarrow> world \<Rightarrow> 'dsk result \<times> world" where
  "mldsa_GenerateKey C r w =
     (case r of None \<Rightarrow> with_reader RandReader (dsa_GenerateKey_nil C) w
              | Some r \<Rightarrow> ext_call r (dsa_GenerateKey C) w)"

definition GenerateIdentityFrom ::
  "('dsk, 'dpk, 'ksk, 'kpk) crypto \<Rightarrow> rdref option \<Rightarrow> world \<Rightarrow> ('dsk, 'ksk) Identity result \<times> world" where
  "GenerateIdentityFrom C r w =
     bindS (ext_call (reader_or_rand r) (ed_GenerateKey C) w) (\<lambda>(edPub, edPriv) w.
     bindS (mldsa_GenerateKey C r w) (\<lambda>dsaPriv w.
     bindS (GenerateXWingKey C r w) (\<lambda>xwing w.
     (Ok \<lparr>id_EdPub = edPub, id_EdPriv = edPriv, id_DSAPriv = dsaPriv, id_XWing = xwing\<rparr>, w))))"

definition GenerateIdentity ::
  "('dsk, 'dpk, 'ksk, 'kpk) crypto \<Rightarrow> world \<Rightarrow> ('dsk, 'ksk) Identity result \<times> world" where
  "GenerateIdentity C w = GenerateIdentityFrom C (Some RandReader) w"

definition Identity_Public ::
  "('dsk, 'dpk, 'ksk, 'kpk) crypto \<Rightarrow> ('dsk, 'ksk) Identity \<Rightarrow> ('dpk, 'kpk) IdentityPublic" where
  "Identity_Public C i =
     \<lparr>ip_EdPub = id_EdPub i, ip_DSAPub = dsa_PublicKey C (id_DSAPriv i),
      ip_XWingPub = XWing_Public C (id_XWing i)\<rparr>"

text \<open>What the four \<open>h.Write\<close> calls of \<open>identityDigest\<close> feed to the hash.\<close>

definition digest_input :: "bytes \<Rightarrow> bytes \<Rightarrow> bytes" where
  "digest_input ctx message = zwingDomain @ [word_of_nat (length ctx)] @ ctx @ message"

definition identityDigest :: "bytes \<Rightarrow> bytes \<Rightarrow> bytes" where
  "identityDigest ctx message = sha256 (digest_input ctx message)"

definition Sign ::
  "('dsk, 'dpk, 'ksk, 'kpk) crypto \<Rightarrow> ('dsk, 'ksk) Identity \<Rightarrow> bytes \<Rightarrow> bytes \<Rightarrow> world \<Rightarrow> bytes \<times> world" where
  "Sign C i ctx message w =
     (let digest = identityDigest ctx message;
          edSig = ed_Sign C (id_EdPriv i) digest in
      case with_reader RandReader (dsa_SignCtx C (id_DSAPriv i) digest zwingDomain) w of
        (x, w) \<Rightarrow> (edSig @ drop_err [] x, w))"

definition Verify ::
  "('dsk, 'dpk, 'ksk, 'kpk) crypto \<Rightarrow> ('dpk, 'kpk) IdentityPublic \<Rightarrow> bytes \<Rightarrow> bytes \<Rightarrow> bytes \<Rightarrow> unit result" where
  "Verify C pub ctx message signature =
     (if length signature \<noteq> ed25519_SignatureSize + MLDSA65SignatureSize then Err ErrSignatureInvalid
      else let digest = identityDigest ctx message in
           bindR (slice 0 (int ed25519_SignatureSize) signature) (\<lambda>edSig.
           bindR (slice_from (int ed25519_SignatureSize) signature) (\<lambda>dsaSig.
           bindR (ed25519_Verify C (ip_EdPub pub) digest edSig) (\<lambda>edOK.
           if \<not> edOK then Err ErrSignatureInvalid
           else if \<not> dsa_VerifySignatureCtx C (ip_DSAPub pub) digest dsaSig zwingDomain
           then Err ErrSignatureInvalid
           else Ok ()))))"

definition Identity_MarshalBinary ::
  "('dsk, 'dpk, 'ksk, 'kpk) crypto \<Rightarrow> ('dpk, 'kpk) IdentityPublic \<Rightarrow> bytes" where
  "Identity_MarshalBinary C pub =
     ip_EdPub pub @ dsa_Bytes C (ip_DSAPub pub) @ XWing_MarshalBinary C (ip_XWingPub pub)"

definition parseTestableDSAPub :: "('dsk, 'dpk, 'ksk, 'kpk) crypto \<Rightarrow> bytes \<Rightarrow> 'dpk ext" where
  "parseTestableDSAPub C b = dsa_PublicKeyFromBytes C b"

definition ParseIdentityPublic ::
  "('dsk, 'dpk, 'ksk, 'kpk) crypto \<Rightarrow> bytes \<Rightarrow> ('dpk, 'kpk) IdentityPublic result" where
  "ParseIdentityPublic C data =
     (if length data \<noteq> IdentityPublicSize then Err (ErrNew ''zwing: invalid public identity size'')
      else let off = 0 in
           bindR (slice (int off) (int (off + ed25519_PublicKeySize)) data) (\<lambda>edPubBytes.
           let edPub = copy_array ed25519_PublicKeySize edPubBytes;
               off = off + ed25519_PublicKeySize in
           bindR (slice (int off) (int (off + MLDSA65PublicKeySize)) data) (\<lambda>dsaPubBytes.
           let off = off + MLDSA65PublicKeySize in
           bindR (lift_ext (parseTestableDSAPub C dsaPubBytes)) (\<lambda>dsaPub.
           bindR (slice (int off) (int (off + XWingPublicKeySize)) data) (\<lambda>xwingBytes.
           bindR (ParseXWingPublicKey C xwingBytes) (\<lambda>xwingPub.
           Ok \<lparr>ip_EdPub = edPub, ip_DSAPub = dsaPub, ip_XWingPub = xwingPub\<rparr>))))))"

text \<open>\<open>pub.Equal(other)\<close>; either pointer may be nil.\<close>

definition Identity_Equal ::
  "('dsk, 'dpk, 'ksk, 'kpk) crypto \<Rightarrow> ('dpk, 'kpk) IdentityPublic option
     \<Rightarrow> ('dpk, 'kpk) IdentityPublic option \<Rightarrow> bool" where
  "Identity_Equal C pub other =
     (case (pub, other) of
        (Some pub, Some other) \<Rightarrow>
          (if ConstantTimeCompare (ip_EdPub pub) (ip_EdPub other) \<noteq> 1 then False
           else if ConstantTimeCompare (dsa_Bytes C (ip_DSAPub pub)) (dsa_Bytes C (ip_DSAPub other)) \<noteq> 1
           then False
           else if ConstantTimeCompare (XWing_MarshalBinary C (ip_XWingPub pub))
                     (XWing_MarshalBinary C (ip_XWingPub other)) \<noteq> 1
           then False
           else True)
      | _ \<Rightarrow> False)"

text \<open>Behind the guard on the size every slice is within bounds.\<close>

lemma ParseIdentityPublic_eq:
  "ParseIdentityPublic C data =
     (if length data \<noteq> IdentityPublicSize then Err (ErrNew ''zwing: invalid public identity size'')
      else bindR (lift_ext (dsa_PublicKeyFromBytes C (take MLDSA65PublicKeySize (drop ed25519_PublicKeySize data))))
             (\<lambda>dsaPub.
           bindR (ParseXWingPublicKey C
               (take XWingPublicKeySize (drop (ed25519_PublicKeySize + MLDSA65PublicKeySize) data))) (\<lambda>xwingPub.
           Ok \<lparr>ip_EdPub = take ed25519_PublicKeySize data, ip_DSAPub = dsaPub, ip_XWingPub = xwingPub\<rparr>)))"
proof (cases "length data = IdentityPublicSize")
  case True
  then have "slice (int 0) (int (0 + ed25519_PublicKeySize)) data = Ok (take ed25519_PublicKeySize data)"
    "slice (int (0 + ed25519_PublicKeySize)) (int (0 + ed25519_PublicKeySize + MLDSA65PublicKeySize)) data =
       Ok (take MLDSA65PublicKeySize (drop ed25519_PublicKeySize data))"
    "slice (int (0 + ed25519_PublicKeySize + MLDSA65PublicKeySize))
       (int (0 + ed25519_PublicKeySize + MLDSA65PublicKeySize + XWingPublicKeySize)) data =
       Ok (take XWingPublicKeySize (drop (ed25519_PublicKeySize + MLDSA65PublicKeySize) data))"
    by (subst slice_nat; simp add: IdentityPublicSize_def)+
  with True show ?thesis
    by (simp add: ParseIdentityPublic_def parseTestableDSAPub_def IdentityPublicSize_def Let_def
        del: of_nat_add of_nat_0)
qed (simp add: ParseIdentityPublic_def)

lemma Verify_eq:
  "Verify C pub ctx m sig =
     (if length sig \<noteq> ed25519_SignatureSize + MLDSA65SignatureSize then Err ErrSignatureInvalid
      else if length (ip_EdPub pub) \<noteq> ed25519_PublicKeySize then Panic ''ed25519: bad public key length''
      else if ed_Verify C (ip_EdPub pub) (identityDigest ctx m) (take ed25519_SignatureSize sig) \<and>
        dsa_VerifySignatureCtx C (ip_DSAPub pub) (identityDigest ctx m) (drop ed25519_SignatureSize sig) zwingDomain
      then Ok () else Err ErrSignatureInvalid)"
  by (simp add: Verify_def Let_def ed25519_Verify_def size_simps)

subsection \<open>Well-formed identities\<close>

definition identity_key :: "('dsk, 'dpk, 'ksk, 'kpk) crypto \<Rightarrow> ('dsk, 'ksk) Identity \<Rightarrow> bool" where
  "identity_key C i \<longleftrightarrow>
     ed_keypair C (id_EdPub i) (id_EdPriv i) \<and> dsa_key C (id_DSAPriv i) \<and> xwing_key C (id_XWing i)"

definition identity_public :: "('dsk, 'dpk, 'ksk, 'kpk) crypto \<Rightarrow> ('dpk, 'kpk) IdentityPublic \<Rightarrow> bool" where
  "identity_public C pub \<longleftrightarrow>
     length (ip_EdPub pub) = ed25519_PublicKeySize \<and>
     length (dsa_Bytes C (ip_DSAPub pub)) = MLDSA65PublicKeySize \<and>
     dsa_PublicKeyFromBytes C (dsa_Bytes C (ip_DSAPub pub)) = Inr (ip_DSAPub pub) \<and>
     xwing_public C (ip_XWingPub pub)"

lemma IdentityPublicSize_eq [size_simps]: "IdentityPublicSize = 3200"
  by (simp add: IdentityPublicSize_def size_simps)

lemma mldsa_GenerateKey_key: "mldsa_GenerateKey C r w = (Ok sk, w') \<Longrightarrow> dsa_key C sk"
  by (auto simp: mldsa_GenerateKey_def dsa_key_def with_reader_def split: option.splits prod.splits dest!: ext_call_Ok)

lemma GenerateIdentityFrom_key:
  assumes "x25519_laws C" "GenerateIdentityFrom C r w = (Ok i, w')"
  shows "identity_key C i"
proof -
  from assms(2) obtain w1 w2 where
    e: "ext_call (reader_or_rand r) (ed_GenerateKey C) w = (Ok (id_EdPub i, id_EdPriv i), w1)"
    and d: "mldsa_GenerateKey C r w1 = (Ok (id_DSAPriv i), w2)"
    and x: "GenerateXWingKey C r w2 = (Ok (id_XWing i), w')"
    by (auto simp: GenerateIdentityFrom_def outcome_simps)
  from ext_call_Ok [OF e] mldsa_GenerateKey_key [OF d] GenerateXWingKey_key [OF assms(1) x] show ?thesis
    by (auto simp: identity_key_def ed_keypair_def)
qed

lemma identity_public_Public:
  assumes "crypto_laws C" "identity_key C i"
  shows "identity_public C (Identity_Public C i)"
proof -
  note laws = crypto_lawsD [OF assms(1)]
  have "length (id_EdPub i) = ed25519_PublicKeySize"
    using laws(1) assms(2) unfolding ed_laws_def identity_key_def by blast
  moreover have "xwing_public C (XWing_Public C (id_XWing i))"
    using xwing_public_Public laws assms(2) unfolding identity_key_def by blast
  ultimately show ?thesis
    using laws(2) assms(2) unfolding dsa_codec_laws_def identity_key_def identity_public_def
    by (simp add: Identity_Public_def)
qed

subsection \<open>The public-identity codec\<close>

lemma Parse_Identity_Marshal:
  assumes "identity_public C pub"
  shows "ParseIdentityPublic C (Identity_MarshalBinary C pub) = Ok pub"
proof -
  have len: "length (XWing_MarshalBinary C (ip_XWingPub pub)) = XWingPublicKeySize"
    using assms length_XWing_Marshal unfolding identity_public_def by blast
  show ?thesis
    using assms len
    by (simp add: identity_public_def ParseIdentityPublic_eq Identity_MarshalBinary_def
        IdentityPublicSize_def ParseXWing_Marshal)
qed

lemma Marshal_Identity_Parse:
  assumes "dsa_codec_laws C" "kem_codec_laws C" "ParseIdentityPublic C data = Ok pub"
  shows "Identity_MarshalBinary C pub = data \<and> identity_public C pub"
proof -
  define ed where "ed = take ed25519_PublicKeySize data"
  define db where "db = take MLDSA65PublicKeySize (drop ed25519_PublicKeySize data)"
  define xb where "xb = drop (ed25519_PublicKeySize + MLDSA65PublicKeySize) data"
  from assms(3) have len: "length data = IdentityPublicSize"
    by (auto simp: ParseIdentityPublic_eq split: if_splits)
  then have lens: "length ed = ed25519_PublicKeySize" "length db = MLDSA65PublicKeySize"
    "length xb = XWingPublicKeySize" and data: "data = ed @ db @ xb"
    by (simp_all add: ed_def db_def xb_def IdentityPublicSize_def append_take_drop_id flip: drop_drop add.commute)
  have "take XWingPublicKeySize xb = xb" using lens(3) by simp
  with assms(3) len lens have d: "dsa_PublicKeyFromBytes C db = Inr (ip_DSAPub pub)"
    and x: "ParseXWingPublicKey C xb = Ok (ip_XWingPub pub)" and e: "ip_EdPub pub = ed"
    by (auto simp: ParseIdentityPublic_eq outcome_simps ed_def db_def xb_def)
  from assms(1) d have "dsa_Bytes C (ip_DSAPub pub) = db" unfolding dsa_codec_laws_def by blast
  with Marshal_ParseXWing [OF assms(2) x] d e lens data show ?thesis
    by (simp add: Identity_MarshalBinary_def identity_public_def)
qed

interpretation ik: codec "dsa_codec_laws C \<and> kem_codec_laws C" "Identity_MarshalBinary C"
  "ParseIdentityPublic C" "identity_public C" for C :: "('dsk, 'dpk, 'ksk, 'kpk) crypto"
  by unfold_locales (auto intro: Parse_Identity_Marshal dest: Marshal_Identity_Parse)

lemma length_Identity_Marshal [len_simps]:
  "identity_public C pub \<Longrightarrow> length (Identity_MarshalBinary C pub) = IdentityPublicSize"
  by (simp add: Identity_MarshalBinary_def identity_public_def IdentityPublicSize_def length_XWing_Marshal)

lemma ParseIdentity_not_Panic [simp]: "\<not> is_Panic (ParseIdentityPublic C data)"
  by (simp add: ParseIdentityPublic_eq bindR_not_Panic)

subsection \<open>Comparison\<close>

lemma Identity_Equal_iff:
  "Identity_Equal C (Some p) (Some q) \<longleftrightarrow>
     ip_EdPub p = ip_EdPub q \<and> dsa_Bytes C (ip_DSAPub p) = dsa_Bytes C (ip_DSAPub q) \<and>
     XWing_MarshalBinary C (ip_XWingPub p) = XWing_MarshalBinary C (ip_XWingPub q)"
  by (simp add: Identity_Equal_def)

lemma Identity_Equal_eq:
  assumes "dsa_codec_laws C" "kem_codec_laws C" "identity_public C p" "identity_public C q"
  shows "Identity_Equal C (Some p) (Some q) \<longleftrightarrow> p = q"
proof
  assume "Identity_Equal C (Some p) (Some q)"
  then have "Identity_MarshalBinary C p = Identity_MarshalBinary C q"
    by (simp add: Identity_Equal_iff Identity_MarshalBinary_def)
  then show "p = q" using ik.enc_inject assms by blast
qed (simp add: Identity_Equal_iff)

subsection \<open>Signatures\<close>

lemma length_zwingDomain [simp]: "length zwingDomain = 12"
  by (simp add: zwingDomain_def)

lemma Sign_Verify:
  assumes "ed_laws C" "dsa_sign_laws C" "identity_key C i" "Sign C i ctx m w = (sig, w')"
  shows "Verify C (Identity_Public C i) ctx m sig = Ok ()"
    "length sig = ed25519_SignatureSize + MLDSA65SignatureSize"
proof -
  let ?d = "identityDigest ctx m"
  from assms(3) have k: "ed_keypair C (id_EdPub i) (id_EdPriv i)" "dsa_key C (id_DSAPriv i)"
    by (simp_all add: identity_key_def)
  from assms(1) k(1) have ed: "length (ed_Sign C (id_EdPriv i) ?d) = ed25519_SignatureSize"
    "ed_Verify C (id_EdPub i) ?d (ed_Sign C (id_EdPriv i) ?d)" "length (id_EdPub i) = ed25519_PublicKeySize"
    unfolding ed_laws_def by blast+
  have dom: "length zwingDomain \<le> 255" by simp
  from assms(2) k(2) dom obtain s r' where
    ds: "dsa_SignCtx C (id_DSAPriv i) ?d zwingDomain (w_rand w) = (Inr s, r')"
    "length s = MLDSA65SignatureSize"
    "dsa_VerifySignatureCtx C (dsa_PublicKey C (id_DSAPriv i)) ?d s zwingDomain"
    unfolding dsa_sign_laws_def by blast
  from assms(4) ds(1) have "sig = ed_Sign C (id_EdPriv i) ?d @ s"
    by (auto simp: Sign_def with_reader_def Let_def)
  with ed ds(2,3) show "Verify C (Identity_Public C i) ctx m sig = Ok ()"
    "length sig = ed25519_SignatureSize + MLDSA65SignatureSize"
    by (simp_all add: Verify_eq Identity_Public_def)
qed

lemma Sign_frame: "Sign C i ctx m w = (sig, w') \<Longrightarrow> w_conn w' = w_conn w \<and> w_mem w' = w_mem w"
  by (auto simp: Sign_def Let_def split: prod.splits dest: with_reader_frame)

lemma Verify_Ok_iff:
  "Verify C pub ctx m sig = Ok () \<longleftrightarrow>
     length sig = ed25519_SignatureSize + MLDSA65SignatureSize \<and>
     length (ip_EdPub pub) = ed25519_PublicKeySize \<and>
     ed_Verify C (ip_EdPub pub) (identityDigest ctx m) (take ed25519_SignatureSize sig) \<and>
     dsa_VerifySignatureCtx C (ip_DSAPub pub) (identityDigest ctx m)
       (drop ed25519_SignatureSize sig) zwingDomain"
  by (auto simp: Verify_eq)

lemma Verify_cases:
  "length (ip_EdPub pub) = ed25519_PublicKeySize \<Longrightarrow>
     Verify C pub ctx m sig = Ok () \<or> Verify C pub ctx m sig = Err ErrSignatureInvalid"
  by (simp add: Verify_eq)

text \<open>The parser returns 32-byte Ed25519 keys, so checking a signature under one does not panic.\<close>

lemma ParseIdentity_EdPub: "ParseIdentityPublic C data = Ok pub \<Longrightarrow> length (ip_EdPub pub) = ed25519_PublicKeySize"
  by (auto simp: ParseIdentityPublic_eq IdentityPublicSize_def outcome_simps split: if_splits)

lemma Verify_not_Panic:
  assumes "ParseIdentityPublic C data = Ok pub"
  shows "\<not> is_Panic (Verify C pub ctx m sig)"
  using ParseIdentity_EdPub [OF assms] by (simp add: Verify_eq)

text \<open>
  What a client of the signatures needs: a signature by the holder of a key verifies under its
  public half, for the same context and message, in whatever state it was made.
\<close>

locale signature_scheme =
  fixes sane :: bool
    and key :: "'sk \<Rightarrow> bool"
    and pub :: "'sk \<Rightarrow> 'pk"
    and sign :: "'sk \<Rightarrow> bytes \<Rightarrow> bytes \<Rightarrow> 's \<Rightarrow> bytes \<times> 's"
    and verify :: "'pk \<Rightarrow> bytes \<Rightarrow> bytes \<Rightarrow> bytes \<Rightarrow> unit result"
    and siglen :: nat
  assumes complete: "sane \<Longrightarrow> key sk \<Longrightarrow> sign sk ctx m s = (sig, s') \<Longrightarrow> verify (pub sk) ctx m sig = Ok ()"
    and siglen: "sane \<Longrightarrow> key sk \<Longrightarrow> sign sk ctx m s = (sig, s') \<Longrightarrow> length sig = siglen"
begin

lemma sign_complete:
  assumes "sane" "key sk"
  shows "verify (pub sk) ctx m (fst (sign sk ctx m s)) = Ok ()"
    "length (fst (sign sk ctx m s)) = siglen"
  using complete [OF assms] siglen [OF assms] by (metis prod.collapse)+

end

interpretation ids: signature_scheme "ed_laws C \<and> dsa_sign_laws C" "identity_key C" "Identity_Public C"
  "Sign C" "Verify C" "ed25519_SignatureSize + MLDSA65SignatureSize"
  for C :: "('dsk, 'dpk, 'ksk, 'kpk) crypto"
  by unfold_locales (auto dest: Sign_Verify)

subsection \<open>What the digest binds\<close>

lemma digest_input_inject:
  assumes "length c1 < 256" "length c2 < 256"
  shows "digest_input c1 m1 = digest_input c2 m2 \<longleftrightarrow> c1 = c2 \<and> m1 = m2"
proof
  assume eq: "digest_input c1 m1 = digest_input c2 m2"
  then have "(word_of_nat (length c1) :: byte) = word_of_nat (length c2)" "c1 @ m1 = c2 @ m2"
    by (simp_all add: digest_input_def)
  moreover with assms have "length c1 = length c2"
    by (simp add: word_of_nat_inj_lt)
  ultimately show "c1 = c2 \<and> m1 = m2" by simp
qed simp

lemma length_identityDigest [simp, len_simps]: "length (identityDigest ctx m) = 32"
  by (simp add: identityDigest_def)

end
