(* ===== verification/HsWire.thy ===== *)
theory HsWire
  imports Kem
begin

text \<open>
  The wire form of the handshake messages (\<open>handshake.go\<close>, lines 41 to 121 and 285 to 354): the
  slice reader, the 16-bit length prefix, the two messages and the encrypted identity payload.
  Each format is interpreted as a \<open>codec\<close>: \<open>hic\<close>, \<open>hrc\<close> and \<open>ridc\<close>.
\<close>

subsection \<open>Slice reader and length prefix\<close>

definition appendU16 :: "bytes \<Rightarrow> int \<Rightarrow> bytes result" where
  "appendU16 b n =
     (if n < 0 \<or> n > 0xFFFF then Panic ''zwing: u16 out of range''
      else Ok (b @ [word_of_int (drop_bit 8 n), word_of_int n]))"

record sliceReader =
  sr_buf :: bytes

definition newSliceReader :: "bytes \<Rightarrow> sliceReader" where
  "newSliceReader b = \<lparr>sr_buf = b\<rparr>"

definition readU16 :: "sliceReader \<Rightarrow> 16 word result \<times> sliceReader" where
  "readU16 r =
     (if length (sr_buf r) < 2 then (Err ErrShortRead, r)
      else bindS (slice 0 2 (sr_buf r), r) (\<lambda>b r.
           let v = Uint16 b in
           bindS (slice_from 2 (sr_buf r), r) (\<lambda>rest r.
           (Ok v, r\<lparr>sr_buf := rest\<rparr>))))"

definition readN :: "int \<Rightarrow> sliceReader \<Rightarrow> bytes result \<times> sliceReader" where
  "readN n r =
     (if n < 0 \<or> int (length (sr_buf r)) < n then (Err ErrShortRead, r)
      else bindS (slice 0 n (sr_buf r), r) (\<lambda>out r.
           bindS (slice_from n (sr_buf r), r) (\<lambda>rest r.
           (Ok out, r\<lparr>sr_buf := rest\<rparr>))))"

definition sliceReader_empty :: "sliceReader \<Rightarrow> bool" where
  "sliceReader_empty r \<longleftrightarrow> length (sr_buf r) = 0"

text \<open>\<open>v, _ := f()\<close> for a function of this package: the zero value on error; a panic goes through.\<close>

definition ignore_err :: "'a \<Rightarrow> 'a result \<times> 's \<Rightarrow> 'a result \<times> 's" where
  "ignore_err z r = (case r of (Err _, s) \<Rightarrow> (Ok z, s) | _ \<Rightarrow> r)"

text \<open>The bytes of an encoder that succeeds.\<close>

definition val_or :: "'a \<Rightarrow> 'a result \<Rightarrow> 'a" where
  "val_or z r = (case r of Ok a \<Rightarrow> a | _ \<Rightarrow> z)"

subsection \<open>Messages\<close>

record HandshakeInit =
  hi_IdentityPub :: bytes
  hi_Signature :: bytes

record HandshakeResponse =
  hr_XWingCiphertext :: bytes
  hr_EncryptedID :: bytes

definition HandshakeInit_MarshalBinary :: "HandshakeInit \<Rightarrow> bytes result" where
  "HandshakeInit_MarshalBinary h =
     bindR (appendU16 [] (int (length (hi_IdentityPub h)))) (\<lambda>out.
     let out = out @ hi_IdentityPub h in
     bindR (appendU16 out (int (length (hi_Signature h)))) (\<lambda>out.
     Ok (out @ hi_Signature h)))"

definition parseHandshakeInit :: "bytes \<Rightarrow> HandshakeInit result" where
  "parseHandshakeInit data = fst (
     bindS (readU16 (newSliceReader data)) (\<lambda>idLen r.
     bindS (readN (uint idLen) r) (\<lambda>id r.
     bindS (readU16 r) (\<lambda>sigLen r.
     bindS (readN (uint sigLen) r) (\<lambda>sig r.
     if \<not> sliceReader_empty r then (Err ErrInvalidWireFormat, r)
     else (Ok \<lparr>hi_IdentityPub = id, hi_Signature = sig\<rparr>, r))))))"

definition HandshakeResponse_MarshalBinary :: "HandshakeResponse \<Rightarrow> bytes result" where
  "HandshakeResponse_MarshalBinary h =
     (let out = hr_XWingCiphertext h in
      bindR (appendU16 out (int (length (hr_EncryptedID h)))) (\<lambda>out.
      Ok (out @ hr_EncryptedID h)))"

definition parseHandshakeResponse :: "bytes \<Rightarrow> HandshakeResponse result" where
  "parseHandshakeResponse data =
     (if length data < XWingCiphertextSize + 2 then Err ErrInvalidWireFormat
      else fst (
           bindS (ignore_err [] (readN (int XWingCiphertextSize) (newSliceReader data))) (\<lambda>ct r.
           bindS (ignore_err 0 (readU16 r)) (\<lambda>encLen r.
           bindS (readN (uint encLen) r) (\<lambda>enc r.
           if \<not> sliceReader_empty r then (Err ErrInvalidWireFormat, r)
           else (Ok \<lparr>hr_XWingCiphertext = ct, hr_EncryptedID = enc\<rparr>, r))))))"

definition buildRespIDPayload :: "bytes \<Rightarrow> bytes \<Rightarrow> bytes result" where
  "buildRespIDPayload ident sig =
     bindR (appendU16 [] (int (length ident))) (\<lambda>out.
     let out = out @ ident in
     bindR (appendU16 out (int (length sig))) (\<lambda>out.
     Ok (out @ sig)))"

definition splitRespIDPayload :: "bytes \<Rightarrow> (bytes \<times> bytes) result" where
  "splitRespIDPayload data = fst (
     bindS (readU16 (newSliceReader data)) (\<lambda>idLen r.
     bindS (readN (uint idLen) r) (\<lambda>id r.
     bindS (readU16 r) (\<lambda>sigLen r.
     bindS (readN (uint sigLen) r) (\<lambda>sig r.
     if \<not> sliceReader_empty r then (Err ErrInvalidWireFormat, r)
     else (Ok (id, sig), r))))))"

subsection \<open>A field with a 16-bit length\<close>

definition u16_field :: "bytes \<Rightarrow> bytes" where
  "u16_field b = PutUint16 (word_of_nat (length b)) @ b"

definition u16_fits :: "bytes \<Rightarrow> bool" where
  "u16_fits b \<longleftrightarrow> length b \<le> 0xFFFF"

lemma length_u16_field [simp, len_simps]: "length (u16_field b) = 2 + length b"
  by (simp add: u16_field_def)

lemma appendU16_Ok:
  assumes "n \<le> 0xFFFF"
  shows "appendU16 b (int n) = Ok (b @ PutUint16 (word_of_nat n))"
proof -
  have "(word_of_int (drop_bit 8 (int n)) :: byte) = ucast (drop_bit 8 (word_of_nat n :: 16 word))"
    "(word_of_int (int n) :: byte) = ucast (word_of_nat n :: 16 word)"
    by (rule bit_word_eqI, simp add: bit_simps)+
  with assms show ?thesis by (simp add: appendU16_def PutUint16_def)
qed

lemma appendU16_Panic_iff: "is_Panic (appendU16 b n) \<longleftrightarrow> n < 0 \<or> 0xFFFF < n"
  by (simp add: appendU16_def)

lemma uint_word_of_nat16 [simp]: "u16_fits b \<Longrightarrow> uint (word_of_nat (length b) :: 16 word) = int (length b)"
  by (simp add: u16_fits_def uint_nat unat_of_nat take_bit_nat_eq_self)

lemma readU16_Ok_iff:
  "readU16 r = (Ok v, r') \<longleftrightarrow> sr_buf r = PutUint16 v @ sr_buf r'"
proof
  assume "readU16 r = (Ok v, r')"
  then have "2 \<le> length (sr_buf r)" "v = Uint16 (take 2 (sr_buf r))" "sr_buf r' = drop 2 (sr_buf r)"
    by (auto simp: readU16_def Let_def split: if_splits)
  then show "sr_buf r = PutUint16 v @ sr_buf r'" by simp
next
  assume "sr_buf r = PutUint16 v @ sr_buf r'"
  then show "readU16 r = (Ok v, r')" by (simp add: readU16_def)
qed

lemma readN_Ok_iff:
  "readN n r = (Ok x, r') \<longleftrightarrow> 0 \<le> n \<and> int (length x) = n \<and> sr_buf r = x @ sr_buf r'"
proof
  assume "readN n r = (Ok x, r')"
  then have "0 \<le> n" "n \<le> int (length (sr_buf r))" "x = take (nat n) (sr_buf r)"
    "sr_buf r' = drop (nat n) (sr_buf r)"
    by (auto simp: readN_def Let_def split: if_splits)
  then show "0 \<le> n \<and> int (length x) = n \<and> sr_buf r = x @ sr_buf r'" by simp
next
  assume "0 \<le> n \<and> int (length x) = n \<and> sr_buf r = x @ sr_buf r'"
  then show "readN n r = (Ok x, r')" by (auto simp: readN_def)
qed

lemma readU16_not_Panic [simp]: "\<not> is_Panic (fst (readU16 r))"
  by (simp add: readU16_def Let_def)

lemma ignore_err_Panic [simp]: "is_Panic (fst (ignore_err z r)) = is_Panic (fst r)"
  by (auto simp: ignore_err_def split: prod.splits outcome.splits)

lemma readN_not_Panic [simp]: "\<not> is_Panic (fst (readN n r))"
  by (simp add: readN_def Let_def)

text \<open>Reading a prefix and that many bytes is reading one field.\<close>

lemma read_field_iff:
  "(\<exists>v r1. readU16 r = (Ok v, r1) \<and> readN (uint v) r1 = (Ok x, r2)) \<longleftrightarrow>
     u16_fits x \<and> sr_buf r = u16_field x @ sr_buf r2"
proof
  assume "\<exists>v r1. readU16 r = (Ok v, r1) \<and> readN (uint v) r1 = (Ok x, r2)"
  then obtain v r1 where "readU16 r = (Ok v, r1)" "readN (uint v) r1 = (Ok x, r2)" by blast
  then have v: "sr_buf r = PutUint16 v @ sr_buf r1" "int (length x) = uint v"
    "sr_buf r1 = x @ sr_buf r2"
    unfolding readU16_Ok_iff readN_Ok_iff by blast+
  have "length x = unat v" using v(2) by (metis nat_int unat_eq_nat_uint)
  moreover have "unat v < 2 ^ 16" using unsigned_less [of v] by simp
  ultimately show "u16_fits x \<and> sr_buf r = u16_field x @ sr_buf r2"
    using v by (simp add: u16_fits_def u16_field_def)
next
  assume a: "u16_fits x \<and> sr_buf r = u16_field x @ sr_buf r2"
  let ?v = "word_of_nat (length x) :: 16 word"
  let ?r1 = "\<lparr>sr_buf = x @ sr_buf r2\<rparr>"
  from a have "readU16 r = (Ok ?v, ?r1)" "readN (uint ?v) ?r1 = (Ok x, r2)"
    by (simp_all add: readU16_Ok_iff readN_Ok_iff u16_field_def)
  then show "\<exists>v r1. readU16 r = (Ok v, r1) \<and> readN (uint v) r1 = (Ok x, r2)" by blast
qed

lemma fst_eq_iff_ex: "fst p = a \<longleftrightarrow> (\<exists>b. p = (a, b))"
  by (cases p) auto

lemma two_fields_iff:
  "(\<exists>r4. bindS (readU16 (newSliceReader data)) (\<lambda>idLen r.
     bindS (readN (uint idLen) r) (\<lambda>id r.
     bindS (readU16 r) (\<lambda>sigLen r.
     bindS (readN (uint sigLen) r) (\<lambda>sig r.
     if \<not> sliceReader_empty r then (Err ErrInvalidWireFormat, r)
     else (Ok (f id sig), r))))) = (Ok y, r4)) \<longleftrightarrow>
   (\<exists>a b. y = f a b \<and> u16_fits a \<and> u16_fits b \<and> data = u16_field a @ u16_field b)"
    (is "?L \<longleftrightarrow> ?R")
proof
  assume ?L
  then obtain v1 r1 a r2 v2 r3 b r4 where s: "readU16 (newSliceReader data) = (Ok v1, r1)"
    "readN (uint v1) r1 = (Ok a, r2)" "readU16 r2 = (Ok v2, r3)" "readN (uint v2) r3 = (Ok b, r4)"
    and e: "sliceReader_empty r4" "y = f a b"
    by (auto simp: outcome_simps split: if_splits)
  have "u16_fits a \<and> sr_buf (newSliceReader data) = u16_field a @ sr_buf r2"
    "u16_fits b \<and> sr_buf r2 = u16_field b @ sr_buf r4"
    using s by (auto simp flip: read_field_iff)
  with e show ?R by (auto simp: newSliceReader_def sliceReader_empty_def)
next
  assume ?R
  then obtain a b where ab: "y = f a b" "u16_fits a" "u16_fits b" "data = u16_field a @ u16_field b"
    by blast
  let ?r2 = "\<lparr>sr_buf = u16_field b\<rparr>"
  let ?r4 = "\<lparr>sr_buf = []\<rparr>"
  from ab obtain v1 r1 where "readU16 (newSliceReader data) = (Ok v1, r1)" "readN (uint v1) r1 = (Ok a, ?r2)"
    using read_field_iff [of "newSliceReader data" a ?r2] by (auto simp: newSliceReader_def)
  moreover from ab obtain v2 r3 where "readU16 ?r2 = (Ok v2, r3)" "readN (uint v2) r3 = (Ok b, ?r4)"
    using read_field_iff [of ?r2 b ?r4] by auto
  ultimately show ?L using ab by (auto simp: sliceReader_empty_def)
qed

subsection \<open>The messages as codecs\<close>

definition init_wf :: "HandshakeInit \<Rightarrow> bool" where
  "init_wf h \<longleftrightarrow> u16_fits (hi_IdentityPub h) \<and> u16_fits (hi_Signature h)"

definition resp_wf :: "HandshakeResponse \<Rightarrow> bool" where
  "resp_wf h \<longleftrightarrow> length (hr_XWingCiphertext h) = XWingCiphertextSize \<and> u16_fits (hr_EncryptedID h)"

lemma HandshakeInit_Marshal:
  "init_wf h \<Longrightarrow>
     HandshakeInit_MarshalBinary h = Ok (u16_field (hi_IdentityPub h) @ u16_field (hi_Signature h))"
  by (simp add: HandshakeInit_MarshalBinary_def init_wf_def u16_fits_def appendU16_Ok u16_field_def)

lemma HandshakeResponse_Marshal:
  "resp_wf h \<Longrightarrow>
     HandshakeResponse_MarshalBinary h = Ok (hr_XWingCiphertext h @ u16_field (hr_EncryptedID h))"
  by (simp add: HandshakeResponse_MarshalBinary_def resp_wf_def u16_fits_def appendU16_Ok u16_field_def)

lemma buildRespIDPayload_Ok:
  "u16_fits ident \<Longrightarrow> u16_fits sig \<Longrightarrow> buildRespIDPayload ident sig = Ok (u16_field ident @ u16_field sig)"
  by (simp add: buildRespIDPayload_def u16_fits_def appendU16_Ok u16_field_def)

lemma parseHandshakeInit_Ok_iff:
  "parseHandshakeInit data = Ok h \<longleftrightarrow>
     init_wf h \<and> data = u16_field (hi_IdentityPub h) @ u16_field (hi_Signature h)"
  unfolding parseHandshakeInit_def fst_eq_iff_ex
    two_fields_iff [where f = "\<lambda>a b. \<lparr>hi_IdentityPub = a, hi_Signature = b\<rparr>"]
  by (auto simp: init_wf_def) (metis HandshakeInit.surjective old.unit.exhaust)

lemma splitRespIDPayload_Ok_iff:
  "splitRespIDPayload data = Ok p \<longleftrightarrow>
     u16_fits (fst p) \<and> u16_fits (snd p) \<and> data = u16_field (fst p) @ u16_field (snd p)"
  unfolding splitRespIDPayload_def fst_eq_iff_ex two_fields_iff [where f = Pair]
  by (cases p) auto

lemma parseHandshakeResponse_Ok_iff:
  "parseHandshakeResponse data = Ok h \<longleftrightarrow>
     resp_wf h \<and> data = hr_XWingCiphertext h @ u16_field (hr_EncryptedID h)"
proof (cases "length data < XWingCiphertextSize + 2")
  case True
  then show ?thesis by (auto simp: parseHandshakeResponse_def resp_wf_def)
next
  case False
  define ct where "ct = take XWingCiphertextSize data"
  define r1 where "r1 = \<lparr>sr_buf = drop XWingCiphertextSize data\<rparr>"
  define v where "v = Uint16 (take 2 (sr_buf r1))"
  define r2 where "r2 = \<lparr>sr_buf = drop 2 (sr_buf r1)\<rparr>"
  have rd: "readN (int XWingCiphertextSize) (newSliceReader data) = (Ok ct, r1)" "readU16 r1 = (Ok v, r2)"
    using False by (simp_all add: readN_def readU16_def newSliceReader_def ct_def r1_def v_def r2_def Let_def)
  have "parseHandshakeResponse data = Ok h \<longleftrightarrow>
      (\<exists>r3. readN (uint v) r2 = (Ok (hr_EncryptedID h), r3) \<and> sr_buf r3 = []) \<and> hr_XWingCiphertext h = ct"
    using False
    by (cases h) (auto simp: parseHandshakeResponse_def rd ignore_err_def fst_eq_iff_ex outcome_simps
        sliceReader_empty_def split: if_splits)
  also have "(\<exists>r3. readN (uint v) r2 = (Ok (hr_EncryptedID h), r3) \<and> sr_buf r3 = []) \<longleftrightarrow>
      u16_fits (hr_EncryptedID h) \<and> sr_buf r1 = u16_field (hr_EncryptedID h)"
    using read_field_iff [of r1 "hr_EncryptedID h" "\<lparr>sr_buf = []\<rparr>"] rd(2)
    by (auto simp: readN_Ok_iff intro!: exI [of _ "\<lparr>sr_buf = []\<rparr>"])
  also have "\<dots> \<and> hr_XWingCiphertext h = ct \<longleftrightarrow>
      resp_wf h \<and> data = hr_XWingCiphertext h @ u16_field (hr_EncryptedID h)"
    using False by (auto simp: resp_wf_def ct_def r1_def) (metis append_take_drop_id)
  finally show ?thesis .
qed

lemma parse_not_Panic [simp]:
  "\<not> is_Panic (parseHandshakeInit data)" "\<not> is_Panic (parseHandshakeResponse data)"
  "\<not> is_Panic (splitRespIDPayload data)"
  by (simp_all add: parseHandshakeInit_def parseHandshakeResponse_def splitRespIDPayload_def Let_def
      bindS_not_Panic split: prod.splits)

interpretation hic: codec True "\<lambda>h. val_or [] (HandshakeInit_MarshalBinary h)" parseHandshakeInit init_wf
  by unfold_locales (auto simp: parseHandshakeInit_Ok_iff HandshakeInit_Marshal val_or_def)

interpretation hrc: codec True "\<lambda>h. val_or [] (HandshakeResponse_MarshalBinary h)" parseHandshakeResponse
  resp_wf
  by unfold_locales (auto simp: parseHandshakeResponse_Ok_iff HandshakeResponse_Marshal val_or_def)

interpretation ridc: codec True "\<lambda>p. val_or [] (buildRespIDPayload (fst p) (snd p))" splitRespIDPayload
  "\<lambda>p. u16_fits (fst p) \<and> u16_fits (snd p)"
  by unfold_locales (auto simp: splitRespIDPayload_Ok_iff buildRespIDPayload_Ok val_or_def)

end
