(* ===== verification/Wire.thy ===== *)
theory Wire
  imports GoIO
begin

text \<open>
  Length-prefixed framing (\<open>wire.go\<close>): \<open>writeFrame\<close> and \<open>readFrame\<close> on a connection.
  \<open>next_frame\<close> is the specification of reading on a flat byte string; \<open>readFrame\<close> refines
  it whatever the segmentation of the stream. The \<open>framing\<close> locale states what a client of
  the framing relies on (the handshake and the channel) and derives that a sequence of messages
  written on one side is read in order on the other.
\<close>

definition MaxFrameSize :: nat where
  "MaxFrameSize = 2 ^ 20"

definition writeFrame :: "bytes \<Rightarrow> net_conn \<Rightarrow> unit result \<times> net_conn" where
  "writeFrame payload w =
     (if length payload > MaxFrameSize then (Err ErrMessageTooLarge, w)
      else bindS (conn_Write (PutUint32 (word_of_nat (length payload))) w) (\<lambda>_ w.
           bindS (conn_Write payload w) (\<lambda>_ w.
             (Ok (), w))))"

definition readFrame :: "net_conn \<Rightarrow> bytes result \<times> net_conn" where
  "readFrame r =
     bindS (conn_ReadFull 4 r) (\<lambda>hdr r.
       let n = Uint32 hdr in
       if unat n > MaxFrameSize then (Err ErrMessageTooLarge, r)
       else if n = 0 then (Err ErrInvalidWireFormat, r)
       else bindS (conn_ReadFull (unat n) r) (\<lambda>buf r. (Ok buf, r)))"

subsection \<open>Specification on flat byte strings\<close>

text \<open>The bytes of one frame, and the messages a frame can carry to a reader.\<close>

definition frame :: "bytes \<Rightarrow> bytes" where
  "frame p = PutUint32 (word_of_nat (length p)) @ p"

definition fits :: "bytes \<Rightarrow> bool" where
  "fits p \<longleftrightarrow> 0 < length p \<and> length p \<le> MaxFrameSize"

definition short_error :: "bytes \<Rightarrow> go_error \<Rightarrow> go_error" where
  "short_error b e = (if b \<noteq> [] \<and> e = EOF then ErrUnexpectedEOF else e)"

text \<open>
  What one read makes of the bytes \<open>b\<close> in flight on a stream that ends with error \<open>e\<close>: the
  outcome and the bytes left.
\<close>

definition next_frame :: "go_error \<Rightarrow> bytes \<Rightarrow> bytes result \<times> bytes" where
  "next_frame e b =
     (if length b < 4 then (Err (short_error b e), [])
      else let n = unat (Uint32 (take 4 b)); rest = drop 4 b in
           if n > MaxFrameSize then (Err ErrMessageTooLarge, rest)
           else if n = 0 then (Err ErrInvalidWireFormat, rest)
           else if length rest < n then (Err (short_error rest e), [])
           else (Ok (take n rest), drop n rest))"

lemma length_frame [simp, len_simps]: "length (frame p) = 4 + length p"
  by (simp add: frame_def)

lemma Uint32_length [simp]:
  "length p \<le> MaxFrameSize \<Longrightarrow> unat (word_of_nat (length p) :: 32 word) = length p"
  by (simp add: MaxFrameSize_def unat_of_nat take_bit_nat_eq_self)

lemma frame_inject: "fits p \<Longrightarrow> fits q \<Longrightarrow> frame p @ xs = frame q @ ys \<longleftrightarrow> p = q \<and> xs = ys"
proof
  assume f: "fits p" "fits q" and eq: "frame p @ xs = frame q @ ys"
  from eq have w: "(word_of_nat (length p) :: 32 word) = word_of_nat (length q)"
    and r: "p @ xs = q @ ys" by (simp_all add: frame_def)
  from f have "length p \<le> MaxFrameSize" "length q \<le> MaxFrameSize" by (simp_all add: fits_def)
  with arg_cong [OF w, of unat] have "length p = length q" by simp
  with r show "p = q \<and> xs = ys" by simp
qed simp

lemma next_frame_frame:
  assumes "fits p"
  shows "next_frame e (frame p @ rest) = (Ok p, rest)"
  using assms by (simp add: next_frame_def frame_def fits_def Let_def)

lemma next_frame_Ok_iff:
  "next_frame e b = (Ok p, rest) \<longleftrightarrow> fits p \<and> b = frame p @ rest"
proof
  assume ok: "next_frame e b = (Ok p, rest)"
  define n where "n = unat (Uint32 (take 4 b))"
  from ok have n: "4 \<le> length b" "n \<le> MaxFrameSize" "n \<noteq> 0" "n \<le> length b - 4"
    "p = take n (drop 4 b)" "rest = drop n (drop 4 b)"
    by (auto simp: next_frame_def Let_def n_def split: if_splits)
  then have "length p = n" by simp
  moreover have "PutUint32 (word_of_nat n) = take 4 b"
    using n(1) by (simp add: n_def)
  ultimately show "fits p \<and> b = frame p @ rest"
    using n by (simp add: fits_def frame_def del: drop_drop)
qed (simp add: next_frame_frame)

subsection \<open>readFrame refines the specification\<close>

lemma readFrame_spec:
  "\<exists>r. readFrame c = (fst (next_frame (r_end (nc_in c)) (avail (nc_in c))), c\<lparr>nc_in := r\<rparr>) \<and>
    avail r = snd (next_frame (r_end (nc_in c)) (avail (nc_in c))) \<and> r_end r = r_end (nc_in c)"
proof (cases "4 \<le> length (avail (nc_in c))")
  case False
  then show ?thesis
    using conn_ReadFull_short [of c 4]
    by (auto simp: readFrame_def next_frame_def short_error_def)
next
  case True
  then obtain r1 where hdr: "conn_ReadFull 4 c = (Ok (take 4 (avail (nc_in c))), c\<lparr>nc_in := r1\<rparr>)"
    and av: "avail r1 = drop 4 (avail (nc_in c))" and en: "r_end r1 = r_end (nc_in c)"
    using conn_ReadFull_Ok by blast
  define n where "n = unat (Uint32 (take 4 (avail (nc_in c))))"
  have z: "Uint32 (take 4 (avail (nc_in c))) = 0 \<longleftrightarrow> n = 0" by (simp add: n_def unat_eq_0)
  show ?thesis
  proof (cases "n > MaxFrameSize \<or> n = 0")
    case bad: True
    then show ?thesis
      using True hdr av en z
      by (auto simp: readFrame_def next_frame_def Let_def n_def [symmetric] intro!: exI [of _ r1])
  next
    case False
    let ?c = "c\<lparr>nc_in := r1\<rparr>"
    show ?thesis
    proof (cases "n \<le> length (avail r1)")
      case fit: True
      with conn_ReadFull_Ok [of n ?c] False True hdr av en z show ?thesis
        by (auto simp: readFrame_def next_frame_def Let_def n_def [symmetric])
    next
      case short: False
      with conn_ReadFull_short [of ?c n] False True hdr av en z show ?thesis
        by (auto simp: readFrame_def next_frame_def Let_def n_def [symmetric] short_error_def)
    qed
  qed
qed

lemma readFrame_Ok:
  assumes "avail (nc_in c) = frame p @ rest" "fits p"
  shows "\<exists>r. readFrame c = (Ok p, c\<lparr>nc_in := r\<rparr>) \<and> avail r = rest \<and> r_end r = r_end (nc_in c)"
  using readFrame_spec [of c] assms by (simp add: next_frame_frame)

lemma readFrame_OkD:
  assumes "readFrame c = (Ok p, c')"
  shows "\<exists>r. c' = c\<lparr>nc_in := r\<rparr> \<and> fits p \<and> avail (nc_in c) = frame p @ avail r \<and>
    r_end r = r_end (nc_in c)"
  using readFrame_spec [of c] assms
  by (metis fst_conv next_frame_Ok_iff prod.collapse snd_conv)

lemma readFrame_frame_cond:
  "\<exists>r. snd (readFrame c) = c\<lparr>nc_in := r\<rparr>"
  using readFrame_spec [of c] by auto

lemma next_frame_not_Panic [simp]: "\<not> is_Panic (fst (next_frame e b))"
  by (simp add: next_frame_def Let_def)

lemma readFrame_not_Panic [simp]: "\<not> is_Panic (fst (readFrame c))"
  using readFrame_spec [of c] by auto

lemma writeFrame_not_Panic [simp]: "\<not> is_Panic (fst (writeFrame p c))"
  by (auto simp: writeFrame_def conn_Write_def split: option.splits)

lemma writeFrame_Ok:
  "accepts c \<Longrightarrow> length p \<le> MaxFrameSize \<Longrightarrow>
     writeFrame p c = (Ok (), c\<lparr>nc_sent := nc_sent c @ frame p\<rparr>)"
  by (simp add: writeFrame_def frame_def)

lemma writeFrame_in [simp]: "nc_in (snd (writeFrame p c)) = nc_in c"
  by (auto simp: writeFrame_def conn_Write_def split: option.splits)

text \<open>On every branch what reaches the network is a prefix of the frame, all of it on success.\<close>

lemma writeFrame_sent:
  assumes "writeFrame p c = (x, c')"
  shows "\<exists>k. nc_sent c' = nc_sent c @ take k (frame p) \<and> (is_Ok x \<longrightarrow> length (frame p) \<le> k)"
proof (cases "length p > MaxFrameSize")
  case True
  with assms show ?thesis by (auto simp: writeFrame_def intro!: exI [of _ 0])
next
  case False
  show ?thesis
  proof (cases "nc_closed c \<or> nc_room c = None")
    case True
    with False assms show ?thesis
      by (auto simp: writeFrame_def conn_Write_def frame_def bindS_if split: if_splits
          intro: exI [of _ 0] exI [of _ "4 + length p"])
  next
    case inner: False
    then obtain k where "nc_room c = Some k" by auto
    with inner False assms show ?thesis
      by (auto simp: writeFrame_def conn_Write_def frame_def split: if_splits intro!: exI [of _ k])
  qed
qed

subsection \<open>The framing interface\<close>

text \<open>Sending a list of messages, and receiving a number of them, stopping at the first error.\<close>

fun seq_send :: "(bytes \<Rightarrow> 'c \<Rightarrow> unit result \<times> 'c) \<Rightarrow> bytes list \<Rightarrow> 'c \<Rightarrow> unit result \<times> 'c" where
  "seq_send send [] c = (Ok (), c)"
| "seq_send send (p # ps) c = bindS (send p c) (\<lambda>_ c. seq_send send ps c)"

fun seq_recv :: "('c \<Rightarrow> bytes result \<times> 'c) \<Rightarrow> nat \<Rightarrow> 'c \<Rightarrow> bytes list result \<times> 'c" where
  "seq_recv recv 0 c = (Ok [], c)"
| "seq_recv recv (Suc n) c =
     bindS (recv c) (\<lambda>p c. bindS (seq_recv recv n c) (\<lambda>ps c. (Ok (p # ps), c)))"

lemma list_all_Cons_iff: "list_all P (x # xs) \<longleftrightarrow> P x \<and> list_all P xs"
  by simp

locale framing =
  fixes send :: "bytes \<Rightarrow> 'c \<Rightarrow> unit result \<times> 'c"
    and recv :: "'c \<Rightarrow> bytes result \<times> 'c"
    and inp :: "'c \<Rightarrow> bytes"
    and out :: "'c \<Rightarrow> bytes"
    and ready :: "'c \<Rightarrow> bool"
    and msg :: "bytes \<Rightarrow> bool"
    and pack :: "bytes \<Rightarrow> bytes"
  assumes send_ok: "ready c \<Longrightarrow> msg p \<Longrightarrow>
      \<exists>c'. send p c = (Ok (), c') \<and> out c' = out c @ pack p \<and> inp c' = inp c \<and> ready c'"
    and recv_ok: "msg p \<Longrightarrow> inp c = pack p @ rest \<Longrightarrow>
      \<exists>c'. recv c = (Ok p, c') \<and> inp c' = rest \<and> out c' = out c \<and> ready c' = ready c"
    and recv_sound: "recv c = (Ok p, c') \<Longrightarrow> msg p \<and> inp c = pack p @ inp c'"
begin

lemma seq_send_ok:
  "ready c \<Longrightarrow> list_all msg ps \<Longrightarrow>
     \<exists>c'. seq_send send ps c = (Ok (), c') \<and> out c' = out c @ concat (map pack ps) \<and>
       inp c' = inp c \<and> ready c'"
proof (induction ps arbitrary: c)
  case Nil
  then show ?case by simp
next
  case (Cons p ps)
  then obtain c1 where "send p c = (Ok (), c1)" "out c1 = out c @ pack p" "inp c1 = inp c" "ready c1"
    using send_ok by (metis list_all_Cons_iff)
  moreover with Cons obtain c2 where "seq_send send ps c1 = (Ok (), c2)"
    "out c2 = out c1 @ concat (map pack ps)" "inp c2 = inp c1" "ready c2"
    by (metis list_all_Cons_iff)
  ultimately show ?case by auto
qed

lemma seq_recv_ok:
  "list_all msg ps \<Longrightarrow> inp c = concat (map pack ps) @ rest \<Longrightarrow>
     \<exists>c'. seq_recv recv (length ps) c = (Ok ps, c') \<and> inp c' = rest \<and> out c' = out c \<and>
       ready c' = ready c"
proof (induction ps arbitrary: c)
  case Nil
  then show ?case by simp
next
  case (Cons p ps)
  then have "msg p" "inp c = pack p @ (concat (map pack ps) @ rest)" by simp_all
  from recv_ok [OF this] obtain c1 where "recv c = (Ok p, c1)"
    "inp c1 = concat (map pack ps) @ rest" "out c1 = out c" "ready c1 = ready c" by blast
  moreover with Cons obtain c2 where "seq_recv recv (length ps) c1 = (Ok ps, c2)"
    "inp c2 = rest" "out c2 = out c1" "ready c2 = ready c1"
    by (metis list_all_Cons_iff)
  ultimately show ?case by auto
qed

lemma seq_recv_sound:
  "seq_recv recv n c = (Ok ps, c') \<Longrightarrow>
     length ps = n \<and> list_all msg ps \<and> inp c = concat (map pack ps) @ inp c'"
proof (induction n arbitrary: c ps c')
  case 0
  then show ?case by simp
next
  case (Suc n)
  then obtain p c1 qs where "recv c = (Ok p, c1)" "seq_recv recv n c1 = (Ok qs, c')" "ps = p # qs"
    by (auto simp: outcome_simps)
  with Suc.IH recv_sound show ?case by fastforce
qed

text \<open>What one side sends is what the other side receives, in order and whole.\<close>

lemma transfer:
  assumes "ready a" "list_all msg ps" "out a = []"
    and "seq_send send ps a = (x, a')" "inp b = out a' @ rest"
  shows "x = Ok () \<and> (\<exists>b'. seq_recv recv (length ps) b = (Ok ps, b') \<and> inp b' = rest)"
  using seq_send_ok [OF assms(1,2)] seq_recv_ok [OF assms(2), of b rest] assms(3-5) by auto

end

interpretation zf: framing writeFrame readFrame "\<lambda>c. avail (nc_in c)" nc_sent accepts fits frame
proof unfold_locales
  show "\<exists>c'. writeFrame p c = (Ok (), c') \<and> nc_sent c' = nc_sent c @ frame p \<and>
      avail (nc_in c') = avail (nc_in c) \<and> accepts c'" if "accepts c" "fits p" for c p
    using that writeFrame_Ok [of c p] by (simp add: fits_def)
  show "\<exists>c'. readFrame c = (Ok p, c') \<and> avail (nc_in c') = rest \<and> nc_sent c' = nc_sent c \<and>
      accepts c' = accepts c" if "fits p" "avail (nc_in c) = frame p @ rest" for c p rest
    using readFrame_Ok [OF that(2,1)] by force
  show "fits p \<and> avail (nc_in c) = frame p @ avail (nc_in c')" if "readFrame c = (Ok p, c')"
    for c p c'
    using readFrame_OkD [OF that] by auto
qed

end
