(* ===== verification/Aead.thy ===== *)
theory Aead
  imports Crypto Kem
begin

text \<open>
  AEAD helpers shared by the handshake and the channel (\<open>channel.go\<close> lines 59 to 74 and 168 to
  205) and the key derivation of \<open>handshake.go\<close>. A \<open>cipher.AEAD\<close> is represented by the key it
  copied.
\<close>

type_synonym aead = bytes

definition mustChaCha20 :: "bytes \<Rightarrow> aead result" where
  "mustChaCha20 key =
     (if length key \<noteq> chacha20poly1305_KeySize
      then Panic ''zwing: chacha20poly1305 key must be 32 bytes''
      else Ok key)"

definition nonceFor :: "64 word \<Rightarrow> bytes" where
  "nonceFor seq = replicate 4 0 @ PutUint64 seq"

definition handshakeNonce :: "bytes \<Rightarrow> bytes" where
  "handshakeNonce label = copy_array 12 label"

definition aeadSeal ::
  "('dsk, 'dpk, 'ksk, 'kpk) crypto \<Rightarrow> bytes \<Rightarrow> bytes \<Rightarrow> bytes \<Rightarrow> bytes \<Rightarrow> bytes result" where
  "aeadSeal C key nonceLabel aad plaintext =
     bindR (mustChaCha20 key) (\<lambda>aead.
     Ok (chacha_Seal C aead (handshakeNonce nonceLabel) plaintext aad))"

definition aeadOpen ::
  "('dsk, 'dpk, 'ksk, 'kpk) crypto \<Rightarrow> bytes \<Rightarrow> bytes \<Rightarrow> bytes \<Rightarrow> bytes \<Rightarrow> bytes result" where
  "aeadOpen C key nonceLabel aad ciphertext =
     bindR (mustChaCha20 key) (\<lambda>aead.
     case chacha_Open C aead (handshakeNonce nonceLabel) ciphertext aad of
       None \<Rightarrow> Err (ErrNew ''zwing: handshake AEAD open failed'')
     | Some pt \<Rightarrow> Ok pt)"

text \<open>\<open>derive\<close>: the buffer keeps its zeros where the HKDF reader delivers nothing.\<close>

definition derive :: "('dsk, 'dpk, 'ksk, 'kpk) crypto \<Rightarrow> bytes \<Rightarrow> bytes \<Rightarrow> nat \<Rightarrow> bytes" where
  "derive C secret label sz = copy_array sz (hkdf_sha256 C secret [] label)"

lemma length_derive [simp, len_simps]: "length (derive C s l n) = n"
  by (simp add: derive_def)

lemma length_nonceFor [simp, len_simps]: "length (nonceFor s) = 12"
  by (simp add: nonceFor_def)

lemma length_handshakeNonce [simp, len_simps]: "length (handshakeNonce l) = 12"
  by (simp add: handshakeNonce_def)

lemma nonceFor_inject [simp]: "nonceFor s = nonceFor t \<longleftrightarrow> s = t"
  by (simp add: nonceFor_def)

lemma mustChaCha20_Ok [simp]: "length k = 32 \<Longrightarrow> mustChaCha20 k = Ok k"
  by (simp add: mustChaCha20_def size_simps)

lemma mustChaCha20_Panic_iff: "is_Panic (mustChaCha20 k) \<longleftrightarrow> length k \<noteq> 32"
  by (simp add: mustChaCha20_def size_simps)

lemma aead_law:
  assumes "aead_laws C" "length k = 32" "length n = 12"
  shows "length (chacha_Seal C k n p a) = length p + 16"
    "chacha_Open C k n (chacha_Seal C k n p a) a = Some p"
  using assms by (auto simp: aead_laws_def size_simps)

lemma aeadSeal_Ok:
  "length k = 32 \<Longrightarrow> aeadSeal C k l a p = Ok (chacha_Seal C k (handshakeNonce l) p a)"
  by (simp add: aeadSeal_def)

lemma aeadOpen_Seal:
  "aead_laws C \<Longrightarrow> length k = 32 \<Longrightarrow>
     aeadOpen C k l a (chacha_Seal C k (handshakeNonce l) p a) = Ok p"
  by (simp add: aeadOpen_def aead_law)

lemma aeadOpen_not_Panic: "length k = 32 \<Longrightarrow> \<not> is_Panic (aeadOpen C k l a c)"
  by (simp add: aeadOpen_def split: option.splits)

end
