(* ===== verification/Handshake.thy ===== *)
theory Handshake
  imports Ident HsWire Wire Aead
begin

text \<open>
  The handshake (\<open>handshake.go\<close>, \<open>config.go\<close>): \<open>runInitiator\<close> and \<open>runResponder\<close>, split into
  the steps the source numbers. Both run on a \<open>world\<close> whose connection delivers arbitrary
  bytes, so the theorems about acceptance and about panics hold against any peer.
\<close>

definition hsLabelInit :: bytes where
  "hsLabelInit = bytes_of ''lux.zwing.v1/handshake-init''"

definition hsLabelResponse :: bytes where
  "hsLabelResponse = bytes_of ''lux.zwing.v1/handshake-response''"

definition channelKeyLabelI2R :: bytes where
  "channelKeyLabelI2R = bytes_of ''lux.zwing.v1/i2r''"

definition channelKeyLabelR2I :: bytes where
  "channelKeyLabelR2I = bytes_of ''lux.zwing.v1/r2i''"

definition respIDLabel :: bytes where
  "respIDLabel = bytes_of ''lux.zwing.v1/resp-id''"

definition respIDNonceLabel :: bytes where
  "respIDNonceLabel = bytes_of ''zwing-resp-id''"

definition chacha20KeySize :: nat where [size_simps]:
  "chacha20KeySize = 32"

record ('dsk, 'dpk, 'ksk, 'kpk) Config =
  cfg_LocalIdentity :: "('dsk, 'ksk) Identity option"
  cfg_ExpectedRemote :: "('dpk, 'kpk) IdentityPublic option"
  cfg_HandshakeTimeout :: int

record ('dpk, 'kpk) handshakeResult =
  hs_shared :: bytes
  hs_remote :: "('dpk, 'kpk) IdentityPublic"
  hs_keyI2R :: bytes
  hs_keyR2I :: bytes

text \<open>What the \<open>h.Write\<close> and \<open>binary.Write\<close> calls of \<open>transcriptHash\<close> feed to the hash.\<close>

definition transcript_input :: "bytes \<Rightarrow> bytes \<Rightarrow> bytes" where
  "transcript_input initPub ct =
     bytes_of ''lux.zwing.v1/transcript'' @ PutUint32 (word_of_nat (length initPub)) @ initPub @
     PutUint32 (word_of_nat (length ct)) @ ct"

definition transcriptHash :: "bytes \<Rightarrow> bytes \<Rightarrow> bytes" where
  "transcriptHash initPub ct = sha256 (transcript_input initPub ct)"

text \<open>\<open>cfg.ExpectedRemote != nil && !remote.Equal(cfg.ExpectedRemote)\<close>\<close>

definition pin_mismatch ::
  "('dsk, 'dpk, 'ksk, 'kpk) crypto \<Rightarrow> ('dsk, 'dpk, 'ksk, 'kpk) Config \<Rightarrow> ('dpk, 'kpk) IdentityPublic \<Rightarrow> bool" where
  "pin_mismatch C cfg remote =
     (case cfg_ExpectedRemote cfg of
        None \<Rightarrow> False
      | Some e \<Rightarrow> \<not> Identity_Equal C (Some remote) (Some e))"

text \<open>The result both sides build from the shared secret.\<close>

definition hs_result ::
  "('dsk, 'dpk, 'ksk, 'kpk) crypto \<Rightarrow> bytes \<Rightarrow> ('dpk, 'kpk) IdentityPublic \<Rightarrow> ('dpk, 'kpk) handshakeResult" where
  "hs_result C shared remote =
     \<lparr>hs_shared = shared, hs_remote = remote,
      hs_keyI2R = derive C shared channelKeyLabelI2R chacha20KeySize,
      hs_keyR2I = derive C shared channelKeyLabelR2I chacha20KeySize\<rparr>"

text \<open>\<open>defer zero(b)\<close>: whatever the outcome of the rest, the buffer is left zeroed.\<close>

definition defer_zero :: "string \<Rightarrow> bytes \<Rightarrow> 'a result \<times> world \<Rightarrow> 'a result \<times> world" where
  "defer_zero name b r = (case r of (x, w) \<Rightarrow> (x, leave [(name, zero b)] w))"

text \<open>\<open>if err != nil { return nil, e }\<close> with a fixed error \<open>e\<close>.\<close>

definition replace_err :: "go_error \<Rightarrow> 'a result \<Rightarrow> 'a result" where
  "replace_err e r = (case r of Err _ \<Rightarrow> Err e | _ \<Rightarrow> r)"

text \<open>
  A local array that is not cleared: whatever the outcome of the rest, it still holds its value
  when the function returns.
\<close>

definition leave_local :: "string \<Rightarrow> bytes \<Rightarrow> 'a result \<times> world \<Rightarrow> 'a result \<times> world" where
  "leave_local name b r = (case r of (x, w) \<Rightarrow> (x, leave [(name, b)] w))"

subsection \<open>Initiator\<close>

definition initiator_hello ::
  "('dsk, 'dpk, 'ksk, 'kpk) crypto \<Rightarrow> ('dsk, 'ksk) Identity \<Rightarrow> world \<Rightarrow> bytes result \<times> world" where
  "initiator_hello C local w =
     (let idPub = Identity_MarshalBinary C (Identity_Public C local);
          (sig, w) = Sign C local hsLabelInit idPub w;
          init = \<lparr>hi_IdentityPub = idPub, hi_Signature = sig\<rparr> in
      bindS (HandshakeInit_MarshalBinary init, w) (\<lambda>payload w.
      bindS (on_conn (writeFrame payload) w) (\<lambda>_ w.
      (Ok idPub, w))))"

definition initiator_finish ::
  "('dsk, 'dpk, 'ksk, 'kpk) crypto \<Rightarrow> ('dsk, 'dpk, 'ksk, 'kpk) Config \<Rightarrow> bytes \<Rightarrow> HandshakeResponse \<Rightarrow> bytes
     \<Rightarrow> world \<Rightarrow> ('dpk, 'kpk) handshakeResult result \<times> world" where
  "initiator_finish C cfg idPub resp shared w =
     (let idKey = derive C shared respIDLabel chacha20KeySize in
      defer_zero ''idKey'' idKey (
      bindS (replace_err ErrCiphertextCorrupted
               (aeadOpen C idKey respIDNonceLabel (hr_XWingCiphertext resp) (hr_EncryptedID resp)), w)
        (\<lambda>plaintext w.
      bindS (splitRespIDPayload plaintext, w) (\<lambda>(remoteID, remoteSig) w.
      bindS (ParseIdentityPublic C remoteID, w) (\<lambda>remote w.
      let transcript = transcriptHash idPub (hr_XWingCiphertext resp) in
      bindS (Verify C remote hsLabelResponse transcript remoteSig, w) (\<lambda>_ w.
      if pin_mismatch C cfg remote then (Err ErrIdentityMismatch, w)
      else (Ok (hs_result C shared remote), w)))))))"

definition runInitiator ::
  "('dsk, 'dpk, 'ksk, 'kpk) crypto \<Rightarrow> ('dsk, 'dpk, 'ksk, 'kpk) Config option \<Rightarrow> world
     \<Rightarrow> ('dpk, 'kpk) handshakeResult result \<times> world" where
  "runInitiator C cfg w =
     (case cfg of
        None \<Rightarrow> (Err ErrConfigMissingID, w)
      | Some cfg \<Rightarrow>
          (case cfg_LocalIdentity cfg of
             None \<Rightarrow> (Err ErrConfigMissingID, w)
           | Some local \<Rightarrow>
               bindS (initiator_hello C local w) (\<lambda>idPub w.
               bindS (on_conn readFrame w) (\<lambda>respFrame w.
               bindS (parseHandshakeResponse respFrame, w) (\<lambda>resp w.
               bindS (XWingDecapsulate C (id_XWing local) (hr_XWingCiphertext resp) w) (\<lambda>shared w.
               leave_local ''shared'' shared (initiator_finish C cfg idPub resp shared w)))))))"

subsection \<open>Responder\<close>

definition responder_hello ::
  "('dsk, 'dpk, 'ksk, 'kpk) crypto \<Rightarrow> ('dsk, 'dpk, 'ksk, 'kpk) Config \<Rightarrow> world
     \<Rightarrow> (HandshakeInit \<times> ('dpk, 'kpk) IdentityPublic) result \<times> world" where
  "responder_hello C cfg w =
     bindS (on_conn readFrame w) (\<lambda>initFrame w.
     bindS (parseHandshakeInit initFrame, w) (\<lambda>init w.
     bindS (ParseIdentityPublic C (hi_IdentityPub init), w) (\<lambda>remote w.
     bindS (Verify C remote hsLabelInit (hi_IdentityPub init) (hi_Signature init), w) (\<lambda>_ w.
     if pin_mismatch C cfg remote then (Err ErrIdentityMismatch, w)
     else (Ok (init, remote), w)))))"

definition responder_reply ::
  "('dsk, 'dpk, 'ksk, 'kpk) crypto \<Rightarrow> ('dsk, 'ksk) Identity \<Rightarrow> HandshakeInit \<Rightarrow> bytes \<Rightarrow> bytes
     \<Rightarrow> world \<Rightarrow> unit result \<times> world" where
  "responder_reply C local init ct shared w =
     (let idPub = Identity_MarshalBinary C (Identity_Public C local);
          transcript = transcriptHash (hi_IdentityPub init) ct;
          (sig, w) = Sign C local hsLabelResponse transcript w in
      bindS (buildRespIDPayload idPub sig, w) (\<lambda>plaintext w.
      let idKey = derive C shared respIDLabel chacha20KeySize in
      defer_zero ''idKey'' idKey (
      bindS (aeadSeal C idKey respIDNonceLabel ct plaintext, w) (\<lambda>ciphertext w.
      let resp = \<lparr>hr_XWingCiphertext = ct, hr_EncryptedID = ciphertext\<rparr> in
      bindS (HandshakeResponse_MarshalBinary resp, w) (\<lambda>payload w.
      on_conn (writeFrame payload) w)))))"

definition runResponder ::
  "('dsk, 'dpk, 'ksk, 'kpk) crypto \<Rightarrow> ('dsk, 'dpk, 'ksk, 'kpk) Config option \<Rightarrow> world
     \<Rightarrow> ('dpk, 'kpk) handshakeResult result \<times> world" where
  "runResponder C cfg w =
     (case cfg of
        None \<Rightarrow> (Err ErrConfigMissingID, w)
      | Some cfg \<Rightarrow>
          (case cfg_LocalIdentity cfg of
             None \<Rightarrow> (Err ErrConfigMissingID, w)
           | Some local \<Rightarrow>
               bindS (responder_hello C cfg w) (\<lambda>(init, remote) w.
               bindS (XWingEncapsulate C None (ip_XWingPub remote) w) (\<lambda>(ct, shared) w.
               leave_local ''shared'' shared (
               bindS (responder_reply C local init ct shared w) (\<lambda>_ w.
               (Ok (hs_result C shared remote), w)))))))"

subsection \<open>Small facts\<close>

lemma defer_zero_simps [simp]:
  "fst (defer_zero n b r) = fst r" "w_conn (snd (defer_zero n b r)) = w_conn (snd r)"
  "w_mem (snd (defer_zero n b r)) = w_mem (snd r) @ [(n, zero b)]"
  by (simp_all add: defer_zero_def split: prod.splits)

lemma defer_zero_Ok_iff [outcome_simps]:
  "defer_zero n b r = (Ok x, w') \<longleftrightarrow> (\<exists>w. r = (Ok x, w) \<and> w' = leave [(n, zero b)] w)"
  by (auto simp: defer_zero_def split: prod.splits)

lemma leave_local_simps [simp]:
  "fst (leave_local n b r) = fst r" "w_conn (snd (leave_local n b r)) = w_conn (snd r)"
  "w_mem (snd (leave_local n b r)) = w_mem (snd r) @ [(n, b)]"
  "leave_local n b (x, w) = (x, leave [(n, b)] w)"
  by (simp_all add: leave_local_def split: prod.splits)

lemma leave_local_iff [outcome_simps]:
  "leave_local n b r = (x, w') \<longleftrightarrow> (\<exists>w. r = (x, w) \<and> w' = leave [(n, b)] w)"
  by (auto simp: leave_local_def split: prod.splits)

lemma replace_err_Ok_iff [outcome_simps]: "replace_err e r = Ok x \<longleftrightarrow> r = Ok x"
  by (cases r) (auto simp: replace_err_def)

lemma replace_err_simps [simp]:
  "replace_err e (Ok x) = Ok x" "replace_err e (Err e') = Err e" "replace_err e (Panic p) = Panic p"
  by (simp_all add: replace_err_def)

lemma replace_err_Panic [simp]: "is_Panic (replace_err e r) = is_Panic r"
  by (cases r) (auto simp: replace_err_def)

lemma hs_result_simps [simp]:
  "hs_shared (hs_result C s r) = s" "hs_remote (hs_result C s r) = r"
  "hs_keyI2R (hs_result C s r) = derive C s channelKeyLabelI2R 32"
  "hs_keyR2I (hs_result C s r) = derive C s channelKeyLabelR2I 32"
  by (simp_all add: hs_result_def size_simps)

lemma transcript_input_inject:
  assumes "length i1 < 2 ^ 32" "length i2 < 2 ^ 32" "length c1 < 2 ^ 32" "length c2 < 2 ^ 32"
  shows "transcript_input i1 c1 = transcript_input i2 c2 \<longleftrightarrow> i1 = i2 \<and> c1 = c2"
proof
  assume "transcript_input i1 c1 = transcript_input i2 c2"
  then have w: "(word_of_nat (length i1) :: 32 word) = word_of_nat (length i2)"
    and r: "i1 @ PutUint32 (word_of_nat (length c1)) @ c1 = i2 @ PutUint32 (word_of_nat (length c2)) @ c2"
    by (simp_all add: transcript_input_def)
  from w assms(1,2) have "length i1 = length i2" by (simp add: word_of_nat_inj_lt)
  with r show "i1 = i2 \<and> c1 = c2" by simp
qed simp

end
