(* ===== verification/Agreement.thy ===== *)
theory Agreement
  imports Handshake
begin

text \<open>
  What a run of the handshake does. For any peer: the shape of what is sent, what an accepted
  message must be, and that no input makes either side panic. For two honest parties: both
  finish with the same secret, the same channel keys and each other's identity.
\<close>

abbreviation idp :: "('dsk, 'dpk, 'ksk, 'kpk) crypto \<Rightarrow> ('dsk, 'ksk) Identity \<Rightarrow> bytes" where
  "idp C i \<equiv> Identity_MarshalBinary C (Identity_Public C i)"

definition two_fields :: "bytes \<Rightarrow> bytes \<Rightarrow> bytes" where
  "two_fields a b = u16_field a @ u16_field b"

lemma length_two_fields [simp, len_simps]: "length (two_fields a b) = 4 + length a + length b"
  by (simp add: two_fields_def)

lemma on_conn_Ok_iff [outcome_simps]:
  "on_conn f w = (x, w') \<longleftrightarrow> (\<exists>c. f (w_conn w) = (x, c) \<and> w' = w\<lparr>w_conn := c\<rparr>)"
  by (auto simp: on_conn_def split: prod.splits)

subsection \<open>Sizes of what honest parties send\<close>

lemma honest_sizes:
  assumes "crypto_laws C" "identity_key C i"
  shows "length (idp C i) = 3200" "u16_fits (idp C i)"
  using length_Identity_Marshal [OF identity_public_Public [OF assms]]
  by (simp_all add: u16_fits_def size_simps)

lemma honest_sign:
  assumes "crypto_laws C" "identity_key C i" "Sign C i ctx m w = (sig, w')"
  shows "Verify C (Identity_Public C i) ctx m sig = Ok ()" "length sig = 3373" "u16_fits sig"
    "w_conn w' = w_conn w" "w_mem w' = w_mem w"
  using Sign_Verify [OF crypto_lawsD(1,3) [OF assms(1)] assms(2,3)] Sign_frame [OF assms(3)]
  by (simp_all add: u16_fits_def size_simps)

lemma initiator_hello_eq:
  assumes "crypto_laws C" "identity_key C i" "Sign C i hsLabelInit (idp C i) w = (sig, w1)"
  shows "initiator_hello C i w =
    bindS (on_conn (writeFrame (two_fields (idp C i) sig)) w1) (\<lambda>_ w. (Ok (idp C i), w))"
  using honest_sizes [OF assms(1,2)] honest_sign [OF assms]
  by (simp add: initiator_hello_def assms(3) HandshakeInit_Marshal init_wf_def two_fields_def Let_def)

lemma initiator_hello_ok:
  assumes "crypto_laws C" "identity_key C i" "accepts (w_conn w)"
    "Sign C i hsLabelInit (idp C i) w = (sig, w1)"
  shows "initiator_hello C i w = (Ok (idp C i),
    w1\<lparr>w_conn := (w_conn w)\<lparr>nc_sent := nc_sent (w_conn w) @ frame (two_fields (idp C i) sig)\<rparr>\<rparr>)"
  using honest_sizes [OF assms(1,2)] honest_sign [OF assms(1,2,4)] assms(3)
  by (simp add: initiator_hello_eq [OF assms(1,2,4)] on_conn_def writeFrame_Ok MaxFrameSize_def)

definition resp_payload ::
  "('dsk, 'dpk, 'ksk, 'kpk) crypto \<Rightarrow> bytes \<Rightarrow> bytes \<Rightarrow> bytes \<Rightarrow> bytes \<Rightarrow> bytes" where
  "resp_payload C ct shared ident sig =
     ct @ u16_field (chacha_Seal C (derive C shared respIDLabel 32) (handshakeNonce respIDNonceLabel)
                       (two_fields ident sig) ct)"

lemma responder_reply_eq:
  assumes "crypto_laws C" "identity_key C i" "length ct = XWingCiphertextSize"
    "Sign C i hsLabelResponse (transcriptHash (hi_IdentityPub init) ct) w = (sig, w1)"
  shows "responder_reply C i init ct shared w =
    defer_zero ''idKey'' (derive C shared respIDLabel 32)
      (on_conn (writeFrame (resp_payload C ct shared (idp C i) sig)) w1)"
    "length (resp_payload C ct shared (idp C i) sig) = 7715"
proof -
  note s = honest_sizes [OF assms(1,2)] honest_sign [OF assms(1,2,4)]
  let ?k = "derive C shared respIDLabel 32"
  let ?enc = "chacha_Seal C ?k (handshakeNonce respIDNonceLabel) (two_fields (idp C i) sig) ct"
  have len: "length ?enc = 6593"
    using aead_law(1) [OF crypto_lawsD(8) [OF assms(1)], of ?k "handshakeNonce respIDNonceLabel"] s
    by simp
  then have wf: "resp_wf \<lparr>hr_XWingCiphertext = ct, hr_EncryptedID = ?enc\<rparr>"
    using assms(3) by (simp add: resp_wf_def u16_fits_def)
  show "responder_reply C i init ct shared w =
    defer_zero ''idKey'' ?k (on_conn (writeFrame (resp_payload C ct shared (idp C i) sig)) w1)"
    using s HandshakeResponse_Marshal [OF wf]
    by (simp add: responder_reply_def assms(4) buildRespIDPayload_Ok aeadSeal_Ok size_simps
        resp_payload_def two_fields_def Let_def)
  show "length (resp_payload C ct shared (idp C i) sig) = 7715"
    using len assms(3) by (simp add: resp_payload_def size_simps)
qed

lemma responder_reply_ok:
  assumes "crypto_laws C" "identity_key C i" "length ct = XWingCiphertextSize" "accepts (w_conn w)"
    "Sign C i hsLabelResponse (transcriptHash (hi_IdentityPub init) ct) w = (sig, w1)"
  shows "\<exists>w'. responder_reply C i init ct shared w = (Ok (), w') \<and>
    w_conn w' = (w_conn w)\<lparr>nc_sent := nc_sent (w_conn w) @ frame (resp_payload C ct shared (idp C i) sig)\<rparr>"
  using responder_reply_eq [OF assms(1-3,5), of shared] honest_sign [OF assms(1,2,5)] assms(4)
  by (simp add: on_conn_def writeFrame_Ok MaxFrameSize_def defer_zero_def)

subsection \<open>What a successful run has checked\<close>

lemma responder_hello_Ok_iff:
  "(\<exists>w'. responder_hello C cfg w = (Ok (init, remote), w')) \<longleftrightarrow>
     (\<exists>rest. avail (nc_in (w_conn w)) =
        frame (two_fields (hi_IdentityPub init) (hi_Signature init)) @ rest) \<and>
     init_wf init \<and> ParseIdentityPublic C (hi_IdentityPub init) = Ok remote \<and>
     Verify C remote hsLabelInit (hi_IdentityPub init) (hi_Signature init) = Ok () \<and>
     \<not> pin_mismatch C cfg remote"
    (is "?L \<longleftrightarrow> ?R")
proof
  assume ?L
  then obtain c f where "readFrame (w_conn w) = (Ok f, c)" "parseHandshakeInit f = Ok init"
    "ParseIdentityPublic C (hi_IdentityPub init) = Ok remote"
    "Verify C remote hsLabelInit (hi_IdentityPub init) (hi_Signature init) = Ok ()"
    "\<not> pin_mismatch C cfg remote"
    by (auto simp: responder_hello_def outcome_simps split: if_splits)
  then show ?R
    using readFrame_OkD by (fastforce simp: parseHandshakeInit_Ok_iff two_fields_def)
next
  assume r: ?R
  define f where "f = two_fields (hi_IdentityPub init) (hi_Signature init)"
  from r have "length f \<le> MaxFrameSize" "0 < length f"
    by (auto simp: init_wf_def u16_fits_def f_def MaxFrameSize_def)
  then have "fits f" by (simp add: fits_def)
  with r obtain r' where "readFrame (w_conn w) = (Ok f, (w_conn w)\<lparr>nc_in := r'\<rparr>)"
    using readFrame_Ok unfolding f_def by blast
  moreover have "parseHandshakeInit f = Ok init"
    using r by (simp add: parseHandshakeInit_Ok_iff f_def two_fields_def)
  ultimately show ?L
    using r by (auto simp: responder_hello_def on_conn_def)
qed

lemma responder_hello_conn:
  "responder_hello C cfg w = (x, w') \<Longrightarrow>
     \<exists>r. w_conn w' = (w_conn w)\<lparr>nc_in := r\<rparr> \<and> w_mem w' = w_mem w \<and> w_rand w' = w_rand w"
  using readFrame_frame_cond [of "w_conn w"]
  by (fastforce simp: responder_hello_def elim!: bindS_cases split: if_splits
      simp: on_conn_Ok_iff)

lemma runResponder_OkD:
  assumes "runResponder C (Some cfg) w = (Ok res, w')"
  obtains local init ct shared w1 w2 w3 where "cfg_LocalIdentity cfg = Some local"
    "responder_hello C cfg w = (Ok (init, hs_remote res), w1)"
    "XWingEncapsulate C None (ip_XWingPub (hs_remote res)) w1 = (Ok (ct, shared), w2)"
    "responder_reply C local init ct shared w2 = (Ok (), w3)" "w' = leave [(''shared'', shared)] w3"
    "res = hs_result C shared (hs_remote res)"
  using assms by (auto simp: runResponder_def outcome_simps split: option.splits)

lemma initiator_finish_Ok_iff:
  "(\<exists>w'. initiator_finish C cfg idPub resp shared w = (Ok res, w')) \<longleftrightarrow>
     (\<exists>plaintext remoteID remoteSig remote.
        aeadOpen C (derive C shared respIDLabel 32) respIDNonceLabel (hr_XWingCiphertext resp)
          (hr_EncryptedID resp) = Ok plaintext \<and>
        splitRespIDPayload plaintext = Ok (remoteID, remoteSig) \<and>
        ParseIdentityPublic C remoteID = Ok remote \<and>
        Verify C remote hsLabelResponse (transcriptHash idPub (hr_XWingCiphertext resp)) remoteSig = Ok () \<and>
        \<not> pin_mismatch C cfg remote \<and> res = hs_result C shared remote)"
    (is "?L \<longleftrightarrow> ?R")
proof
  assume ?L
  then show ?R
    by (auto simp: initiator_finish_def outcome_simps Let_def size_simps split: if_splits)
next
  assume ?R
  then show ?L
    by (auto simp: initiator_finish_def Let_def size_simps defer_zero_def)
qed

lemma runInitiator_OkD:
  assumes "runInitiator C (Some cfg) w = (Ok res, w')"
  obtains local idPub resp shared w1 f c v w2 w3 where "cfg_LocalIdentity cfg = Some local"
    "initiator_hello C local w = (Ok idPub, w1)"
    "readFrame (w_conn w1) = (Ok f, c)" "parseHandshakeResponse f = Ok resp"
    "XWingDecapsulate C (id_XWing local) (hr_XWingCiphertext resp) v = (Ok shared, w2)"
    "initiator_finish C cfg idPub resp shared w2 = (Ok res, w3)" "w' = leave [(''shared'', shared)] w3"
    "v = w1\<lparr>w_conn := c\<rparr>"
  using assms by (auto simp: runInitiator_def outcome_simps split: option.splits)

subsection \<open>The connection after each step\<close>

lemma bindS_pure_conn:
  "(\<And>x. r = Ok x \<Longrightarrow> w_conn (snd (f x w)) = w_conn w) \<Longrightarrow> w_conn (snd (bindS (r, w) f)) = w_conn w"
  by (cases r) auto

lemma initiator_finish_conn [simp]:
  "w_conn (snd (initiator_finish C cfg idPub resp shared w)) = w_conn w"
  by (auto simp: initiator_finish_def Let_def intro!: bindS_pure_conn)

lemma bindS_sent:
  "nc_sent (w_conn (snd r)) = s \<Longrightarrow>
     (\<And>x w. r = (Ok x, w) \<Longrightarrow> nc_sent (w_conn (snd (f x w))) = nc_sent (w_conn w)) \<Longrightarrow>
     nc_sent (w_conn (snd (bindS r f))) = s"
  by (cases r; cases "fst r") auto

text \<open>The initiator writes nothing after its first message.\<close>

lemma runInitiator_sent:
  assumes "cfg_LocalIdentity cfg = Some local"
  shows "nc_sent (w_conn (snd (runInitiator C (Some cfg) w))) =
    nc_sent (w_conn (snd (initiator_hello C local w)))"
proof -
  have rd: "nc_sent (w_conn (snd (on_conn readFrame v))) = nc_sent (w_conn v)" for v
    using readFrame_frame_cond [of "w_conn v"] by auto
  show ?thesis
    by (simp add: runInitiator_def assms) (intro bindS_sent rd refl; simp add: rd)
qed

subsection \<open>Two honest parties\<close>

text \<open>The responder's entropy source serves one encapsulation.\<close>

definition entropy_ready ::
  "('dsk, 'dpk, 'ksk, 'kpk) crypto \<Rightarrow> 'kpk XWingPublicKey \<Rightarrow> reader \<Rightarrow> bool" where
  "entropy_ready C pk r \<longleftrightarrow>
     (\<exists>ct ss r'. kem_Encapsulate C (MLKEM pk) r = (Inr (ct, ss), r') \<and> 32 \<le> length (avail r'))"

lemma XWingEncapsulate_ready:
  assumes "x25519_laws C" "xwing_key C sk" "entropy_ready C (XWing_Public C sk) (w_rand w)"
  shows "\<exists>ct ss w'. XWingEncapsulate C None (XWing_Public C sk) w = (Ok (ct, ss), w')"
proof -
  from assms(3) obtain mct ss r1 where e: "kem_Encapsulate C (MLKEM (XWing_Public C sk)) (w_rand w) = (Inr (mct, ss), r1)"
    and len: "32 \<le> length (avail r1)" by (auto simp: entropy_ready_def)
  obtain r2 where rd: "ReadFull_buf 32 r1 = ((take 32 (avail r1), None), r2)"
    using ReadFull_buf_spec [of 32 r1] len by auto
  let ?eph = "take 32 (avail r1)"
  have "length ?eph = 32" using len by simp
  then obtain E where "x25519 C ?eph (x25519_Basepoint C) = Inr E"
    using assms(1) unfolding x25519_laws_def by blast
  with assms(1,2) \<open>length ?eph = 32\<close> obtain q where "x25519 C ?eph (X25519Pub sk) = Inr q"
    unfolding x25519_laws_def xwing_key_def by blast
  then show ?thesis
    using e rd by (auto simp: XWingEncapsulate_def reader_or_rand_def ext_call_def with_reader_def
        XWing_Public_def Let_def)
qed

lemma responder_run_honest:
  assumes laws: "crypto_laws C" and ids: "identity_key C a" "identity_key C b"
    and cfg: "cfg_LocalIdentity cfg = Some b" "\<not> pin_mismatch C cfg (Identity_Public C a)"
    and acc: "accepts (w_conn w)" and rng: "entropy_ready C (XWing_Public C (id_XWing a)) (w_rand w)"
    and sig: "Verify C (Identity_Public C a) hsLabelInit (idp C a) sig = Ok ()" "u16_fits sig"
    and inbox: "avail (nc_in (w_conn w)) = frame (two_fields (idp C a) sig) @ rest"
  shows "\<exists>ct shared sigB w' v v'. runResponder C (Some cfg) w = (Ok (hs_result C shared (Identity_Public C a)), w') \<and>
    XWingEncapsulate C None (XWing_Public C (id_XWing a)) v = (Ok (ct, shared), v') \<and>
    Verify C (Identity_Public C b) hsLabelResponse (transcriptHash (idp C a) ct) sigB = Ok () \<and>
    u16_fits sigB \<and> length (resp_payload C ct shared (idp C b) sigB) = 7715 \<and>
    nc_sent (w_conn w') = nc_sent (w_conn w) @ frame (resp_payload C ct shared (idp C b) sigB)"
proof -
  let ?init = "\<lparr>hi_IdentityPub = idp C a, hi_Signature = sig\<rparr>"
  let ?pa = "Identity_Public C a"
  note L = crypto_lawsD [OF laws]
  have xw: "xwing_key C (id_XWing a)" "ip_XWingPub ?pa = XWing_Public C (id_XWing a)"
    using ids(1) by (simp_all add: identity_key_def Identity_Public_def)
  have "ParseIdentityPublic C (idp C a) = Ok ?pa"
    by (rule Parse_Identity_Marshal [OF identity_public_Public [OF laws ids(1)]])
  with inbox sig cfg(2) honest_sizes(2) [OF laws ids(1)]
  obtain w1 where hello: "responder_hello C cfg w = (Ok (?init, ?pa), w1)"
    using responder_hello_Ok_iff [of C cfg w ?init ?pa] by (auto simp: init_wf_def)
  from responder_hello_conn [OF hello] obtain r where
    w1: "w_conn w1 = (w_conn w)\<lparr>nc_in := r\<rparr>" "w_rand w1 = w_rand w" by blast
  from XWingEncapsulate_ready [OF L(6) xw(1)] rng w1(2) obtain ct shared w2 where
    enc: "XWingEncapsulate C None (XWing_Public C (id_XWing a)) w1 = (Ok (ct, shared), w2)" by fastforce
  have ct: "length ct = XWingCiphertextSize"
    using XWingEncapsulate_sizes(1) [OF L(5,6) enc] .
  have w2: "w_conn w2 = (w_conn w)\<lparr>nc_in := r\<rparr>" using XWingEncapsulate_Ok [OF enc] w1 by auto
  obtain sigB w3 where sb: "Sign C b hsLabelResponse (transcriptHash (hi_IdentityPub ?init) ct) w2 = (sigB, w3)"
    by (cases "Sign C b hsLabelResponse (transcriptHash (hi_IdentityPub ?init) ct) w2")
  from responder_reply_ok [OF laws ids(2) ct _ sb, of shared] acc w2 obtain w4 where
    rep: "responder_reply C b ?init ct shared w2 = (Ok (), w4)"
    "nc_sent (w_conn w4) = nc_sent (w_conn w) @ frame (resp_payload C ct shared (idp C b) sigB)" by auto
  have "runResponder C (Some cfg) w = (Ok (hs_result C shared ?pa), leave [(''shared'', shared)] w4)"
    by (simp add: runResponder_def cfg hello xw enc rep)
  with enc rep honest_sign [OF laws ids(2) sb] responder_reply_eq(2) [OF laws ids(2) ct sb, of shared]
  show ?thesis by auto
qed

lemma initiator_run_honest:
  assumes laws: "crypto_laws C" and ids: "identity_key C a" "identity_key C b"
    and cfg: "cfg_LocalIdentity cfg = Some a"
    and acc: "accepts (w_conn w)"
    and enc: "XWingEncapsulate C None (XWing_Public C (id_XWing a)) v = (Ok (ct, shared), v')"
    and sig: "Verify C (Identity_Public C b) hsLabelResponse (transcriptHash (idp C a) ct) sigB = Ok ()"
      "u16_fits sigB" "length (resp_payload C ct shared (idp C b) sigB) = 7715"
    and inbox: "avail (nc_in (w_conn w)) = frame (resp_payload C ct shared (idp C b) sigB) @ rest"
  shows "fst (runInitiator C (Some cfg) w) =
    (if pin_mismatch C cfg (Identity_Public C b) then Err ErrIdentityMismatch
     else Ok (hs_result C shared (Identity_Public C b)))"
proof -
  let ?p = "resp_payload C ct shared (idp C b) sigB"
  let ?k = "derive C shared respIDLabel 32"
  let ?enc = "chacha_Seal C ?k (handshakeNonce respIDNonceLabel) (two_fields (idp C b) sigB) ct"
  let ?resp = "\<lparr>hr_XWingCiphertext = ct, hr_EncryptedID = ?enc\<rparr>"
  note L = crypto_lawsD [OF laws]
  obtain sa w1 where sa: "Sign C a hsLabelInit (idp C a) w = (sa, w1)"
    by (cases "Sign C a hsLabelInit (idp C a) w")
  define w2 where "w2 = w1\<lparr>w_conn := (w_conn w)\<lparr>nc_sent := nc_sent (w_conn w) @ frame (two_fields (idp C a) sa)\<rparr>\<rparr>"
  have hello: "initiator_hello C a w = (Ok (idp C a), w2)"
    using initiator_hello_ok [OF laws ids(1) acc sa] by (simp add: w2_def)
  have "fits ?p" using sig(3) by (simp add: fits_def MaxFrameSize_def)
  with inbox obtain w3 where rd: "on_conn readFrame w2 = (Ok ?p, w3)"
    using readFrame_Ok [of "w_conn w2" ?p rest] by (auto simp: w2_def on_conn_def)
  have ct: "length ct = XWingCiphertextSize" using XWingEncapsulate_sizes(1) [OF L(5,6) enc] .
  have "resp_wf ?resp" using ct sig(3) by (simp add: resp_wf_def u16_fits_def resp_payload_def size_simps)
  then have parse: "parseHandshakeResponse ?p = Ok ?resp"
    by (simp add: parseHandshakeResponse_Ok_iff resp_payload_def)
  have xk: "xwing_key C (id_XWing a)" using ids(1) by (simp add: identity_key_def)
  obtain w4 where dec: "XWingDecapsulate C (id_XWing a) ct w3 = (Ok shared, w4)"
    using XWing_correct [OF L(4,5,6) xk enc, of w3] by (cases "XWingDecapsulate C (id_XWing a) ct w3") auto
  have split: "splitRespIDPayload (two_fields (idp C b) sigB) = Ok (idp C b, sigB)"
    using honest_sizes [OF laws ids(2)] sig(2) by (simp add: splitRespIDPayload_Ok_iff two_fields_def)
  have "ParseIdentityPublic C (idp C b) = Ok (Identity_Public C b)"
    by (rule Parse_Identity_Marshal [OF identity_public_Public [OF laws ids(2)]])
  then have "fst (initiator_finish C cfg (idp C a) ?resp shared w4) =
    (if pin_mismatch C cfg (Identity_Public C b) then Err ErrIdentityMismatch
     else Ok (hs_result C shared (Identity_Public C b)))"
    using sig(1) by (simp add: initiator_finish_def Let_def size_simps aeadOpen_Seal [OF L(8)] split)
  then show ?thesis by (simp add: runInitiator_def cfg hello rd parse dec)
qed

end
