(* ===== verification/Samples.thy ===== *)
theory Samples
  imports Handshake
begin

text \<open>
  Concrete identities, configurations and states over \<open>toy_crypto\<close>, at which the theorems with
  hypotheses are instantiated.
\<close>

definition toy_id :: "byte \<Rightarrow> (bytes, bytes) Identity" where
  "toy_id x =
     \<lparr>id_EdPub = replicate 32 x, id_EdPriv = replicate 32 x, id_DSAPriv = replicate 32 x,
      id_XWing = \<lparr>MLKEMPriv = replicate 32 x, X25519Priv = replicate 32 x, X25519Pub = replicate 32 x\<rparr>\<rparr>"

abbreviation toy_pub :: "byte \<Rightarrow> (bytes, bytes) IdentityPublic" where
  "toy_pub x \<equiv> Identity_Public toy_crypto (toy_id x)"

definition toy_cfg ::
  "byte \<Rightarrow> (bytes, bytes) IdentityPublic option \<Rightarrow> (bytes, bytes, bytes, bytes) Config" where
  "toy_cfg x pin = \<lparr>cfg_LocalIdentity = Some (toy_id x), cfg_ExpectedRemote = pin, cfg_HandshakeTimeout = 5\<rparr>"

definition toy_reader :: reader where
  "toy_reader = \<lparr>r_segs = [replicate 200 7], r_end = EOF\<rparr>"

definition toy_world :: "bytes \<Rightarrow> world" where
  "toy_world inbox =
     \<lparr>w_rand = toy_reader, w_custom = toy_reader, w_conn = fresh_conn [inbox] EOF, w_mem = []\<rparr>"

lemma toy_world_simps [simp]:
  "w_conn (toy_world i) = fresh_conn [i] EOF" "w_mem (toy_world i) = []"
  "w_rand (toy_world i) = toy_reader" "nc_sent (fresh_conn s e) = []"
  by (simp_all add: toy_world_def fresh_conn_def)

lemma toy_cfg_simps [simp]:
  "cfg_LocalIdentity (toy_cfg x p) = Some (toy_id x)" "cfg_ExpectedRemote (toy_cfg x p) = p"
  by (simp_all add: toy_cfg_def)

lemma toy_pin_None [simp]: "\<not> pin_mismatch C (toy_cfg x None) r"
  by (simp add: pin_mismatch_def)

lemma toy_pin_Some [simp]: "\<not> pin_mismatch C (toy_cfg x (Some r)) r"
  by (simp add: pin_mismatch_def Identity_Equal_iff)

lemma toy_gen_ex:
  assumes "length b = 32"
  shows "\<exists>r'. toy_gen \<lparr>r_segs = [b], r_end = EOF\<rparr> = (Inr b, r')"
  using ReadFull_Ok [of 32 "\<lparr>r_segs = [b], r_end = EOF\<rparr>"] assms
  by (auto simp: toy_gen_def avail_def)

lemma toy_ed_key:
  assumes "length b = 32"
  shows "ed_keypair toy_crypto b b"
proof -
  obtain r' where "toy_gen \<lparr>r_segs = [b], r_end = EOF\<rparr> = (Inr b, r')"
    using toy_gen_ex [OF assms] by blast
  then have "ed_GenerateKey toy_crypto \<lparr>r_segs = [b], r_end = EOF\<rparr> = (Inr (b, b), r')"
    by (simp add: toy_crypto_def)
  then show ?thesis unfolding ed_keypair_def by blast
qed

lemma toy_dsa_key: "length b = 32 \<Longrightarrow> dsa_key toy_crypto b"
  using toy_gen_ex [of b] by (force simp: dsa_key_def toy_crypto_def)

lemma toy_kem_key:
  assumes "length b = 32"
  shows "kem_keypair toy_crypto (copy_array 1184 b) b"
proof -
  obtain r' where "toy_gen \<lparr>r_segs = [b], r_end = EOF\<rparr> = (Inr b, r')"
    using toy_gen_ex [OF assms] by blast
  then have "kem_GenerateKeyPair toy_crypto \<lparr>r_segs = [b], r_end = EOF\<rparr> = (Inr (copy_array 1184 b, b), r')"
    by (simp add: toy_crypto_def)
  then show ?thesis unfolding kem_keypair_def by blast
qed

lemma toy_xwing [simp]: "xwing_key toy_crypto (id_XWing (toy_id x))"
  using toy_kem_key [of "replicate 32 x"]
  by (auto simp: xwing_key_def toy_id_def) (simp add: toy_crypto_def map2_xor_zeros)

lemma toy_identity [simp]: "identity_key toy_crypto (toy_id x)"
  using toy_xwing [of x] by (simp add: identity_key_def toy_ed_key toy_dsa_key) (simp add: toy_id_def toy_ed_key toy_dsa_key)

lemma toy_Sign:
  "fst (Sign toy_crypto i ctx m v) = fst (Sign toy_crypto i ctx m w)"
  by (simp add: Sign_def with_reader_def toy_crypto_def Let_def)

lemma toy_reader_gen: "\<exists>b r. toy_gen toy_reader = (Inr b, r) \<and> length (avail r) = 168"
  using ReadFull_Ok [of 32 toy_reader] by (auto simp: toy_gen_def toy_reader_def avail_def)

lemma toy_Encapsulate:
  "\<exists>ct ss r. kem_Encapsulate toy_crypto pk toy_reader = (Inr (ct, ss), r) \<and> 32 \<le> length (avail r)"
  using toy_reader_gen by (auto simp: toy_crypto_def)

lemma toy_gen_rest:
  assumes "32 \<le> length (avail r)"
  shows "\<exists>b r'. toy_gen r = (Inr b, r') \<and> length (avail r') = length (avail r) - 32"
  using ReadFull_Ok [OF assms] by (auto simp: toy_gen_def)

lemma sample_identity:
  obtains i w where "GenerateIdentity toy_crypto (toy_world []) = (Ok i, w)" "length (avail (w_rand w)) = 72"
proof -
  have l0: "length (avail toy_reader) = 200" by (simp add: toy_reader_def avail_def)
  obtain b1 r1 where g1: "toy_gen toy_reader = (Inr b1, r1)" "length (avail r1) = 168"
    using toy_gen_rest [of toy_reader] l0 by auto
  obtain b2 r2 where g2: "toy_gen r1 = (Inr b2, r2)" "length (avail r2) = 136"
    using toy_gen_rest [of r1] g1 by auto
  obtain b3 r3 where g3: "toy_gen r2 = (Inr b3, r3)" "length (avail r3) = 104"
    using toy_gen_rest [of r2] g2 by auto
  obtain b4 r4 where g4: "ReadFull 32 r3 = (Ok b4, r4)" "length (avail r4) = 72"
    using ReadFull_Ok [of 32 r3] g3 by auto
  have "\<exists>i. GenerateIdentity toy_crypto (toy_world []) = (Ok i, (toy_world [])\<lparr>w_rand := r4\<rparr>)"
    using g1 g2 g3 g4
    by (simp add: GenerateIdentity_def GenerateIdentityFrom_def mldsa_GenerateKey_def GenerateXWingKey_def ext_call_def with_reader_def
        reader_or_rand_def toy_crypto_def Let_def)
  with g4(2) that show thesis by auto
qed

end
