(* ===== verification/Formats.thy ===== *)
theory Formats
  imports Agreement Samples
begin

text \<open>
  The properties of the wire formats and primitives below the handshake: framing, the X-Wing KEM,
  identities and signatures, handshake messages, and what the two digests bind. They rest on the
  interpretations of \<open>framing\<close>, \<open>kem_scheme\<close>, \<open>signature_scheme\<close> and \<open>codec\<close>.
\<close>

subsection \<open>Framing\<close>

text \<open>C11: \<open>readFrame\<close> implements its specification on flat byte strings. However the network cuts the
  stream into segments, the outcome (a message of 1 to 2^20 bytes, \<open>ErrMessageTooLarge\<close> or
  \<open>ErrInvalidWireFormat\<close> on a bad header, the stream's own error when it ends at a boundary,
  \<open>io.ErrUnexpectedEOF\<close> when it ends inside header or body) and the bytes left are those of
  \<open>next_frame\<close>; nothing else of the connection changes.\<close>

theorem readFrame_refines:
  "\<exists>r. readFrame c = (fst (next_frame (r_end (nc_in c)) (avail (nc_in c))), c\<lparr>nc_in := r\<rparr>) \<and>
    avail r = snd (next_frame (r_end (nc_in c)) (avail (nc_in c))) \<and> r_end r = r_end (nc_in c)"
  by (rule readFrame_spec)

text \<open>C17: a sequence of messages of legal size written with \<open>writeFrame\<close> on one side is read with
  \<open>readFrame\<close> on the other, whole, in order and whatever the segmentation, and the bytes that
  follow stay in the stream.\<close>

theorem frames_transfer:
  assumes "accepts a" "list_all fits ps" "nc_sent a = []"
    and "seq_send writeFrame ps a = (x, a')" "avail (nc_in b) = nc_sent a' @ rest"
  shows "x = Ok () \<and> (\<exists>b'. seq_recv readFrame (length ps) b = (Ok ps, b') \<and> avail (nc_in b') = rest)"
  by (rule zf.transfer [OF assms])

theorem frames_transfer_witness:
  "\<exists>wire. fst (seq_send writeFrame [[1, 2], [3]] (fresh_conn [] EOF)) = Ok () \<and>
    fst (seq_recv readFrame 2 (fresh_conn [wire, [9]] EOF)) = Ok [[1, 2], [3]]"
proof -
  obtain x a' where s: "seq_send writeFrame [[1, 2], [3]] (fresh_conn [] EOF) = (x, a')"
    by (cases "seq_send writeFrame [[1, 2], [3]] (fresh_conn [] EOF)")
  have "list_all fits [[1, 2], [3]]" by (simp add: fits_def MaxFrameSize_def)
  from frames_transfer [OF _ this _ s, of "fresh_conn [nc_sent a', [9]] EOF" "[9]"] s show ?thesis
    by (intro exI [of _ "nc_sent a'"]) (auto simp: numeral_2_eq_2 simp del: seq_send.simps seq_recv.simps)
qed

text \<open>C34: a stream that is cut right after a frame header is reported with the very error of a clean
  end (\<open>io.EOF\<close>): the framing has no end-of-stream marker, so a truncation at that point or at a
  record boundary looks like an orderly close to the reader.\<close>

theorem cut_after_header_is_EOF:
  assumes "avail (nc_in c) = PutUint32 n" "0 < n" "unat n \<le> MaxFrameSize" "r_end (nc_in c) = EOF"
  shows "fst (readFrame c) = Err EOF"
proof -
  have "unat n \<noteq> 0" using assms(2) by (auto simp: unat_eq_0)
  with readFrame_spec [of c] assms show ?thesis by (auto simp: next_frame_def short_error_def Let_def)
qed

theorem cut_after_header_is_EOF_witness:
  "fst (readFrame (fresh_conn [PutUint32 5] EOF)) = Err EOF"
  by (rule cut_after_header_is_EOF [of _ 5]) (simp_all add: MaxFrameSize_def fresh_conn_def avail_def)

subsection \<open>X-Wing\<close>

text \<open>C12: decapsulation with a generated key returns the secret that encapsulation to its public key
  produced, whatever entropy and state either side has; ciphertext and secret have their fixed
  sizes.\<close>

theorem XWing_agreement:
  assumes "crypto_laws C" "xwing_key C sk"
    and "XWingEncapsulate C reader (XWing_Public C sk) w = (Ok (ct, ss), w')" "XWingDecapsulate C sk ct v = (x, v')"
  shows "x = Ok ss \<and> length ct = 1120 \<and> length ss = 32"
proof -
  have "kem_codec_laws C \<and> kem_laws C \<and> x25519_laws C" using crypto_lawsD [OF assms(1)] by simp
  from xw.agree [OF this assms(2-4)] show ?thesis by (simp add: size_simps)
qed

lemma toy_XWing_run:
  obtains ct ss w' where "XWingEncapsulate toy_crypto None (XWing_Public toy_crypto (id_XWing (toy_id 1))) (toy_world []) = (Ok (ct, ss), w')"
proof -
  have "entropy_ready toy_crypto pk toy_reader" for pk using toy_Encapsulate by (simp add: entropy_ready_def)
  with XWingEncapsulate_ready [OF crypto_lawsD(6) [OF toy_crypto_laws] toy_xwing, of 1 "toy_world []"] that
  show thesis by auto
qed

theorem XWing_agreement_witness:
  "\<exists>ct ss. fst (XWingEncapsulate toy_crypto None (XWing_Public toy_crypto (id_XWing (toy_id 1))) (toy_world [])) = Ok (ct, ss) \<and>
    fst (XWingDecapsulate toy_crypto (id_XWing (toy_id 1)) ct (toy_world [])) = Ok ss"
proof -
  obtain ct ss w' where e: "XWingEncapsulate toy_crypto None (XWing_Public toy_crypto (id_XWing (toy_id 1))) (toy_world []) = (Ok (ct, ss), w')"
    by (rule toy_XWing_run)
  obtain x v' where d: "XWingDecapsulate toy_crypto (id_XWing (toy_id 1)) ct (toy_world []) = (x, v')"
    by (cases "XWingDecapsulate toy_crypto (id_XWing (toy_id 1)) ct (toy_world [])")
  from XWing_agreement [OF toy_crypto_laws toy_xwing e d] e d show ?thesis by auto
qed

text \<open>C16: a generated X-Wing key is well formed (its X25519 public half is the base-point multiple of
  its private half) and its public key survives encoding: the parser accepts exactly the 1216-byte
  encodings of well-formed public keys and returns the key encoded.\<close>

theorem XWing_key_roundtrip:
  assumes "crypto_laws C" "GenerateXWingKey C reader w = (Ok sk, w')"
  shows "xwing_key C sk \<and> length (XWing_MarshalBinary C (XWing_Public C sk)) = 1216 \<and>
    (\<forall>data. ParseXWingPublicKey C data = Ok (XWing_Public C sk) \<longleftrightarrow> data = XWing_MarshalBinary C (XWing_Public C sk))"
proof -
  have k: "xwing_key C sk" by (rule GenerateXWingKey_key [OF crypto_lawsD(6) [OF assms(1)] assms(2)])
  have p: "xwing_public C (XWing_Public C sk)"
    by (rule xwing_public_Public [OF crypto_lawsD(4,6) [OF assms(1)] k])
  with k xk.dec_iff [OF crypto_lawsD(4) [OF assms(1)], of _ "XWing_Public C sk"] length_XWing_Marshal [OF p]
  show ?thesis by (auto simp: size_simps)
qed

lemma toy_GenerateXWing: "\<exists>sk w'. GenerateXWingKey toy_crypto None (toy_world []) = (Ok sk, w')"
proof -
  obtain b r where "toy_gen toy_reader = (Inr b, r)" "length (avail r) = 168" using toy_reader_gen by blast
  moreover from this ReadFull_Ok [of 32 r] obtain q r' where "ReadFull 32 r = (Ok q, r')" by auto
  ultimately show ?thesis
    by (simp add: GenerateXWingKey_def ext_call_def with_reader_def reader_or_rand_def toy_crypto_def Let_def)
qed

theorem XWing_key_roundtrip_witness:
  "\<exists>sk w'. GenerateXWingKey toy_crypto None (toy_world []) = (Ok sk, w') \<and>
    ParseXWingPublicKey toy_crypto (XWing_MarshalBinary toy_crypto (XWing_Public toy_crypto sk)) = Ok (XWing_Public toy_crypto sk)"
  using toy_GenerateXWing XWing_key_roundtrip [OF toy_crypto_laws, of None "toy_world []"] by blast

subsection \<open>Identities and signatures\<close>

text \<open>C15: a generated identity has a 3200-byte public encoding which the parser inverts, and the parser
  accepts nothing but encodings: one byte string per identity, one identity per byte string.\<close>

theorem identity_roundtrip:
  assumes "crypto_laws C" "GenerateIdentityFrom C r w = (Ok i, w')"
  shows "length (Identity_MarshalBinary C (Identity_Public C i)) = 3200 \<and>
    ParseIdentityPublic C (Identity_MarshalBinary C (Identity_Public C i)) = Ok (Identity_Public C i) \<and>
    (\<forall>data pub. ParseIdentityPublic C data = Ok pub \<longrightarrow> Identity_MarshalBinary C pub = data)"
proof -
  have k: "identity_key C i" by (rule GenerateIdentityFrom_key [OF crypto_lawsD(6) [OF assms(1)] assms(2)])
  have s: "dsa_codec_laws C \<and> kem_codec_laws C" using crypto_lawsD [OF assms(1)] by simp
  from ik.dec_enc [OF s identity_public_Public [OF assms(1) k]] ik.enc_dec [OF s] honest_sizes(1) [OF assms(1) k]
  show ?thesis by blast
qed

theorem identity_roundtrip_witness:
  "\<exists>i. fst (GenerateIdentityFrom toy_crypto (Some RandReader) (toy_world [])) = Ok i \<and>
    ParseIdentityPublic toy_crypto (Identity_MarshalBinary toy_crypto (Identity_Public toy_crypto i)) = Ok (Identity_Public toy_crypto i)"
proof -
  obtain i w' where g: "GenerateIdentityFrom toy_crypto (Some RandReader) (toy_world []) = (Ok i, w')"
    using sample_identity unfolding GenerateIdentity_def by blast
  from identity_roundtrip [OF toy_crypto_laws g] g show ?thesis by auto
qed

text \<open>C33: \<open>Equal\<close> on two public identities (constant-time comparison of the three encodings) is equality,
  and it is false when either pointer is nil.\<close>

theorem Equal_is_equality:
  assumes "crypto_laws C" "identity_public C p" "identity_public C q"
  shows "(Identity_Equal C (Some p) (Some q) \<longleftrightarrow> p = q) \<and> \<not> Identity_Equal C None (Some q) \<and>
    \<not> Identity_Equal C (Some p) None \<and> \<not> Identity_Equal C None None"
  using Identity_Equal_eq [OF crypto_lawsD(2,4) [OF assms(1)] assms(2,3)] by (simp add: Identity_Equal_def)

theorem Equal_is_equality_witness:
  "Identity_Equal toy_crypto (Some (toy_pub 1)) (Some (toy_pub 1)) \<and>
   \<not> Identity_Equal toy_crypto (Some (toy_pub 1)) (Some (toy_pub 2))"
proof -
  have p: "identity_public toy_crypto (toy_pub x)" for x
    by (rule identity_public_Public [OF toy_crypto_laws toy_identity])
  have "toy_pub 1 \<noteq> toy_pub 2" by (simp add: Identity_Public_def toy_id_def)
  with Equal_is_equality [OF toy_crypto_laws p [of 1] p [of 1]] Equal_is_equality [OF toy_crypto_laws p [of 1] p [of 2]]
  show ?thesis by simp
qed

text \<open>C13: a hybrid signature by a generated identity has 3373 bytes and verifies under its public
  half for the same context and message; and \<open>Verify\<close> accepts exactly when the length is right and
  both the Ed25519 and the ML-DSA part verify, returning \<open>ErrSignatureInvalid\<close> otherwise. It panics
  only on a public identity, which no constructor of the package builds, whose Ed25519 key does
  not have 32 bytes.\<close>

theorem signature_correct:
  assumes "crypto_laws C" "identity_key C i"
  shows "Verify C (Identity_Public C i) ctx m (fst (Sign C i ctx m w)) = Ok () \<and> length (fst (Sign C i ctx m w)) = 3373 \<and>
    Verify C pub ctx m sig = (if length sig = 3373 \<and> length (ip_EdPub pub) \<noteq> 32
     then Panic ''ed25519: bad public key length''
     else if length sig = 3373 \<and>
       ed_Verify C (ip_EdPub pub) (identityDigest ctx m) (take 64 sig) \<and>
       dsa_VerifySignatureCtx C (ip_DSAPub pub) (identityDigest ctx m) (drop 64 sig) zwingDomain
     then Ok () else Err ErrSignatureInvalid)"
proof -
  have "ed_laws C \<and> dsa_sign_laws C" using crypto_lawsD [OF assms(1)] by simp
  from ids.sign_complete [OF this assms(2), of ctx m w] show ?thesis by (simp add: Verify_eq size_simps)
qed

theorem signature_correct_witness:
  "Verify toy_crypto (toy_pub 1) [1] [2] (fst (Sign toy_crypto (toy_id 1) [1] [2] (toy_world []))) = Ok ()"
  using signature_correct [OF toy_crypto_laws toy_identity [of 1], of "[1]" "[2]" "toy_world []"] by blast

text \<open>C19: domain separation of signatures. For contexts shorter than 256 bytes the digest input
  determines context and message; in particular what an initiator signs can never be what a
  responder signs. For a 256-byte context the one-byte length wraps to zero and the separation is
  lost: it collides with an empty context.\<close>

theorem digest_binds_context:
  "(length c1 < 256 \<longrightarrow> length c2 < 256 \<longrightarrow>
      (digest_input c1 m1 = digest_input c2 m2 \<longleftrightarrow> c1 = c2 \<and> m1 = m2)) \<and>
   digest_input hsLabelInit m1 \<noteq> digest_input hsLabelResponse m2 \<and>
   (length c1 = 256 \<longrightarrow> identityDigest c1 m1 = identityDigest [] (c1 @ m1))"
proof (intro conjI impI)
  have l: "length hsLabelInit = 27" "length hsLabelResponse = 31" by (simp_all add: hsLabelInit_def hsLabelResponse_def)
  then have "hsLabelInit \<noteq> hsLabelResponse" by auto
  with l digest_input_inject [of hsLabelInit hsLabelResponse m1 m2]
  show "digest_input hsLabelInit m1 \<noteq> digest_input hsLabelResponse m2" by simp
  show "identityDigest c1 m1 = identityDigest [] (c1 @ m1)" if "length c1 = 256"
  proof -
    have "(word_of_nat 256 :: byte) = word_of_nat 0" by (simp only: word_of_nat_eq_iff) simp
    then show ?thesis using that by (simp add: identityDigest_def digest_input_def del: of_nat_numeral)
  qed
qed (use digest_input_inject in blast)

theorem digest_binds_context_witness:
  "digest_input [1] [2] \<noteq> digest_input [] [1, 2] \<and>
   identityDigest (replicate 256 7) [2] = identityDigest [] (replicate 256 7 @ [2])"
  using digest_binds_context [of "[1]" "[]" "[2]" "[1, 2]"] digest_binds_context [of "replicate 256 7" "[]" "[2]" "[]"]
  by simp

subsection \<open>Handshake messages\<close>

text \<open>C14: both handshake messages and the encrypted identity payload round-trip, and their parsers are
  strict: whatever they accept is byte for byte the encoding of what they return (no trailing
  bytes, no alternative encodings).\<close>

theorem messages_roundtrip:
  "(init_wf h \<longrightarrow> (\<exists>b. HandshakeInit_MarshalBinary h = Ok b \<and> parseHandshakeInit b = Ok h)) \<and>
   (parseHandshakeInit d = Ok h \<longrightarrow> HandshakeInit_MarshalBinary h = Ok d) \<and>
   (resp_wf g \<longrightarrow> (\<exists>b. HandshakeResponse_MarshalBinary g = Ok b \<and> parseHandshakeResponse b = Ok g)) \<and>
   (parseHandshakeResponse d = Ok g \<longrightarrow> HandshakeResponse_MarshalBinary g = Ok d) \<and>
   (u16_fits x \<and> u16_fits y \<longrightarrow> (\<exists>b. buildRespIDPayload x y = Ok b \<and> splitRespIDPayload b = Ok (x, y))) \<and>
   (splitRespIDPayload d = Ok (x, y) \<longrightarrow> buildRespIDPayload x y = Ok d)"
proof (intro conjI impI)
  show "\<exists>b. HandshakeInit_MarshalBinary h = Ok b \<and> parseHandshakeInit b = Ok h" if "init_wf h"
    using hic.dec_enc [OF TrueI that] HandshakeInit_Marshal [OF that] by (auto simp: val_or_def)
  show "HandshakeInit_MarshalBinary h = Ok d" if "parseHandshakeInit d = Ok h"
    using hic.enc_dec [OF TrueI that] HandshakeInit_Marshal [of h] by (auto simp: val_or_def)
  show "\<exists>b. HandshakeResponse_MarshalBinary g = Ok b \<and> parseHandshakeResponse b = Ok g" if "resp_wf g"
    using hrc.dec_enc [OF TrueI that] HandshakeResponse_Marshal [OF that] by (auto simp: val_or_def)
  show "HandshakeResponse_MarshalBinary g = Ok d" if "parseHandshakeResponse d = Ok g"
    using hrc.enc_dec [OF TrueI that] HandshakeResponse_Marshal [of g] by (auto simp: val_or_def)
  show "\<exists>b. buildRespIDPayload x y = Ok b \<and> splitRespIDPayload b = Ok (x, y)" if "u16_fits x \<and> u16_fits y"
    using ridc.dec_enc [OF TrueI, of "(x, y)"] buildRespIDPayload_Ok [of x y] that by (auto simp: val_or_def)
  show "buildRespIDPayload x y = Ok d" if "splitRespIDPayload d = Ok (x, y)"
    using ridc.enc_dec [OF TrueI that] buildRespIDPayload_Ok [of x y] by (auto simp: val_or_def)
qed

theorem messages_roundtrip_witness:
  "\<exists>b. HandshakeInit_MarshalBinary \<lparr>hi_IdentityPub = [1, 2], hi_Signature = [3]\<rparr> = Ok b \<and>
    parseHandshakeInit b = Ok \<lparr>hi_IdentityPub = [1, 2], hi_Signature = [3]\<rparr>"
  using messages_roundtrip [of "\<lparr>hi_IdentityPub = [1, 2], hi_Signature = [3]\<rparr>"] by (simp add: init_wf_def u16_fits_def)

text \<open>C18: the responder's signature binds the session. The transcript input determines both the
  initiator's identity and the X-Wing ciphertext (below 4 GiB each), so a signature made for one
  initiator or one ciphertext is a signature over a different hash input in any other session.\<close>

theorem transcript_binds_session:
  assumes "length i1 < 2 ^ 32" "length i2 < 2 ^ 32" "length c1 < 2 ^ 32" "length c2 < 2 ^ 32"
  shows "transcript_input i1 c1 = transcript_input i2 c2 \<longleftrightarrow> i1 = i2 \<and> c1 = c2"
  by (rule transcript_input_inject [OF assms])

theorem transcript_binds_session_witness:
  "transcript_input [1, 2] [3] \<noteq> transcript_input [1] [2, 3]"
  using transcript_binds_session [of "[1, 2]" "[1]" "[3]" "[2, 3]"] by simp

end
