(* ===== verification/HsProps.thy ===== *)
theory HsProps
  imports Agreement Samples
begin

text \<open>
  The properties of the handshake: agreement of two honest parties, authentication against any
  peer, and pinning.
\<close>

subsection \<open>Lemmas\<close>

text \<open>Everything the initiator ever sends is its first message.\<close>

lemma initiator_sends:
  assumes "crypto_laws C" "identity_key C a" "cfg_LocalIdentity cfg = Some a" "accepts (w_conn w)"
    "nc_sent (w_conn w) = []"
  shows "\<exists>sig. nc_sent (w_conn (snd (runInitiator C (Some cfg) w))) = frame (two_fields (idp C a) sig) \<and>
    Verify C (Identity_Public C a) hsLabelInit (idp C a) sig = Ok () \<and> u16_fits sig \<and>
    sig = fst (Sign C a hsLabelInit (idp C a) w)"
proof -
  obtain sig w1 where s: "Sign C a hsLabelInit (idp C a) w = (sig, w1)"
    by (cases "Sign C a hsLabelInit (idp C a) w")
  from runInitiator_sent [OF assms(3), of C w] initiator_hello_ok [OF assms(1,2,4) s] assms(5)
  show ?thesis using honest_sign [OF assms(1,2) s] s by simp
qed

lemma initiator_hello_mem: "initiator_hello C i w = (x, w') \<Longrightarrow> w_mem w' = w_mem w"
  by (auto simp: initiator_hello_def Let_def on_conn_Ok_iff elim!: bindS_cases split: prod.splits dest!: Sign_frame)

lemma XWingDecapsulate_mem:
  assumes "x25519_laws C" "XWingDecapsulate C sk ct w = (Ok ss, w')"
  shows "\<exists>n. w_mem w' = w_mem w @ [(''ssM'', replicate n 0), (''ssX'', replicate 32 0), (''shared'', ss)]"
proof -
  from assms(2) obtain ssM ssX where "x25519 C (X25519Priv sk) (drop MLKEM768CiphertextSize ct) = Inr ssX"
    "w_mem w' = w_mem w @ [(''ssM'', zero ssM), (''ssX'', zero ssX), (''shared'', ss)]"
    by (auto simp: XWingDecapsulate_eq simp del: zero_eq split: if_splits sum.splits)
  moreover from this assms(1) have "length ssX = 32" unfolding x25519_laws_def by (metis size_simps(7))
  ultimately show ?thesis by auto
qed

lemma XWingEncapsulate_mem:
  assumes "x25519_laws C" "XWingEncapsulate C reader pk w = (Ok (ct, ss), w')"
  shows "\<exists>n. w_mem w' = w_mem w @ [(''ephPriv'', replicate 32 0), (''ssM'', replicate n 0),
    (''ssX'', replicate 32 0), (''shared'', ss)]"
proof -
  from XWingEncapsulate_Ok [OF assms(2)] obtain eph ssM ssX where "length eph = 32"
    "x25519 C eph (X25519 pk) = Inr ssX"
    "w_mem w' = w_mem w @ [(''ephPriv'', zero eph), (''ssM'', zero ssM), (''ssX'', zero ssX), (''shared'', ss)]"
    by blast
  moreover from this assms(1) have "length ssX = 32" unfolding x25519_laws_def by (metis size_simps(7))
  ultimately show ?thesis by auto
qed

lemma initiator_finish_mem:
  "w_mem (snd (initiator_finish C cfg p resp ss w)) =
     w_mem w @ [(''idKey'', replicate 32 0)]"
  by (auto simp: initiator_finish_def Let_def size_simps bindS_def split: outcome.splits prod.splits)

lemma responder_reply_mem:
  assumes "crypto_laws C" "identity_key C i" "length ct = XWingCiphertextSize"
  shows "w_mem (snd (responder_reply C i init ct ss w)) =
    w_mem w @ [(''idKey'', replicate 32 0)]"
proof -
  obtain sig w1 where s: "Sign C i hsLabelResponse (transcriptHash (hi_IdentityPub init) ct) w = (sig, w1)"
    by (cases "Sign C i hsLabelResponse (transcriptHash (hi_IdentityPub init) ct) w")
  from responder_reply_eq(1) [OF assms s, of ss] Sign_frame [OF s] show ?thesis by simp
qed

lemma toy_inbox [simp]: "avail (nc_in (fresh_conn [x] e)) = x"
  by (simp add: fresh_conn_def avail_def)

text \<open>
  A responder that reads an honest first message succeeds, and whatever initiator run with the
  same identity then reads its reply \<open>out\<close> ends with the same secret, or rejects the pinned
  identity.
\<close>

definition reply_of ::
  "('dsk, 'dpk, 'ksk, 'kpk) crypto \<Rightarrow> ('dsk, 'ksk) Identity \<Rightarrow> ('dsk, 'ksk) Identity \<Rightarrow> bytes \<Rightarrow> bytes \<Rightarrow> bool" where
  "reply_of C a b shared out \<longleftrightarrow> (\<forall>cfg wa rest. cfg_LocalIdentity cfg = Some a \<longrightarrow> accepts (w_conn wa) \<longrightarrow>
     avail (nc_in (w_conn wa)) = out @ rest \<longrightarrow>
     fst (runInitiator C (Some cfg) wa) = (if pin_mismatch C cfg (Identity_Public C b)
        then Err ErrIdentityMismatch else Ok (hs_result C shared (Identity_Public C b))))"

lemma reply_ofD:
  assumes "reply_of C a b shared out" "cfg_LocalIdentity cfg = Some a" "accepts (w_conn wa)"
    "avail (nc_in (w_conn wa)) = out @ rest"
  shows "fst (runInitiator C (Some cfg) wa) = (if pin_mismatch C cfg (Identity_Public C b)
        then Err ErrIdentityMismatch else Ok (hs_result C shared (Identity_Public C b)))"
  using assms by (simp add: reply_of_def)

lemma honest_session:
  assumes laws: "crypto_laws C" and ids: "identity_key C a" "identity_key C b"
    and cfg: "cfg_LocalIdentity cfgB = Some b" "\<not> pin_mismatch C cfgB (Identity_Public C a)"
    and wb: "accepts (w_conn wb)" "entropy_ready C (XWing_Public C (id_XWing a)) (w_rand wb)"
    and sig: "Verify C (Identity_Public C a) hsLabelInit (idp C a) sig = Ok ()" "u16_fits sig"
    and inbox: "avail (nc_in (w_conn wb)) = frame (two_fields (idp C a) sig) @ rest"
  obtains shared wb' out where
    "runResponder C (Some cfgB) wb = (Ok (hs_result C shared (Identity_Public C a)), wb')"
    "length shared = XWingSharedSize" "nc_sent (w_conn wb') = nc_sent (w_conn wb) @ out"
    "reply_of C a b shared out"
proof -
  from responder_run_honest [OF laws ids cfg wb sig inbox] obtain ct shared sigB w' v v' where
    rb: "runResponder C (Some cfgB) wb = (Ok (hs_result C shared (Identity_Public C a)), w')"
    and enc: "XWingEncapsulate C None (XWing_Public C (id_XWing a)) v = (Ok (ct, shared), v')"
    and sb: "Verify C (Identity_Public C b) hsLabelResponse (transcriptHash (idp C a) ct) sigB = Ok ()"
      "u16_fits sigB" "length (resp_payload C ct shared (idp C b) sigB) = 7715"
    and out: "nc_sent (w_conn w') = nc_sent (w_conn wb) @ frame (resp_payload C ct shared (idp C b) sigB)"
    by blast
  have "reply_of C a b shared (frame (resp_payload C ct shared (idp C b) sigB))"
    unfolding reply_of_def using initiator_run_honest [OF laws ids _ _ enc sb] by blast
  then show thesis
    by (rule that [OF rb XWingEncapsulate_sizes(2) [OF crypto_lawsD(5,6) [OF laws] enc] out])
qed

subsection \<open>Agreement\<close>

lemma honest_agreement:
  assumes "crypto_laws C" "identity_key C a" "identity_key C b"
    and "cfg_LocalIdentity cfgA = Some a" "\<not> pin_mismatch C cfgA (Identity_Public C b)"
    and "cfg_LocalIdentity cfgB = Some b" "\<not> pin_mismatch C cfgB (Identity_Public C a)"
    and "accepts (w_conn wa)" "nc_sent (w_conn wa) = []" "accepts (w_conn wb)" "nc_sent (w_conn wb) = []"
    and "entropy_ready C (XWing_Public C (id_XWing a)) (w_rand wb)"
    and "runInitiator C (Some cfgA) wa = (ra, wa')" "runResponder C (Some cfgB) wb = (rb, wb')"
    and "avail (nc_in (w_conn wb)) = nc_sent (w_conn wa')" "avail (nc_in (w_conn wa)) = nc_sent (w_conn wb')"
  shows "\<exists>shared. length shared = XWingSharedSize \<and>
    ra = Ok (hs_result C shared (Identity_Public C b)) \<and> rb = Ok (hs_result C shared (Identity_Public C a))"
proof -
  from initiator_sends [OF assms(1,2,4,8,9)] assms(13) obtain sig where
    sent: "nc_sent (w_conn wa') = frame (two_fields (idp C a) sig)"
    and sg: "Verify C (Identity_Public C a) hsLabelInit (idp C a) sig = Ok ()" "u16_fits sig" by auto
  have inb: "avail (nc_in (w_conn wb)) = frame (two_fields (idp C a) sig) @ []"
    using sent assms(15) by simp
  obtain shared w' out where
    "runResponder C (Some cfgB) wb = (Ok (hs_result C shared (Identity_Public C a)), w')"
    "length shared = XWingSharedSize" "nc_sent (w_conn w') = nc_sent (w_conn wb) @ out"
    "reply_of C a b shared out"
    by (rule honest_session [OF assms(1-3,6,7,10,12) sg inb])
  with reply_ofD [OF _ assms(4,8), of C b shared out "[]"] assms(5,11,13,14,16) show ?thesis by auto
qed

text \<open>C2: two honest parties whose byte streams are connected to each other both finish the
  handshake, with the same 32-byte secret (hence the same two channel keys), each holding the
  other's public identity. The hypotheses are the documented behaviour of the cryptographic
  packages, well-formed keys, working connections, an entropy source that serves one
  encapsulation, and pins (if set) that match.\<close>

theorem handshake_agreement:
  assumes "crypto_laws C" "identity_key C a" "identity_key C b"
    and "cfg_LocalIdentity cfgA = Some a" "\<not> pin_mismatch C cfgA (Identity_Public C b)"
    and "cfg_LocalIdentity cfgB = Some b" "\<not> pin_mismatch C cfgB (Identity_Public C a)"
    and "accepts (w_conn wa)" "nc_sent (w_conn wa) = []" "accepts (w_conn wb)" "nc_sent (w_conn wb) = []"
    and "entropy_ready C (XWing_Public C (id_XWing a)) (w_rand wb)"
    and "runInitiator C (Some cfgA) wa = (ra, wa')" "runResponder C (Some cfgB) wb = (rb, wb')"
    and "avail (nc_in (w_conn wb)) = nc_sent (w_conn wa')" "avail (nc_in (w_conn wa)) = nc_sent (w_conn wb')"
  shows "\<exists>shared. length shared = XWingSharedSize \<and>
    ra = Ok (hs_result C shared (Identity_Public C b)) \<and> rb = Ok (hs_result C shared (Identity_Public C a))"
  using honest_agreement [OF assms] .

definition sample_hello :: bytes where
  "sample_hello = nc_sent (w_conn (snd (runInitiator toy_crypto (Some (toy_cfg 1 (Some (toy_pub 2)))) (toy_world []))))"

definition sample_reply :: bytes where
  "sample_reply = nc_sent (w_conn (snd (runResponder toy_crypto (Some (toy_cfg 2 None)) (toy_world sample_hello))))"

lemma sample_initiator_sends:
  "nc_sent (w_conn (snd (runInitiator toy_crypto (Some (toy_cfg 1 (Some (toy_pub 2)))) (toy_world x)))) = sample_hello"
proof -
  have "\<exists>sig. nc_sent (w_conn (snd (runInitiator toy_crypto (Some (toy_cfg 1 (Some (toy_pub 2)))) (toy_world y)))) =
      frame (two_fields (idp toy_crypto (toy_id 1)) sig) \<and>
      sig = fst (Sign toy_crypto (toy_id 1) hsLabelInit (idp toy_crypto (toy_id 1)) (toy_world y))" for y
    using initiator_sends [OF toy_crypto_laws toy_identity, of "toy_cfg 1 (Some (toy_pub 2))" 1 "toy_world y"] by auto
  then show ?thesis unfolding sample_hello_def using toy_Sign by metis
qed

lemma sample_ready: "entropy_ready toy_crypto pk toy_reader"
  using toy_Encapsulate by (simp add: entropy_ready_def)

lemma sample_hello_is:
  obtains sig where "sample_hello = frame (two_fields (idp toy_crypto (toy_id 1)) sig) @ []"
    "Verify toy_crypto (toy_pub 1) hsLabelInit (idp toy_crypto (toy_id 1)) sig = Ok ()" "u16_fits sig"
  using initiator_sends [OF toy_crypto_laws toy_identity, of "toy_cfg 1 (Some (toy_pub 2))" 1 "toy_world []"]
  by (auto simp: sample_hello_def)

text \<open>Both sides of one session on the sample identities.\<close>

lemma sample_session:
  obtains shared wb' where
    "runResponder toy_crypto (Some (toy_cfg 2 None)) (toy_world sample_hello) =
      (Ok (hs_result toy_crypto shared (toy_pub 1)), wb')"
    "\<And>pin. fst (runInitiator toy_crypto (Some (toy_cfg 1 pin)) (toy_world sample_reply)) =
      (if pin_mismatch toy_crypto (toy_cfg 1 pin) (toy_pub 2) then Err ErrIdentityMismatch
       else Ok (hs_result toy_crypto shared (toy_pub 2)))"
proof -
  let ?C = toy_crypto and ?w = "toy_world sample_hello"
  obtain sig where s: "sample_hello = frame (two_fields (idp ?C (toy_id 1)) sig) @ []"
    "Verify ?C (toy_pub 1) hsLabelInit (idp ?C (toy_id 1)) sig = Ok ()" "u16_fits sig"
    by (rule sample_hello_is)
  have w: "accepts (w_conn ?w)" "entropy_ready ?C (XWing_Public ?C (id_XWing (toy_id 1))) (w_rand ?w)"
    "avail (nc_in (w_conn ?w)) = frame (two_fields (idp ?C (toy_id 1)) sig) @ []"
    using s(1) by (simp_all add: sample_ready)
  obtain shared wb' out where
    r: "runResponder ?C (Some (toy_cfg 2 None)) ?w = (Ok (hs_result ?C shared (toy_pub 1)), wb')"
    "length shared = XWingSharedSize" "nc_sent (w_conn wb') = nc_sent (w_conn ?w) @ out"
    "reply_of ?C (toy_id 1) (toy_id 2) shared out"
    by (rule honest_session [OF toy_crypto_laws toy_identity toy_identity toy_cfg_simps(1) toy_pin_None w(1,2) s(2,3) w(3)])
  have "out = sample_reply" using r by (simp add: sample_reply_def)
  then show thesis
    using that [OF r(1)] reply_ofD [OF r(4), of "toy_cfg 1 pin" "toy_world sample_reply" "[]" for pin] by simp
qed

theorem handshake_agreement_witness:
  "\<exists>shared wa' wb'. length shared = XWingSharedSize \<and>
    runInitiator toy_crypto (Some (toy_cfg 1 (Some (toy_pub 2)))) (toy_world sample_reply) =
      (Ok (hs_result toy_crypto shared (toy_pub 2)), wa') \<and>
    runResponder toy_crypto (Some (toy_cfg 2 None)) (toy_world sample_hello) =
      (Ok (hs_result toy_crypto shared (toy_pub 1)), wb')"
proof -
  obtain ra wa' where a: "runInitiator toy_crypto (Some (toy_cfg 1 (Some (toy_pub 2)))) (toy_world sample_reply) = (ra, wa')"
    by (cases "runInitiator toy_crypto (Some (toy_cfg 1 (Some (toy_pub 2)))) (toy_world sample_reply)")
  obtain rb wb' where b: "runResponder toy_crypto (Some (toy_cfg 2 None)) (toy_world sample_hello) = (rb, wb')"
    by (cases "runResponder toy_crypto (Some (toy_cfg 2 None)) (toy_world sample_hello)")
  have "nc_sent (w_conn wa') = sample_hello" using sample_initiator_sends [of sample_reply] a by simp
  moreover have "nc_sent (w_conn wb') = sample_reply" using b by (simp add: sample_reply_def)
  ultimately show ?thesis
    using sample_ready handshake_agreement [OF toy_crypto_laws toy_identity [of 1] toy_identity [of 2] _ _ _ _ _ _ _ _ _ a b] a b
    by auto
qed

subsection \<open>Authentication against any peer\<close>

lemma initiator_hello_Ok:
  "initiator_hello C i w = (Ok p, w') \<Longrightarrow> p = idp C i \<and> nc_in (w_conn w') = nc_in (w_conn w)"
proof -
  assume a: "initiator_hello C i w = (Ok p, w')"
  then obtain sig w1 q c where s: "Sign C i hsLabelInit (idp C i) w = (sig, w1)"
    and wr: "writeFrame q (w_conn w1) = (Ok (), c)" and w': "w' = w1\<lparr>w_conn := c\<rparr>" "p = idp C i"
    by (auto simp: initiator_hello_def Let_def outcome_simps split: prod.splits)
  from wr have "nc_in c = nc_in (w_conn w1)" using writeFrame_in [of q "w_conn w1"] by simp
  with w' Sign_frame [OF s] show ?thesis by simp
qed

lemma initiator_read:
  assumes "runInitiator C (Some cfg) w = (Ok res, w')" "cfg_LocalIdentity cfg = Some local"
  shows "\<exists>ct enc remoteID sig rest. avail (nc_in (w_conn w)) = frame (ct @ u16_field enc) @ rest \<and>
    length ct = XWingCiphertextSize \<and>
    fst (XWingDecapsulate C (id_XWing local) ct w) = Ok (hs_shared res) \<and>
    aeadOpen C (derive C (hs_shared res) respIDLabel 32) respIDNonceLabel ct enc = Ok (two_fields remoteID sig) \<and>
    ParseIdentityPublic C remoteID = Ok (hs_remote res) \<and>
    Verify C (hs_remote res) hsLabelResponse (transcriptHash (idp C local) ct) sig = Ok () \<and>
    \<not> pin_mismatch C cfg (hs_remote res) \<and> res = hs_result C (hs_shared res) (hs_remote res)"
proof -
  from runInitiator_OkD [OF assms(1)] assms(2) obtain p resp shared w1 f c v w2 where
    h: "initiator_hello C local w = (Ok p, w1)" and rd: "readFrame (w_conn w1) = (Ok f, c)"
    and ps: "parseHandshakeResponse f = Ok resp"
    and dc: "XWingDecapsulate C (id_XWing local) (hr_XWingCiphertext resp) v = (Ok shared, w2)"
    and "\<exists>w3. initiator_finish C cfg p resp shared w2 = (Ok res, w3)"
    by (metis option.inject)
  then obtain pt rid rsig remote where
    op: "aeadOpen C (derive C shared respIDLabel 32) respIDNonceLabel (hr_XWingCiphertext resp) (hr_EncryptedID resp) = Ok pt"
    and sp: "splitRespIDPayload pt = Ok (rid, rsig)" and pa: "ParseIdentityPublic C rid = Ok remote"
    and vf: "Verify C remote hsLabelResponse (transcriptHash p (hr_XWingCiphertext resp)) rsig = Ok ()"
    and pin: "\<not> pin_mismatch C cfg remote" and res: "res = hs_result C shared remote"
    unfolding initiator_finish_Ok_iff by blast
  from readFrame_OkD [OF rd] initiator_hello_Ok [OF h] obtain r where
    av: "avail (nc_in (w_conn w)) = frame f @ avail r" by auto
  have f: "f = hr_XWingCiphertext resp @ u16_field (hr_EncryptedID resp)"
    "length (hr_XWingCiphertext resp) = XWingCiphertextSize"
    using ps by (simp_all add: parseHandshakeResponse_Ok_iff resp_wf_def)
  have pt: "pt = two_fields rid rsig" using sp by (simp add: splitRespIDPayload_Ok_iff two_fields_def)
  have d: "fst (XWingDecapsulate C (id_XWing local) (hr_XWingCiphertext resp) w) = Ok shared"
    using dc XWingDecapsulate_value [of C "id_XWing local" "hr_XWingCiphertext resp" w v] by simp
  have p: "p = idp C local" using initiator_hello_Ok [OF h] by simp
  have "hs_shared res = shared" "hs_remote res = remote" using res by simp_all
  then show ?thesis using av f d op pt pa vf pin res p by blast
qed

text \<open>C5: whatever bytes the peer sends, when the initiator's handshake succeeds the first frame
  it read carried a 1120-byte X-Wing ciphertext and a box that opens under the key derived from
  the secret the initiator's own static key decapsulates from that ciphertext; the box holds an
  identity and a signature by that identity over the transcript of the initiator's own identity
  and that ciphertext; the identity satisfies the pin; and the result is that identity with the
  keys derived from that secret.\<close>

theorem initiator_authenticates:
  assumes "runInitiator C (Some cfg) w = (Ok res, w')" "cfg_LocalIdentity cfg = Some local"
  shows "\<exists>ct enc remoteID sig rest. avail (nc_in (w_conn w)) = frame (ct @ u16_field enc) @ rest \<and>
    length ct = XWingCiphertextSize \<and>
    fst (XWingDecapsulate C (id_XWing local) ct w) = Ok (hs_shared res) \<and>
    aeadOpen C (derive C (hs_shared res) respIDLabel 32) respIDNonceLabel ct enc = Ok (two_fields remoteID sig) \<and>
    ParseIdentityPublic C remoteID = Ok (hs_remote res) \<and>
    Verify C (hs_remote res) hsLabelResponse (transcriptHash (idp C local) ct) sig = Ok () \<and>
    \<not> pin_mismatch C cfg (hs_remote res) \<and> res = hs_result C (hs_shared res) (hs_remote res)"
  using initiator_read [OF assms] .

text \<open>
  What a responder that succeeded has read, encapsulated and sent: one frame, carrying its own
  identity and its signature over the transcript.
\<close>

lemma responder_sends:
  assumes "runResponder C (Some cfg) w = (Ok res, w')" "cfg_LocalIdentity cfg = Some local"
    and "crypto_laws C" "identity_key C local"
  shows "\<exists>ident isig ct sig v v'.
    (\<exists>rest. avail (nc_in (w_conn w)) = frame (two_fields ident isig) @ rest) \<and>
    ParseIdentityPublic C ident = Ok (hs_remote res) \<and>
    Verify C (hs_remote res) hsLabelInit ident isig = Ok () \<and>
    \<not> pin_mismatch C cfg (hs_remote res) \<and>
    XWingEncapsulate C None (ip_XWingPub (hs_remote res)) v = (Ok (ct, hs_shared res), v') \<and>
    length ct = XWingCiphertextSize \<and>
    Verify C (Identity_Public C local) hsLabelResponse (transcriptHash ident ct) sig = Ok () \<and>
    length (resp_payload C ct (hs_shared res) (idp C local) sig) = 7715 \<and>
    nc_sent (w_conn w') = nc_sent (w_conn w) @ frame (resp_payload C ct (hs_shared res) (idp C local) sig) \<and>
    res = hs_result C (hs_shared res) (hs_remote res)"
proof -
  from runResponder_OkD [OF assms(1)] assms(2) obtain init ct shared w1 w2 w3 where
    h: "responder_hello C cfg w = (Ok (init, hs_remote res), w1)"
    and e: "XWingEncapsulate C None (ip_XWingPub (hs_remote res)) w1 = (Ok (ct, shared), w2)"
    and rp: "responder_reply C local init ct shared w2 = (Ok (), w3)" "w' = leave [(''shared'', shared)] w3"
    and res: "res = hs_result C shared (hs_remote res)" by (metis option.inject)
  have ct: "length ct = XWingCiphertextSize"
    using XWingEncapsulate_sizes(1) [OF crypto_lawsD(5,6) [OF assms(3)] e] .
  from h have "\<exists>w'. responder_hello C cfg w = (Ok (init, hs_remote res), w')" by blast
  note hello = this [unfolded responder_hello_Ok_iff]
  have sh: "hs_shared res = shared" using res by (metis hs_result_simps(1))
  obtain sig w4 where sg: "Sign C local hsLabelResponse (transcriptHash (hi_IdentityPub init) ct) w2 = (sig, w4)"
    by (cases "Sign C local hsLabelResponse (transcriptHash (hi_IdentityPub init) ct) w2")
  let ?p = "resp_payload C ct shared (idp C local) sig"
  note re = responder_reply_eq [OF assms(3,4) ct sg, of shared]
  from rp re(1) obtain c where wr: "writeFrame ?p (w_conn w4) = (Ok (), c)" and c: "w_conn w' = c"
    by (auto simp: defer_zero_Ok_iff on_conn_Ok_iff)
  have "nc_sent (w_conn w4) = nc_sent (w_conn w)"
    using Sign_frame [OF sg] XWingEncapsulate_Ok [OF e] responder_hello_conn [OF h] by auto
  with writeFrame_sent [OF wr] c have "nc_sent (w_conn w') = nc_sent (w_conn w) @ frame ?p" by auto
  with hello e ct honest_sign(1) [OF assms(3,4) sg] re(2) res show ?thesis unfolding sh by blast
qed

text \<open>C6: whatever bytes the peer sends, when the responder's handshake succeeds the first frame
  it read was a well-formed init message whose identity parses, satisfies the pin and signed that
  very message; the secret was encapsulated to that identity's X-Wing key; and the one frame it
  sent carries the ciphertext of that encapsulation.\<close>

theorem responder_authenticates:
  assumes "runResponder C (Some cfg) w = (Ok res, w')" "cfg_LocalIdentity cfg = Some local"
    and "crypto_laws C" "identity_key C local"
  shows "\<exists>ident sig rest p resp v v'. avail (nc_in (w_conn w)) = frame (two_fields ident sig) @ rest \<and>
    ParseIdentityPublic C ident = Ok (hs_remote res) \<and>
    Verify C (hs_remote res) hsLabelInit ident sig = Ok () \<and> \<not> pin_mismatch C cfg (hs_remote res) \<and>
    XWingEncapsulate C None (ip_XWingPub (hs_remote res)) v = (Ok (hr_XWingCiphertext resp, hs_shared res), v') \<and>
    nc_sent (w_conn w') = nc_sent (w_conn w) @ frame p \<and> parseHandshakeResponse p = Ok resp \<and>
    res = hs_result C (hs_shared res) (hs_remote res)"
proof -
  from responder_sends [OF assms] obtain ident isig ct sig v v' rest where
    r: "avail (nc_in (w_conn w)) = frame (two_fields ident isig) @ rest"
      "ParseIdentityPublic C ident = Ok (hs_remote res)"
      "Verify C (hs_remote res) hsLabelInit ident isig = Ok ()"
      "\<not> pin_mismatch C cfg (hs_remote res)"
      "XWingEncapsulate C None (ip_XWingPub (hs_remote res)) v = (Ok (ct, hs_shared res), v')"
    and s: "length ct = XWingCiphertextSize" "length (resp_payload C ct (hs_shared res) (idp C local) sig) = 7715"
      "nc_sent (w_conn w') = nc_sent (w_conn w) @ frame (resp_payload C ct (hs_shared res) (idp C local) sig)"
      "res = hs_result C (hs_shared res) (hs_remote res)" by blast
  define enc where "enc = chacha_Seal C (derive C (hs_shared res) respIDLabel 32) (handshakeNonce respIDNonceLabel)
    (two_fields (idp C local) sig) ct"
  have "length enc \<le> 0xFFFF" using s(1,2) by (simp add: resp_payload_def enc_def size_simps)
  then have "parseHandshakeResponse (resp_payload C ct (hs_shared res) (idp C local) sig) =
      Ok \<lparr>hr_XWingCiphertext = ct, hr_EncryptedID = enc\<rparr>"
    using s(1) by (simp add: parseHandshakeResponse_Ok_iff resp_wf_def u16_fits_def resp_payload_def enc_def)
  moreover have "XWingEncapsulate C None (ip_XWingPub (hs_remote res)) v =
      (Ok (hr_XWingCiphertext \<lparr>hr_XWingCiphertext = ct, hr_EncryptedID = enc\<rparr>, hs_shared res), v')"
    using r(5) by simp
  ultimately show ?thesis using r(1-4) s(3,4) by blast
qed

lemma sample_pin [simp]: "\<not> pin_mismatch toy_crypto (toy_cfg 1 (Some (toy_pub 2))) (toy_pub 2)"
  by simp

theorem initiator_authenticates_witness:
  "\<exists>res w'. runInitiator toy_crypto (Some (toy_cfg 1 (Some (toy_pub 2)))) (toy_world sample_reply) = (Ok res, w') \<and>
    (\<exists>ct enc rest. sample_reply = frame (ct @ u16_field enc) @ rest \<and> length ct = XWingCiphertextSize \<and>
      fst (XWingDecapsulate toy_crypto (id_XWing (toy_id 1)) ct (toy_world sample_reply)) = Ok (hs_shared res))"
proof -
  let ?w = "toy_world sample_reply" and ?cfg = "toy_cfg 1 (Some (toy_pub 2))"
  obtain shared where "fst (runInitiator toy_crypto (Some ?cfg) ?w) = Ok (hs_result toy_crypto shared (toy_pub 2))"
    using sample_session by (metis toy_pin_Some)
  then obtain res w' where r: "runInitiator toy_crypto (Some ?cfg) ?w = (Ok res, w')"
    by (cases "runInitiator toy_crypto (Some ?cfg) ?w") auto
  from initiator_authenticates [OF r, of "toy_id 1"] r show ?thesis by auto
qed

theorem responder_authenticates_witness:
  "\<exists>res w'. runResponder toy_crypto (Some (toy_cfg 2 None)) (toy_world sample_hello) = (Ok res, w') \<and>
    (\<exists>ident sig rest. sample_hello = frame (two_fields ident sig) @ rest \<and>
      ParseIdentityPublic toy_crypto ident = Ok (hs_remote res) \<and>
      Verify toy_crypto (hs_remote res) hsLabelInit ident sig = Ok ())"
proof -
  let ?w = "toy_world sample_hello"
  obtain res w' where r: "runResponder toy_crypto (Some (toy_cfg 2 None)) ?w = (Ok res, w')"
    using sample_session by metis
  from responder_authenticates [OF r _ toy_crypto_laws, of "toy_id 2"] r show ?thesis by auto
qed

subsection \<open>Pinning\<close>

lemma pin_ok:
  assumes "crypto_laws C" "cfg_ExpectedRemote cfg = Some e" "identity_public C e"
    "ParseIdentityPublic C b = Ok r" "\<not> pin_mismatch C cfg r"
  shows "r = e"
proof -
  have "identity_public C r" using ik.enc_dec [of C b r] assms(4) crypto_lawsD(2,4) [OF assms(1)] by simp
  then show ?thesis
    using assms Identity_Equal_eq [OF crypto_lawsD(2,4) [OF assms(1)]] by (simp add: pin_mismatch_def)
qed

text \<open>C8: when \<open>ExpectedRemote\<close> is set, a handshake that succeeds, in either role and against any
  peer, reports exactly the pinned identity.\<close>

theorem pinned_peer:
  assumes "crypto_laws C" "cfg_ExpectedRemote cfg = Some e" "identity_public C e"
    and "runInitiator C (Some cfg) w = (Ok res, w') \<or> runResponder C (Some cfg) w = (Ok res, w')"
  shows "hs_remote res = e"
  using assms(4)
proof
  assume a: "runInitiator C (Some cfg) w = (Ok res, w')"
  from runInitiator_OkD [OF a] obtain p resp shared w2 where
    "\<exists>w'. initiator_finish C cfg p resp shared w2 = (Ok res, w')" by metis
  then show ?thesis unfolding initiator_finish_Ok_iff using pin_ok [OF assms(1-3)] by auto
next
  assume "runResponder C (Some cfg) w = (Ok res, w')"
  then obtain init w1 where "responder_hello C cfg w = (Ok (init, hs_remote res), w1)"
    by (rule runResponder_OkD)
  then have "\<exists>w1. responder_hello C cfg w = (Ok (init, hs_remote res), w1)" by blast
  then show ?thesis unfolding responder_hello_Ok_iff using pin_ok [OF assms(1-3)] by auto
qed

theorem pinned_peer_witness:
  "\<exists>res w'. runInitiator toy_crypto (Some (toy_cfg 1 (Some (toy_pub 2)))) (toy_world sample_reply) = (Ok res, w') \<and>
    hs_remote res = toy_pub 2"
proof -
  let ?w = "toy_world sample_reply" and ?cfg = "toy_cfg 1 (Some (toy_pub 2))"
  obtain shared where "fst (runInitiator toy_crypto (Some ?cfg) ?w) = Ok (hs_result toy_crypto shared (toy_pub 2))"
    using sample_session by (metis toy_pin_Some)
  then obtain res w' where r: "runInitiator toy_crypto (Some ?cfg) ?w = (Ok res, w')"
    by (cases "runInitiator toy_crypto (Some ?cfg) ?w") auto
  have "hs_remote res = toy_pub 2"
    by (rule pinned_peer [OF toy_crypto_laws _ identity_public_Public [OF toy_crypto_laws toy_identity] disjI1 [OF r]]) simp
  with r show ?thesis by blast
qed

lemma responder_hello_honest:
  assumes "crypto_laws C" "identity_key C a"
    and sig: "Verify C (Identity_Public C a) hsLabelInit (idp C a) sig = Ok ()" "u16_fits sig"
    and inbox: "avail (nc_in (w_conn w)) = frame (two_fields (idp C a) sig) @ rest"
  shows "\<exists>r. responder_hello C cfg w =
    (if pin_mismatch C cfg (Identity_Public C a) then Err ErrIdentityMismatch
     else Ok (\<lparr>hi_IdentityPub = idp C a, hi_Signature = sig\<rparr>, Identity_Public C a),
     w\<lparr>w_conn := (w_conn w)\<lparr>nc_in := r\<rparr>\<rparr>) \<and> avail r = rest \<and> r_end r = r_end (nc_in (w_conn w))"
proof -
  let ?f = "two_fields (idp C a) sig"
  note sz = honest_sizes [OF assms(1,2)]
  have "fits ?f" using sz sig(2) by (simp add: fits_def MaxFrameSize_def u16_fits_def)
  with inbox obtain r where "readFrame (w_conn w) = (Ok ?f, (w_conn w)\<lparr>nc_in := r\<rparr>)"
      "avail r = rest" "r_end r = r_end (nc_in (w_conn w))"
    using readFrame_Ok by blast
  moreover have "parseHandshakeInit ?f = Ok \<lparr>hi_IdentityPub = idp C a, hi_Signature = sig\<rparr>"
    using sz sig(2) by (simp add: parseHandshakeInit_Ok_iff init_wf_def two_fields_def)
  ultimately show ?thesis
    using sig(1) Parse_Identity_Marshal [OF identity_public_Public [OF assms(1,2)]]
    by (intro exI [of _ r]) (simp add: responder_hello_def on_conn_def)
qed

text \<open>C22: a responder that pins another identity answers the honest first message of \<open>a\<close> with
  \<open>ErrIdentityMismatch\<close>, before it draws entropy, encapsulates or sends a byte.\<close>

theorem responder_wrong_pin:
  assumes "crypto_laws C" "identity_key C a" "cfg_LocalIdentity cfg = Some b"
    and "Verify C (Identity_Public C a) hsLabelInit (idp C a) sig = Ok ()" "u16_fits sig"
    and "avail (nc_in (w_conn w)) = frame (two_fields (idp C a) sig) @ rest"
    and "pin_mismatch C cfg (Identity_Public C a)"
  shows "\<exists>r. runResponder C (Some cfg) w = (Err ErrIdentityMismatch, w\<lparr>w_conn := (w_conn w)\<lparr>nc_in := r\<rparr>\<rparr>)"
  using responder_hello_honest [OF assms(1,2,4-6), of cfg] assms(3,7)
  by (auto simp: runResponder_def)

lemma sample_pin_differs: "pin_mismatch toy_crypto (toy_cfg x (Some (toy_pub 3))) (toy_pub 1)"
  "pin_mismatch toy_crypto (toy_cfg x (Some (toy_pub 3))) (toy_pub 2)"
  by (simp_all add: pin_mismatch_def Identity_Equal_iff Identity_Public_def toy_id_def)

theorem responder_wrong_pin_witness:
  "fst (runResponder toy_crypto (Some (toy_cfg 2 (Some (toy_pub 3)))) (toy_world sample_hello)) = Err ErrIdentityMismatch"
proof -
  obtain sig where s: "sample_hello = frame (two_fields (idp toy_crypto (toy_id 1)) sig) @ []"
    "Verify toy_crypto (toy_pub 1) hsLabelInit (idp toy_crypto (toy_id 1)) sig = Ok ()" "u16_fits sig"
    by (rule sample_hello_is)
  from responder_wrong_pin [OF toy_crypto_laws toy_identity _ s(2,3) _ sample_pin_differs(1),
      of 2 "toy_id 2" "toy_world sample_hello" "[]"] s(1)
  show ?thesis by auto
qed

text \<open>C23: an initiator that pins another identity turns away the honest reply of \<open>b\<close> with
  \<open>ErrIdentityMismatch\<close>.\<close>

theorem initiator_wrong_pin:
  assumes "crypto_laws C" "identity_key C a" "identity_key C b" "cfg_LocalIdentity cfgB = Some b"
    and "\<not> pin_mismatch C cfgB (Identity_Public C a)"
    and "accepts (w_conn wb)" "entropy_ready C (XWing_Public C (id_XWing a)) (w_rand wb)"
    and "Verify C (Identity_Public C a) hsLabelInit (idp C a) sig = Ok ()" "u16_fits sig"
    and "avail (nc_in (w_conn wb)) = frame (two_fields (idp C a) sig) @ rest"
    and "cfg_LocalIdentity cfgA = Some a" "accepts (w_conn wa)" "nc_sent (w_conn wb) = []"
    and "avail (nc_in (w_conn wa)) = nc_sent (w_conn (snd (runResponder C (Some cfgB) wb)))"
    and "pin_mismatch C cfgA (Identity_Public C b)"
  shows "fst (runInitiator C (Some cfgA) wa) = Err ErrIdentityMismatch"
proof -
  obtain shared wb' out where
    r: "runResponder C (Some cfgB) wb = (Ok (hs_result C shared (Identity_Public C a)), wb')"
    "length shared = XWingSharedSize" "nc_sent (w_conn wb') = nc_sent (w_conn wb) @ out"
    "reply_of C a b shared out"
    by (rule honest_session [OF assms(1-10)])
  from reply_ofD [OF r(4) assms(11,12), of "[]"] r assms(13-15) show ?thesis by simp
qed

theorem initiator_wrong_pin_witness:
  "fst (runInitiator toy_crypto (Some (toy_cfg 1 (Some (toy_pub 3)))) (toy_world sample_reply)) = Err ErrIdentityMismatch"
proof -
  obtain sig where s: "sample_hello = frame (two_fields (idp toy_crypto (toy_id 1)) sig) @ []"
    "Verify toy_crypto (toy_pub 1) hsLabelInit (idp toy_crypto (toy_id 1)) sig = Ok ()" "u16_fits sig"
    by (rule sample_hello_is)
  show ?thesis
    by (rule initiator_wrong_pin [OF toy_crypto_laws toy_identity toy_identity [of 2] _ _ _ _ s(2,3),
      of "toy_cfg 2 None" "toy_world sample_hello" "[]"])
      (use s(1) sample_ready sample_pin_differs(2) in \<open>simp_all add: sample_reply_def\<close>)
qed

end
