(* ===== verification/Channel.thy ===== *)
theory Channel
  imports Handshake Wire Aead
begin

text \<open>
  The secure channel (\<open>channel.go\<close>): \<open>newConn\<close>, \<open>Read\<close>, \<open>Write\<close>, \<open>Close\<close> and the
  pass-through methods of \<open>net.Conn\<close>. The mutexes make \<open>Read\<close> and \<open>Write\<close> atomic, so each is
  one function of the connection state. \<open>c_sealed\<close> is a ghost field: the (nonce, plaintext)
  pairs given to \<open>writeAEAD.Seal\<close>, in order; no operation reads it.
\<close>

record ('dpk, 'kpk) Conn =
  c_raw :: "net_conn option"
  c_remote :: "('dpk, 'kpk) IdentityPublic"
  c_readAEAD :: aead
  c_readSeq :: "64 word"
  c_readBuf :: bytes
  c_writeAEAD :: aead
  c_writeSeq :: "64 word"
  c_sealed :: "(bytes \<times> bytes) list"

definition newConn ::
  "net_conn \<Rightarrow> ('dpk, 'kpk) handshakeResult \<Rightarrow> bool
     \<Rightarrow> ('dpk, 'kpk) Conn result \<times> ('dpk, 'kpk) handshakeResult" where
  "newConn raw res initiator =
     (let (txKey, rxKey) =
        (if initiator then (hs_keyI2R res, hs_keyR2I res) else (hs_keyR2I res, hs_keyI2R res)) in
      bindS (mustChaCha20 rxKey, res) (\<lambda>readAEAD res.
      bindS (mustChaCha20 txKey, res) (\<lambda>writeAEAD res.
      let c = \<lparr>c_raw = Some raw, c_remote = hs_remote res,
               c_readAEAD = readAEAD, c_readSeq = 0, c_readBuf = [],
               c_writeAEAD = writeAEAD, c_writeSeq = 0, c_sealed = []\<rparr> in
      (Ok c, res\<lparr>hs_keyI2R := zero (hs_keyI2R res), hs_keyR2I := zero (hs_keyR2I res)\<rparr>))))"

definition RemoteIdentity :: "('dpk, 'kpk) Conn \<Rightarrow> ('dpk, 'kpk) IdentityPublic" where
  "RemoteIdentity c = c_remote c"

text \<open>A method call on a nil \<open>raw\<close>.\<close>

definition nil_panic :: "('e, 'a) outcome" where
  "nil_panic = Panic ''invalid memory address or nil pointer dereference''"

text \<open>
  \<open>c.Read(b)\<close> with \<open>len(b) = n\<close>; the result is the part of \<open>b\<close> that is filled. \<open>copy\<close> moves the
  smaller of both lengths.
\<close>

definition Conn_Read ::
  "('dsk, 'dpk, 'ksk, 'kpk) crypto \<Rightarrow> nat \<Rightarrow> ('dpk, 'kpk) Conn \<Rightarrow> bytes result \<times> ('dpk, 'kpk) Conn" where
  "Conn_Read C n c =
     (if length (c_readBuf c) > 0
      then let k = min n (length (c_readBuf c)) in
           bindS (slice_from (int k) (c_readBuf c), c) (\<lambda>rest c.
           (Ok (take k (c_readBuf c)), c\<lparr>c_readBuf := rest\<rparr>))
      else case c_raw c of
        None \<Rightarrow> (nil_panic, c)
      | Some raw \<Rightarrow>
          (case readFrame raw of
             (Err e, raw) \<Rightarrow> (Err e, c\<lparr>c_raw := Some raw\<rparr>)
           | (Panic p, raw) \<Rightarrow> (Panic p, c\<lparr>c_raw := Some raw\<rparr>)
           | (Ok rec, raw) \<Rightarrow>
               (let c = c\<lparr>c_raw := Some raw\<rparr> in
                if c_readSeq c = NOT 0 then (Err ErrSequenceExhausted, c)
                else case chacha_Open C (c_readAEAD c) (nonceFor (c_readSeq c)) rec [] of
                       None \<Rightarrow> (Err ErrCiphertextCorrupted, c)
                     | Some plaintext \<Rightarrow>
                         (let c = c\<lparr>c_readSeq := c_readSeq c + 1\<rparr>;
                              k = min n (length plaintext) in
                          if k < length plaintext
                          then bindS (slice_from (int k) plaintext, c) (\<lambda>rest c.
                               (Ok (take k plaintext), c\<lparr>c_readBuf := rest\<rparr>))
                          else (Ok (take k plaintext), c)))))"

text \<open>The slices behind \<open>copy\<close> are within bounds.\<close>

lemma Conn_Read_slices:
  "Conn_Read C n c =
     (if length (c_readBuf c) > 0
      then (Ok (take n (c_readBuf c)), c\<lparr>c_readBuf := drop n (c_readBuf c)\<rparr>)
      else case c_raw c of
        None \<Rightarrow> (nil_panic, c)
      | Some raw \<Rightarrow>
          (case readFrame raw of
             (Err e, raw) \<Rightarrow> (Err e, c\<lparr>c_raw := Some raw\<rparr>)
           | (Panic p, raw) \<Rightarrow> (Panic p, c\<lparr>c_raw := Some raw\<rparr>)
           | (Ok rec, raw) \<Rightarrow>
               (let c = c\<lparr>c_raw := Some raw\<rparr> in
                if c_readSeq c = NOT 0 then (Err ErrSequenceExhausted, c)
                else case chacha_Open C (c_readAEAD c) (nonceFor (c_readSeq c)) rec [] of
                       None \<Rightarrow> (Err ErrCiphertextCorrupted, c)
                     | Some plaintext \<Rightarrow>
                         (let c = c\<lparr>c_readSeq := c_readSeq c + 1\<rparr> in
                          (Ok (take n plaintext),
                           if n < length plaintext then c\<lparr>c_readBuf := drop n plaintext\<rparr> else c)))))"
proof -
  have buf: "slice_from (int (min n (length xs))) xs = (Ok (drop n xs) :: bytes result)"
    "take (min n (length xs)) xs = take n xs" for xs :: bytes
    by (simp_all add: min_def)
  show ?thesis
    unfolding Conn_Read_def buf Let_def bindS_simps by (simp add: min_def split: option.splits outcome.splits prod.splits)
qed

definition maxPlain :: nat where
  "maxPlain = MaxFrameSize - chacha20poly1305_Overhead"

lemma maxPlain_pos [simp]: "0 < maxPlain"
  by (simp add: maxPlain_def MaxFrameSize_def size_simps)

text \<open>The loop of \<open>c.Write(b)\<close>; the result is \<open>(written, err)\<close>.\<close>

function Conn_Write_loop ::
  "('dsk, 'dpk, 'ksk, 'kpk) crypto \<Rightarrow> bytes \<Rightarrow> nat \<Rightarrow> ('dpk, 'kpk) Conn
     \<Rightarrow> (nat \<times> go_error option) result \<times> ('dpk, 'kpk) Conn" where
  "Conn_Write_loop C b written c =
     (if written < length b
      then let end = min (written + maxPlain) (length b) in
           if \<not> slice_ok (int written) (int end) b then (Panic ''runtime error: slice bounds out of range'', c)
           else let chunk = take (end - written) (drop written b) in
           if c_writeSeq c = NOT 0 then (Ok (written, Some ErrSequenceExhausted), c)
           else let nonce = nonceFor (c_writeSeq c);
                    ciphertext = chacha_Seal C (c_writeAEAD c) nonce chunk [];
                    c = c\<lparr>c_writeSeq := c_writeSeq c + 1, c_sealed := c_sealed c @ [(nonce, chunk)]\<rparr> in
                case c_raw c of
                  None \<Rightarrow> (nil_panic, c)
                | Some raw \<Rightarrow>
                    (case writeFrame ciphertext raw of
                       (Err e, raw) \<Rightarrow> (Ok (written, Some e), c\<lparr>c_raw := Some raw\<rparr>)
                     | (Panic p, raw) \<Rightarrow> (Panic p, c\<lparr>c_raw := Some raw\<rparr>)
                     | (Ok _, raw) \<Rightarrow>
                         Conn_Write_loop C b (written + length chunk) (c\<lparr>c_raw := Some raw\<rparr>))
      else (Ok (written, None), c))"
  by pat_completeness auto
termination
  by (relation "measure (\<lambda>(C, b, written, c). length b - written)")
    (insert maxPlain_pos, auto simp: min_def simp del: maxPlain_pos)

declare Conn_Write_loop.simps [simp del]

definition Conn_Write ::
  "('dsk, 'dpk, 'ksk, 'kpk) crypto \<Rightarrow> bytes \<Rightarrow> ('dpk, 'kpk) Conn
     \<Rightarrow> (nat \<times> go_error option) result \<times> ('dpk, 'kpk) Conn" where
  "Conn_Write C b c = Conn_Write_loop C b 0 c"

text \<open>A method of the raw connection through the channel.\<close>

definition on_raw ::
  "(net_conn \<Rightarrow> 'a result \<times> net_conn) \<Rightarrow> ('dpk, 'kpk) Conn \<Rightarrow> 'a result \<times> ('dpk, 'kpk) Conn" where
  "on_raw f c =
     (case c_raw c of
        None \<Rightarrow> (nil_panic, c)
      | Some raw \<Rightarrow> (case f raw of (x, raw) \<Rightarrow> (x, c\<lparr>c_raw := Some raw\<rparr>)))"

definition Conn_Close :: "('dpk, 'kpk) Conn \<Rightarrow> unit result \<times> ('dpk, 'kpk) Conn" where
  "Conn_Close c = (if c_raw c = None then (Err ErrChannelClosed, c) else on_raw conn_Close c)"

definition Conn_LocalAddr :: "('dpk, 'kpk) Conn \<Rightarrow> string result" where
  "Conn_LocalAddr c = fst (on_raw (\<lambda>raw. (Ok (nc_local raw), raw)) c)"

definition Conn_RemoteAddr :: "('dpk, 'kpk) Conn \<Rightarrow> string result" where
  "Conn_RemoteAddr c = fst (on_raw (\<lambda>raw. (Ok (nc_remote raw), raw)) c)"

definition Conn_SetDeadline :: "int option \<Rightarrow> ('dpk, 'kpk) Conn \<Rightarrow> unit result \<times> ('dpk, 'kpk) Conn" where
  "Conn_SetDeadline t c = on_raw (conn_SetDeadline t) c"

definition Conn_SetReadDeadline :: "int option \<Rightarrow> ('dpk, 'kpk) Conn \<Rightarrow> unit result \<times> ('dpk, 'kpk) Conn" where
  "Conn_SetReadDeadline t c = on_raw (conn_SetReadDeadline t) c"

definition Conn_SetWriteDeadline :: "int option \<Rightarrow> ('dpk, 'kpk) Conn \<Rightarrow> unit result \<times> ('dpk, 'kpk) Conn" where
  "Conn_SetWriteDeadline t c = on_raw (conn_SetWriteDeadline t) c"

subsection \<open>The nonce invariant\<close>

text \<open>
  The nonces used so far are those of the counter values below the current one, each once; keys
  have the size the AEAD needs.
\<close>

definition conn_inv :: "('dpk, 'kpk) Conn \<Rightarrow> bool" where
  "conn_inv c \<longleftrightarrow>
     map fst (c_sealed c) = map (\<lambda>i. nonceFor (word_of_nat i)) [0..<unat (c_writeSeq c)] \<and>
     length (c_readAEAD c) = 32 \<and> length (c_writeAEAD c) = 32 \<and> c_raw c \<noteq> None"

lemma unat_Suc_not_max:
  assumes "s \<noteq> NOT 0"
  shows "unat (s + 1 :: 64 word) = Suc (unat s)"
proof -
  have "1 + s \<noteq> 0"
    using assms by (metis add.commute add_eq_0_iff2 bit.compl_zero)
  then have "unat (1 + s) = Suc (unat s)" by (rule unatSuc)
  then show ?thesis by (simp add: add.commute)
qed

lemma newConn_inv:
  assumes "newConn raw res i = (Ok c, res')"
  shows "conn_inv c"
  using assms
  by (auto simp: newConn_def conn_inv_def mustChaCha20_def size_simps outcome_simps split: if_splits)

text \<open>The keys have the right size exactly when \<open>newConn\<close> does not panic; the result then is fixed.\<close>

lemma newConn_Ok_iff:
  "newConn raw res i = (Ok c, res') \<longleftrightarrow>
     length (hs_keyI2R res) = 32 \<and> length (hs_keyR2I res) = 32 \<and>
     c = \<lparr>c_raw = Some raw, c_remote = hs_remote res,
          c_readAEAD = (if i then hs_keyR2I res else hs_keyI2R res), c_readSeq = 0, c_readBuf = [],
          c_writeAEAD = (if i then hs_keyI2R res else hs_keyR2I res), c_writeSeq = 0, c_sealed = []\<rparr> \<and>
     res' = res\<lparr>hs_keyI2R := zero (hs_keyI2R res), hs_keyR2I := zero (hs_keyR2I res)\<rparr>"
  by (auto simp: newConn_def mustChaCha20_def size_simps outcome_simps split: if_splits)

lemma conn_inv_updates [simp]:
  "conn_inv (c\<lparr>c_readBuf := b\<rparr>) = conn_inv c" "conn_inv (c\<lparr>c_readSeq := s\<rparr>) = conn_inv c"
  "conn_inv c \<Longrightarrow> conn_inv (c\<lparr>c_raw := Some r\<rparr>)"
  by (simp_all add: conn_inv_def)

lemma conn_inv_seal:
  assumes "conn_inv c" "c_writeSeq c \<noteq> NOT 0"
  shows "conn_inv (c\<lparr>c_writeSeq := c_writeSeq c + 1, c_sealed := c_sealed c @ [(nonceFor (c_writeSeq c), p)]\<rparr>)"
  using assms by (simp add: conn_inv_def unat_Suc_not_max)

lemma Conn_Read_inv: "conn_inv c \<Longrightarrow> conn_inv (snd (Conn_Read C n c))"
  by (auto simp: Conn_Read_slices Let_def split: option.splits prod.splits outcome.splits)

lemma Conn_Write_loop_inv: "conn_inv c \<Longrightarrow> conn_inv (snd (Conn_Write_loop C b k c))"
proof (induction C b k c rule: Conn_Write_loop.induct)
  case (1 C b k c)
  show ?case
    using 1 conn_inv_seal [OF \<open>conn_inv c\<close>]
    by (subst Conn_Write_loop.simps)
      (auto simp: Let_def split: option.splits prod.splits outcome.splits)
qed

lemma Conn_Write_inv: "conn_inv c \<Longrightarrow> conn_inv (snd (Conn_Write C b c))"
  by (simp add: Conn_Write_def Conn_Write_loop_inv)

lemma conn_inv_distinct:
  assumes "conn_inv c"
  shows "distinct (map fst (c_sealed c))"
proof -
  have "inj_on (\<lambda>i. nonceFor (word_of_nat i)) {0..<unat (c_writeSeq c)}"
  proof (rule inj_onI)
    fix i j
    assume b: "i \<in> {0..<unat (c_writeSeq c)}" "j \<in> {0..<unat (c_writeSeq c)}"
      and eq: "nonceFor (word_of_nat i) = nonceFor (word_of_nat j)"
    have "unat (c_writeSeq c) < 2 ^ LENGTH(64)" by (rule unsigned_less)
    with b have "i < 2 ^ LENGTH(64)" "j < 2 ^ LENGTH(64)"
      by (meson atLeastLessThan_iff order.strict_trans)+
    with eq show "i = j" using word_of_nat_inj_lt by (metis nonceFor_inject)
  qed
  with assms show ?thesis by (simp add: conn_inv_def distinct_map)
qed

subsection \<open>Records of a stream\<close>

text \<open>
  The specification of \<open>Write\<close>: plaintexts are numbered from the current counter, and each
  becomes one frame.
\<close>

fun seal_log :: "64 word \<Rightarrow> bytes list \<Rightarrow> (bytes \<times> bytes) list" where
  "seal_log s [] = []"
| "seal_log s (p # ps) = (nonceFor s, p) # seal_log (s + 1) ps"

definition wire_of :: "('dsk, 'dpk, 'ksk, 'kpk) crypto \<Rightarrow> aead \<Rightarrow> (bytes \<times> bytes) list \<Rightarrow> bytes" where
  "wire_of C k log = concat (map (\<lambda>(n, p). frame (chacha_Seal C k n p [])) log)"

definition record_sizes :: "bytes list \<Rightarrow> bool" where
  "record_sizes ps \<longleftrightarrow> list_all (\<lambda>p. p \<noteq> [] \<and> length p \<le> maxPlain) ps"

lemma seal_log_append:
  "seal_log s (ps @ qs) = seal_log s ps @ seal_log (s + word_of_nat (length ps)) qs"
  by (induction ps arbitrary: s) (simp_all add: add_ac)

lemma map_snd_seal_log [simp]: "map snd (seal_log s ps) = ps"
  by (induction ps arbitrary: s) simp_all

lemma wire_of_simps [simp]:
  "wire_of C k [] = []"
  "wire_of C k ((n, p) # log) = frame (chacha_Seal C k n p []) @ wire_of C k log"
  "wire_of C k (log @ log') = wire_of C k log @ wire_of C k log'"
  by (simp_all add: wire_of_def)

lemma concat_chunks [simp]: "0 < n \<Longrightarrow> concat (chunks n xs) = xs"
  by (induction n xs rule: chunks.induct) (subst chunks.simps, auto)

lemma record_sizes_chunks: "record_sizes (chunks maxPlain b)"
proof -
  have "0 < n \<Longrightarrow> list_all (\<lambda>p. p \<noteq> [] \<and> length p \<le> n) (chunks n xs)" for n and xs :: bytes
    by (induction n xs rule: chunks.induct) (subst chunks.simps, auto)
  then show ?thesis by (simp add: record_sizes_def)
qed

lemma Seal_fits:
  assumes "aead_laws C" "length k = 32" "p \<noteq> []" "length p \<le> maxPlain"
  shows "fits (chacha_Seal C k (nonceFor s) p [])"
  using aead_law(1) [OF assms(1,2), of "nonceFor s"] assms(3,4)
  by (simp add: fits_def maxPlain_def MaxFrameSize_def size_simps)

lemma not_max_if_room: "unat (s :: 64 word) + Suc n < 2 ^ 64 \<Longrightarrow> s \<noteq> NOT 0"
  by (auto simp: unsigned_minus_1_eq_mask mask_eq_exp_minus_1)

lemma Conn_Write_loop_ok:
  assumes "aead_laws C" "length (c_writeAEAD c) = 32" "c_raw c = Some raw" "accepts raw"
    "k \<le> length b" "unat (c_writeSeq c) + length (chunks maxPlain (drop k b)) < 2 ^ 64"
  shows "Conn_Write_loop C b k c =
    (Ok (length b, None),
     c\<lparr>c_writeSeq := c_writeSeq c + word_of_nat (length (chunks maxPlain (drop k b))),
       c_sealed := c_sealed c @ seal_log (c_writeSeq c) (chunks maxPlain (drop k b)),
       c_raw := Some (raw\<lparr>nc_sent := nc_sent raw @
         wire_of C (c_writeAEAD c) (seal_log (c_writeSeq c) (chunks maxPlain (drop k b)))\<rparr>)\<rparr>)"
  using assms
proof (induction C b k c arbitrary: raw rule: Conn_Write_loop.induct)
  case (1 C b k c)
  show ?case
  proof (cases "k < length b")
    case False
    with "1.prems"(3,5) show ?thesis
      by (subst Conn_Write_loop.simps) (simp add: chunks.simps [of _ "[]"])
  next
    case True
    define p where "p = take maxPlain (drop k b)"
    define k' where "k' = k + length p"
    define ps where "ps = chunks maxPlain (drop k' b)"
    have len: "length p = min maxPlain (length b - k)" by (simp add: p_def)
    have bnd: "\<not> \<not> slice_ok (int k) (int (min (k + maxPlain) (length b))) b"
      using True by (auto simp: slice_ok_def)
    have chunk: "take (min (k + maxPlain) (length b) - k) (drop k b) = p"
      using True by (simp add: p_def min_def)
    have ch: "chunks maxPlain (drop k b) = p # ps"
      using True len by (subst chunks.simps) (auto simp: p_def ps_def k'_def min_def add.commute)
    have pne: "p \<noteq> []" "length p \<le> maxPlain" "k' \<le> length b"
      using True maxPlain_pos by (auto simp: len k'_def simp del: maxPlain_pos simp flip: length_greater_0_conv)
    let ?s = "c_writeSeq c"
    let ?n = "nonceFor ?s"
    let ?ct = "chacha_Seal C (c_writeAEAD c) ?n p []"
    let ?c1 = "c\<lparr>c_writeSeq := ?s + 1, c_sealed := c_sealed c @ [(?n, p)]\<rparr>"
    let ?raw = "raw\<lparr>nc_sent := nc_sent raw @ frame ?ct\<rparr>"
    have room: "unat ?s + Suc (length ps) < 2 ^ 64" using "1.prems"(6) by (simp add: ch)
    have nmax: "?s \<noteq> NOT 0" by (rule not_max_if_room [OF room])
    have wr: "writeFrame ?ct raw = (Ok (), ?raw)"
      using Seal_fits [OF "1.prems"(1,2) pne(1,2)] writeFrame_Ok [OF "1.prems"(4)] by (simp add: fits_def)
    have step: "Conn_Write_loop C b k c = Conn_Write_loop C b k' (?c1\<lparr>c_raw := Some ?raw\<rparr>)"
      using True bnd nmax wr "1.prems"(3)
      by (subst Conn_Write_loop.simps) (simp add: chunk Let_def k'_def)
    have "Conn_Write_loop C b k' (?c1\<lparr>c_raw := Some ?raw\<rparr>) =
      (Ok (length b, None),
       ?c1\<lparr>c_writeSeq := ?s + 1 + word_of_nat (length ps),
         c_sealed := c_sealed c @ [(?n, p)] @ seal_log (?s + 1) ps,
         c_raw := Some (?raw\<lparr>nc_sent := nc_sent ?raw @ wire_of C (c_writeAEAD c) (seal_log (?s + 1) ps)\<rparr>)\<rparr>)"
    proof -
      have "unat (?s + 1) + length (chunks maxPlain (drop k' b)) < 2 ^ 64"
        using room unat_Suc_not_max [OF nmax] by (simp add: ps_def)
      then show ?thesis
        using "1.IH" [OF True refl bnd chunk [symmetric] nmax refl refl refl, of raw "Ok ()" ?raw "()" ?raw]
          "1.prems" wr pne(3) by (simp add: ps_def k'_def)
    qed
    then show ?thesis by (simp add: step ch add_ac)
  qed
qed

lemma Conn_Write_ok:
  assumes "aead_laws C" "length (c_writeAEAD c) = 32" "c_raw c = Some raw" "accepts raw"
    "unat (c_writeSeq c) + length (chunks maxPlain b) < 2 ^ 64"
  shows "Conn_Write C b c =
    (Ok (length b, None),
     c\<lparr>c_writeSeq := c_writeSeq c + word_of_nat (length (chunks maxPlain b)),
       c_sealed := c_sealed c @ seal_log (c_writeSeq c) (chunks maxPlain b),
       c_raw := Some (raw\<lparr>nc_sent := nc_sent raw @
         wire_of C (c_writeAEAD c) (seal_log (c_writeSeq c) (chunks maxPlain b))\<rparr>)\<rparr>)"
  using Conn_Write_loop_ok [OF assms(1-4), of 0 b] assms(5) by (simp add: Conn_Write_def)

text \<open>A sequence of writes, whatever each returns.\<close>

definition Conn_writes ::
  "('dsk, 'dpk, 'ksk, 'kpk) crypto \<Rightarrow> bytes list \<Rightarrow> ('dpk, 'kpk) Conn \<Rightarrow> ('dpk, 'kpk) Conn" where
  "Conn_writes C bs c = foldl (\<lambda>c b. snd (Conn_Write C b c)) c bs"

definition all_chunks :: "bytes list \<Rightarrow> bytes list" where
  "all_chunks bs = concat (map (chunks maxPlain) bs)"

lemma all_chunks_simps [simp]:
  "all_chunks [] = []" "all_chunks (b # bs) = chunks maxPlain b @ all_chunks bs"
  "concat (all_chunks bs) = concat bs"
  by (simp_all add: all_chunks_def) (induction bs; simp)

lemma record_sizes_all_chunks: "record_sizes (all_chunks bs)"
  using record_sizes_chunks by (induction bs) (auto simp: record_sizes_def)

lemma Conn_writes_ok:
  assumes "aead_laws C" "length (c_writeAEAD c) = 32" "c_raw c = Some raw" "accepts raw"
    "unat (c_writeSeq c) + length (all_chunks bs) < 2 ^ 64"
  shows "Conn_writes C bs c =
     c\<lparr>c_writeSeq := c_writeSeq c + word_of_nat (length (all_chunks bs)),
       c_sealed := c_sealed c @ seal_log (c_writeSeq c) (all_chunks bs),
       c_raw := Some (raw\<lparr>nc_sent := nc_sent raw @
         wire_of C (c_writeAEAD c) (seal_log (c_writeSeq c) (all_chunks bs))\<rparr>)\<rparr>"
  using assms(2-)
proof (induction bs arbitrary: c raw)
  case Nil
  then show ?case by (simp add: Conn_writes_def)
next
  case (Cons b bs)
  let ?ps = "chunks maxPlain b"
  let ?log = "seal_log (c_writeSeq c) ?ps"
  let ?raw = "raw\<lparr>nc_sent := nc_sent raw @ wire_of C (c_writeAEAD c) ?log\<rparr>"
  let ?c = "c\<lparr>c_writeSeq := c_writeSeq c + word_of_nat (length ?ps), c_sealed := c_sealed c @ ?log,
    c_raw := Some ?raw\<rparr>"
  have w: "Conn_Write C b c = (Ok (length b, None), ?c)"
    using Conn_Write_ok [OF assms(1) Cons.prems(1-3), of b] Cons.prems(4) by simp
  have "unat (c_writeSeq ?c) = unat (c_writeSeq c) + length ?ps"
    using Cons.prems(4) by (simp add: unat_word_ariths unat_of_nat take_bit_nat_eq_self)
  then have "Conn_writes C bs ?c = ?c\<lparr>c_writeSeq := c_writeSeq ?c + word_of_nat (length (all_chunks bs)),
       c_sealed := c_sealed ?c @ seal_log (c_writeSeq ?c) (all_chunks bs),
       c_raw := Some (?raw\<lparr>nc_sent := nc_sent ?raw @
         wire_of C (c_writeAEAD ?c) (seal_log (c_writeSeq ?c) (all_chunks bs))\<rparr>)\<rparr>"
    using Cons.IH [of ?c ?raw] Cons.prems by simp
  moreover have "Conn_writes C (b # bs) c = Conn_writes C bs ?c" by (simp add: Conn_writes_def w)
  ultimately show ?case by (simp add: seal_log_append add_ac)
qed

subsection \<open>Reading what was sealed\<close>

text \<open>The records \<open>ps\<close> are on their way to \<open>c\<close>, sealed under its key from its counter on.\<close>

definition in_flight ::
  "('dsk, 'dpk, 'ksk, 'kpk) crypto \<Rightarrow> ('dpk, 'kpk) Conn \<Rightarrow> bytes list \<Rightarrow> bool" where
  "in_flight C c ps \<longleftrightarrow>
     (\<exists>raw. c_raw c = Some raw \<and>
        avail (nc_in raw) = wire_of C (c_readAEAD c) (seal_log (c_readSeq c) ps)) \<and>
     record_sizes ps \<and> unat (c_readSeq c) + length ps < 2 ^ 64 \<and> length (c_readAEAD c) = 32"

definition stream_end :: "('dpk, 'kpk) Conn \<Rightarrow> go_error" where
  "stream_end c = (case c_raw c of None \<Rightarrow> ErrClosed | Some raw \<Rightarrow> r_end (nc_in raw))"

lemma Conn_Read_record:
  assumes "aead_laws C" "in_flight C c (p # ps)" "c_readBuf c = []"
  shows "\<exists>c'. Conn_Read C n c = (Ok (take n p), c') \<and> in_flight C c' ps \<and>
    c_readBuf c' = drop n p \<and> stream_end c' = stream_end c"
proof -
  let ?s = "c_readSeq c"
  let ?ct = "chacha_Seal C (c_readAEAD c) (nonceFor ?s) p []"
  from assms(2) obtain raw where raw: "c_raw c = Some raw"
    "avail (nc_in raw) = frame ?ct @ wire_of C (c_readAEAD c) (seal_log (?s + 1) ps)"
    and sz: "p \<noteq> []" "length p \<le> maxPlain" "record_sizes ps" "unat ?s + Suc (length ps) < 2 ^ 64"
      "length (c_readAEAD c) = 32"
    by (auto simp: in_flight_def record_sizes_def)
  from readFrame_Ok [OF raw(2) Seal_fits [OF assms(1) sz(5,1,2)]] obtain r where
    rd: "readFrame raw = (Ok ?ct, raw\<lparr>nc_in := r\<rparr>)"
    and r: "avail r = wire_of C (c_readAEAD c) (seal_log (?s + 1) ps)" "r_end r = r_end (nc_in raw)"
    by blast
  have nmax: "?s \<noteq> NOT 0" by (rule not_max_if_room [OF sz(4)])
  have op: "chacha_Open C (c_readAEAD c) (nonceFor ?s) ?ct [] = Some p"
    using aead_law(2) [OF assms(1) sz(5)] by simp
  let ?c = "c\<lparr>c_raw := Some (raw\<lparr>nc_in := r\<rparr>), c_readSeq := ?s + 1\<rparr>"
  let ?c' = "if n < length p then ?c\<lparr>c_readBuf := drop n p\<rparr> else ?c"
  have "Conn_Read C n c = (Ok (take n p), ?c')"
    using assms(3) raw(1) rd nmax op by (simp add: Conn_Read_slices)
  moreover have "in_flight C ?c' ps"
    using r sz unat_Suc_not_max [OF nmax] by (simp add: in_flight_def)
  ultimately show ?thesis
    using assms(3) raw(1) r(2) by (auto simp: stream_end_def)
qed

lemma Conn_Read_progress:
  assumes "aead_laws C" "in_flight C c ps" "0 < n" "c_readBuf c @ concat ps \<noteq> []"
  shows "\<exists>bs c' ps'. Conn_Read C n c = (Ok bs, c') \<and> bs \<noteq> [] \<and> length bs \<le> n \<and> in_flight C c' ps' \<and>
    c_readBuf c @ concat ps = bs @ c_readBuf c' @ concat ps' \<and> stream_end c' = stream_end c"
proof (cases "c_readBuf c = []")
  case True
  with assms(4) obtain p qs where ps: "ps = p # qs" by (cases ps) auto
  with assms(2) have "p \<noteq> []" by (simp add: in_flight_def record_sizes_def)
  from Conn_Read_record [OF assms(1) assms(2)[unfolded ps] True, of n] obtain c' where
    "Conn_Read C n c = (Ok (take n p), c')" "in_flight C c' qs" "c_readBuf c' = drop n p"
    "stream_end c' = stream_end c" by blast
  with True ps assms(3) \<open>p \<noteq> []\<close> show ?thesis
    by (intro exI [of _ "take n p"] exI [of _ c'] exI [of _ qs]) auto
next
  case False
  let ?c' = "c\<lparr>c_readBuf := drop n (c_readBuf c)\<rparr>"
  have "Conn_Read C n c = (Ok (take n (c_readBuf c)), ?c')" "in_flight C ?c' ps"
    using False assms(2) by (simp_all add: Conn_Read_slices in_flight_def)
  with False assms(3) show ?thesis
    by (intro exI [of _ "take n (c_readBuf c)"] exI [of _ ?c'] exI [of _ ps]) (auto simp: stream_end_def)
qed

lemma Conn_Read_end:
  assumes "in_flight C c []" "c_readBuf c = []"
  shows "fst (Conn_Read C n c) = Err (stream_end c)"
proof -
  from assms(1) obtain raw where raw: "c_raw c = Some raw" "avail (nc_in raw) = []"
    by (auto simp: in_flight_def)
  then obtain raw' where "readFrame raw = (Err (r_end (nc_in raw)), raw')"
    using readFrame_spec [of raw] by (auto simp: next_frame_def short_error_def)
  with raw assms(2) show ?thesis
    by (simp add: Conn_Read_slices stream_end_def)
qed

text \<open>
  A reader that calls \<open>Read\<close> with a buffer of \<open>n\<close> bytes until it fails, at most \<open>fuel\<close> times
  (\<open>io.ReadAll\<close>): what it collected and the error that stopped it.
\<close>

fun read_all ::
  "('dsk, 'dpk, 'ksk, 'kpk) crypto \<Rightarrow> nat \<Rightarrow> nat \<Rightarrow> ('dpk, 'kpk) Conn \<Rightarrow> bytes \<times> go_error option" where
  "read_all C n 0 c = ([], None)"
| "read_all C n (Suc fuel) c =
     (case Conn_Read C n c of
        (Ok bs, c) \<Rightarrow> (case read_all C n fuel c of (rest, e) \<Rightarrow> (bs @ rest, e))
      | (Err e, c) \<Rightarrow> ([], Some e)
      | (Panic p, c) \<Rightarrow> ([], None))"

lemma read_all_ok:
  assumes "aead_laws C" "0 < n"
  shows "in_flight C c ps \<Longrightarrow> length (c_readBuf c @ concat ps) < fuel \<Longrightarrow>
    read_all C n fuel c = (c_readBuf c @ concat ps, Some (stream_end c))"
proof (induction fuel arbitrary: c ps)
  case 0
  then show ?case by simp
next
  case (Suc fuel)
  show ?case
  proof (cases "c_readBuf c @ concat ps = []")
    case True
    then have "ps = []" using Suc.prems(1) by (cases ps) (auto simp: in_flight_def record_sizes_def)
    with True Suc.prems(1) Conn_Read_end [of C c n] show ?thesis
      by (auto split: prod.splits)
  next
    case False
    from Conn_Read_progress [OF assms(1) Suc.prems(1) assms(2) False] obtain bs c' ps' where
      rd: "Conn_Read C n c = (Ok bs, c')" "bs \<noteq> []" "in_flight C c' ps'"
      "c_readBuf c @ concat ps = bs @ c_readBuf c' @ concat ps'" "stream_end c' = stream_end c"
      by blast
    obtain m where "length bs = Suc m" using rd(2) by (cases bs) auto
    with arg_cong [OF rd(4), of length] Suc.prems(2)
    have "length (c_readBuf c' @ concat ps') < fuel" by simp
    with Suc.IH [OF rd(3)] rd show ?thesis by simp
  qed
qed

end
