(* ===== verification/ChProps.thy ===== *)
theory ChProps
  imports Channel Samples "HOL-Library.Sublist"
begin

text \<open>
  The properties of the channel: what \<open>Write\<close> does on every branch, that what one side writes
  the other side reads, the end of the counter, corrupted records, and independence of the two
  directions.
\<close>

subsection \<open>Write on every branch\<close>

lemma chunks_step:
  assumes "k < length b"
  shows "chunks maxPlain (drop k b) =
    take maxPlain (drop k b) # chunks maxPlain (drop (k + length (take maxPlain (drop k b))) b)"
  using assms by (subst chunks.simps) (auto simp: min_def add.commute)

lemma writeFrame_prefix:
  assumes "writeFrame p c = (x, c')"
  shows "\<exists>s. nc_sent c' = nc_sent c @ s \<and> prefix s (frame p) \<and> (is_Ok x \<longrightarrow> s = frame p)"
proof -
  from writeFrame_sent [OF assms] obtain k where
    "nc_sent c' = nc_sent c @ take k (frame p)" "is_Ok x \<longrightarrow> length (frame p) \<le> k" by blast
  then show ?thesis by (intro exI [of _ "take k (frame p)"]) (auto simp: take_is_prefix)
qed

text \<open>The raw connection after the records of \<open>log\<close> have been written to it, one frame each.\<close>

fun send_records ::
  "('dsk, 'dpk, 'ksk, 'kpk) crypto \<Rightarrow> aead \<Rightarrow> (bytes \<times> bytes) list \<Rightarrow> net_conn \<Rightarrow> net_conn" where
  "send_records C k [] raw = raw"
| "send_records C k ((n, p) # log) raw = send_records C k log (snd (writeFrame (chacha_Seal C k n p []) raw))"

text \<open>
  What a call of \<open>Write\<close> on the pieces \<open>ps\<close> that returned \<open>(n, e)\<close> did: the first \<open>j\<close> records, which
  carry \<open>n\<close> bytes, went out whole. Then either there was nothing left, or the counter was used up
  and nothing more was sealed or sent, or the next record was sealed and its \<open>writeFrame\<close> failed
  with the error returned.
\<close>

definition write_effect ::
  "('dsk, 'dpk, 'ksk, 'kpk) crypto \<Rightarrow> bytes list \<Rightarrow> nat \<Rightarrow> go_error option \<Rightarrow> ('dpk, 'kpk) Conn \<Rightarrow>
     ('dpk, 'kpk) Conn \<Rightarrow> net_conn \<Rightarrow> net_conn \<Rightarrow> nat \<Rightarrow> bool" where
  "write_effect C ps n e c c' raw raw' j \<longleftrightarrow>
     (let s = c_writeSeq c; k = c_writeAEAD c; rawj = send_records C k (seal_log s (take j ps)) raw in
      j \<le> length ps \<and> n = length (concat (take j ps)) \<and> (e = None \<longleftrightarrow> j = length ps) \<and>
      nc_sent rawj = nc_sent raw @ wire_of C k (seal_log s (take j ps)) \<and>
      c_raw c = Some raw \<and> c_raw c' = Some raw' \<and>
      ((e = None \<or> e = Some ErrSequenceExhausted \<and> c_writeSeq c' = NOT 0) \<and> raw' = rawj \<and>
       c_sealed c' = c_sealed c @ seal_log s (take j ps) \<and> unat (c_writeSeq c') = unat s + j
       \<or> (\<exists>err. e = Some err \<and> j < length ps \<and>
           writeFrame (chacha_Seal C k (nonceFor (s + word_of_nat j)) (ps ! j) []) rawj = (Err err, raw') \<and>
           c_sealed c' = c_sealed c @ seal_log s (take (Suc j) ps) \<and> unat (c_writeSeq c') = unat s + Suc j)) \<and>
      c_readSeq c' = c_readSeq c \<and> c_readBuf c' = c_readBuf c \<and> c_readAEAD c' = c_readAEAD c \<and>
      c_writeAEAD c' = k \<and> c_remote c' = c_remote c)"

text \<open>One turn of the loop.\<close>

lemma Conn_Write_loop_step:
  assumes "k < length b" "c_raw c = Some raw" "p = take maxPlain (drop k b)"
    "c1 = c\<lparr>c_writeSeq := c_writeSeq c + 1, c_sealed := c_sealed c @ [(nonceFor (c_writeSeq c), p)]\<rparr>"
    "writeFrame (chacha_Seal C (c_writeAEAD c) (nonceFor (c_writeSeq c)) p []) raw = (x, raw')"
  shows "Conn_Write_loop C b k c =
    (if c_writeSeq c = NOT 0 then (Ok (k, Some ErrSequenceExhausted), c)
     else case x of Ok _ \<Rightarrow> Conn_Write_loop C b (k + length p) (c1\<lparr>c_raw := Some raw'\<rparr>)
                  | Err e \<Rightarrow> (Ok (k, Some e), c1\<lparr>c_raw := Some raw'\<rparr>)
                  | Panic s \<Rightarrow> (Panic s, c1\<lparr>c_raw := Some raw'\<rparr>))"
proof -
  have "take (min (k + maxPlain) (length b) - k) (drop k b) = p"
    using assms(1,3) by (simp add: min_def)
  moreover have "slice_ok (int k) (int (min (k + maxPlain) (length b))) b"
    using assms(1) by (auto simp: slice_ok_def)
  ultimately show ?thesis
    using assms by (subst Conn_Write_loop.simps) (simp add: Let_def split: outcome.splits)
qed

lemma write_effect_stop:
  "c_raw c = Some raw \<Longrightarrow> ps = [] \<and> e = None \<or> ps \<noteq> [] \<and> e = Some ErrSequenceExhausted \<and> c_writeSeq c = NOT 0 \<Longrightarrow>
     write_effect C ps 0 e c c raw raw 0"
  by (auto simp: write_effect_def Let_def)

lemma write_effect_Err:
  assumes "c_raw c = Some raw" "c_writeSeq c \<noteq> NOT 0"
    "writeFrame (chacha_Seal C (c_writeAEAD c) (nonceFor (c_writeSeq c)) p []) raw = (Err e, raw')"
    "c1 = c\<lparr>c_writeSeq := c_writeSeq c + 1, c_sealed := c_sealed c @ [(nonceFor (c_writeSeq c), p)]\<rparr>"
  shows "write_effect C (p # ps) 0 (Some e) c (c1\<lparr>c_raw := Some raw'\<rparr>) raw raw' 0"
  using assms by (simp add: write_effect_def Let_def unat_Suc_not_max)

lemma write_effect_Cons:
  assumes "c_raw c = Some raw" "c_writeSeq c \<noteq> NOT 0"
    "writeFrame (chacha_Seal C (c_writeAEAD c) (nonceFor (c_writeSeq c)) p []) raw = (Ok (), raw1)"
    "c1 = c\<lparr>c_writeSeq := c_writeSeq c + 1, c_sealed := c_sealed c @ [(nonceFor (c_writeSeq c), p)]\<rparr>"
    "write_effect C ps n e (c1\<lparr>c_raw := Some raw1\<rparr>) c' raw1 raw' j"
  shows "write_effect C (p # ps) (length p + n) e c c' raw raw' (Suc j)"
proof -
  from writeFrame_prefix [OF assms(3)] have
    "nc_sent raw1 = nc_sent raw @ frame (chacha_Seal C (c_writeAEAD c) (nonceFor (c_writeSeq c)) p [])" by auto
  moreover have "unat (1 + c_writeSeq c) = Suc (unat (c_writeSeq c))"
    using unat_Suc_not_max [OF assms(2)] by (simp add: add.commute)
  ultimately show ?thesis using assms by (auto simp: write_effect_def Let_def add_ac)
qed

lemma Conn_Write_loop_effect:
  assumes "c_raw c = Some raw" "k \<le> length b"
  shows "\<exists>n e c' raw' j. Conn_Write_loop C b k c = (Ok (k + n, e), c') \<and>
    write_effect C (chunks maxPlain (drop k b)) n e c c' raw raw' j"
  using assms
proof (induction "length b - k" arbitrary: k c raw rule: less_induct)
  case less
  note raw = less.prems(1)
  define p where "p = take maxPlain (drop k b)"
  let ?ct = "chacha_Seal C (c_writeAEAD c) (nonceFor (c_writeSeq c)) p []"
  obtain x raw' where wr: "writeFrame ?ct raw = (x, raw')" by (cases "writeFrame ?ct raw")
  let ?ps = "chunks maxPlain (drop (k + length p) b)"
  let ?c2 = "c\<lparr>c_writeSeq := c_writeSeq c + 1, c_sealed := c_sealed c @ [(nonceFor (c_writeSeq c), p)],
    c_raw := Some raw'\<rparr>"
  consider (fin) "k = length b" | (full) "k < length b" "c_writeSeq c = NOT 0"
    | (err) e where "k < length b" "c_writeSeq c \<noteq> NOT 0" "x = Err e"
    | (ok) "k < length b" "c_writeSeq c \<noteq> NOT 0" "x = Ok ()"
    using less.prems(2) writeFrame_not_Panic [of ?ct raw] wr by (cases x) fastforce+
  then show ?case
  proof cases
    case fin
    then have "Conn_Write_loop C b k c = (Ok (k + 0, None), c)" "chunks maxPlain (drop k b) = []"
      by (simp_all add: Conn_Write_loop.simps chunks.simps [of _ "[]"])
    with write_effect_stop [OF raw, of "[]" None C] show ?thesis by metis
  next
    case full
    have "Conn_Write_loop C b k c = (Ok (k + 0, Some ErrSequenceExhausted), c)"
      using Conn_Write_loop_step [OF full(1) raw p_def refl wr] full(2) by simp
    moreover have "write_effect C (chunks maxPlain (drop k b)) 0 (Some ErrSequenceExhausted) c c raw raw 0"
      by (rule write_effect_stop [OF raw]) (use chunks_step [OF full(1)] full(2) in simp)
    ultimately show ?thesis by blast
  next
    case err
    have "Conn_Write_loop C b k c = (Ok (k + 0, Some e), ?c2)"
      using Conn_Write_loop_step [OF err(1) raw p_def refl wr] err(2,3) by simp
    moreover have "write_effect C (chunks maxPlain (drop k b)) 0 (Some e) c ?c2 raw raw' 0"
      using write_effect_Err [OF raw err(2) wr [unfolded err(3)] refl] chunks_step [OF err(1), folded p_def] by simp
    ultimately show ?thesis by blast
  next
    case ok
    have k: "length b - (k + length p) < length b - k" "k + length p \<le> length b"
      using ok(1) maxPlain_pos by (auto simp: p_def min_def simp del: maxPlain_pos)
    from less.hyps [OF k(1) _ k(2), of ?c2 raw'] obtain n e c' raw2 j where
      r: "Conn_Write_loop C b (k + length p) ?c2 = (Ok (k + length p + n, e), c')"
      "write_effect C ?ps n e ?c2 c' raw' raw2 j" by auto
    have "Conn_Write_loop C b k c = (Ok (k + (length p + n), e), c')"
      using Conn_Write_loop_step [OF ok(1) raw p_def refl wr] ok r(1) by (simp add: add.assoc)
    moreover have "write_effect C (chunks maxPlain (drop k b)) (length p + n) e c c' raw raw2 (Suc j)"
      using write_effect_Cons [OF raw ok(2) wr [unfolded ok(3)] refl r(2)] chunks_step [OF ok(1), folded p_def] by simp
    ultimately show ?thesis by blast
  qed
qed

lemma Conn_Write_effect:
  assumes "c_raw c \<noteq> None"
  shows "\<exists>n e c' raw raw' j. Conn_Write C b c = (Ok (n, e), c') \<and>
    write_effect C (chunks maxPlain b) n e c c' raw raw' j"
proof -
  from assms obtain raw where "c_raw c = Some raw" by blast
  from Conn_Write_loop_effect [OF this, of 0 b C] show ?thesis by (simp add: Conn_Write_def) blast
qed

text \<open>The consequences the other theories use.\<close>

lemma write_effect_frame:
  assumes "write_effect C ps n e c c' raw raw' j"
  shows "c_readSeq c' = c_readSeq c" "c_readBuf c' = c_readBuf c" "c_readAEAD c' = c_readAEAD c"
    "c_raw c = Some raw" "c_raw c' = Some raw'" "\<exists>ext. c_sealed c' = c_sealed c @ ext"
  using assms by (auto simp: write_effect_def Let_def)

lemma length_seal_log [simp]: "length (seal_log s ps) = length ps"
  by (metis length_map map_snd_seal_log)

lemma write_effect_count:
  assumes "write_effect C ps n e c c' raw raw' j"
  shows "unat (c_writeSeq c') + length (c_sealed c) = unat (c_writeSeq c) + length (c_sealed c')"
  using assms by (auto simp: write_effect_def Let_def)

lemma concat_take_prefix: "j \<le> m \<Longrightarrow> prefix (concat (take j ps)) (concat (take m ps))"
  by (metis concat_append le_iff_add prefixI take_add)

lemma concat_take_full:
  assumes "record_sizes ps" "j \<le> length ps"
  shows "length (concat (take j ps)) = length (concat ps) \<longleftrightarrow> j = length ps"
proof
  assume "length (concat (take j ps)) = length (concat ps)"
  then have "concat (drop j ps) = []"
    by (metis append_take_drop_id concat_append append_self_conv append_eq_conv_conj take_all order_refl)
  then have "drop j ps = []"
    using assms(1) by (cases "drop j ps") (auto simp: record_sizes_def list_all_iff dest: in_set_dropD
        intro: ccontr, metis in_set_dropD list.set_intros(1))
  with assms(2) show "j = length ps" by simp
qed simp

text \<open>C10: what \<open>Write\<close> does on every branch, whatever the connection does. It cuts \<open>b\<close> into pieces of
  at most \<open>maxPlain\<close> bytes and returns \<open>(n, err)\<close>, where the \<open>n\<close> bytes are those of the first \<open>j\<close>
  pieces, \<open>err\<close> is nil exactly when \<open>n = len(b)\<close>, and the frames of those \<open>j\<close> records, sealed under
  consecutive counter values, are on the wire whole. On success nothing else is sealed or sent.
  The error is either \<open>ErrSequenceExhausted\<close>, with the counter at its last value and nothing else
  sealed or sent, or it is the error of writing the frame of the next record to the connection
  as the first \<open>j\<close> left it: that record has used its counter value, and at most its frame was sent.\<close>

theorem Write_every_branch:
  assumes "c_raw c = Some raw" "ps = chunks maxPlain b"
  shows "\<exists>n e c' raw' j rawj. Conn_Write C b c = (Ok (n, e), c') \<and> c_raw c' = Some raw' \<and>
    n \<le> length b \<and> take n b = concat (take j ps) \<and> j \<le> length ps \<and> (e = None \<longleftrightarrow> n = length b) \<and>
    rawj = send_records C (c_writeAEAD c) (seal_log (c_writeSeq c) (take j ps)) raw \<and>
    nc_sent rawj = nc_sent raw @ wire_of C (c_writeAEAD c) (seal_log (c_writeSeq c) (take j ps)) \<and>
    ((e = None \<or> e = Some ErrSequenceExhausted \<and> c_writeSeq c' = 2 ^ 64 - 1) \<and> raw' = rawj \<and>
     c_sealed c' = c_sealed c @ seal_log (c_writeSeq c) (take j ps) \<and> unat (c_writeSeq c') = unat (c_writeSeq c) + j
     \<or> (\<exists>err ct. e = Some err \<and> j < length ps \<and>
         ct = chacha_Seal C (c_writeAEAD c) (nonceFor (c_writeSeq c + word_of_nat j)) (ps ! j) [] \<and>
         writeFrame ct rawj = (Err err, raw') \<and>
         prefix (nc_sent rawj) (nc_sent raw') \<and> prefix (nc_sent raw') (nc_sent rawj @ frame ct) \<and>
         c_sealed c' = c_sealed c @ seal_log (c_writeSeq c) (take (Suc j) ps) \<and>
         unat (c_writeSeq c') = unat (c_writeSeq c) + Suc j))"
proof -
  from Conn_Write_loop_effect [OF assms(1), of 0 b C] assms(2) obtain n e c' raw' j where
    w: "Conn_Write C b c = (Ok (n, e), c')" and f: "write_effect C ps n e c c' raw raw' j"
    by (auto simp: Conn_Write_def)
  let ?rawj = "send_records C (c_writeAEAD c) (seal_log (c_writeSeq c) (take j ps)) raw"
  have jn: "j \<le> length ps" "n = length (concat (take j ps))" "e = None \<longleftrightarrow> j = length ps"
    using f by (auto simp: write_effect_def Let_def)
  have pre: "prefix (concat (take j ps)) b"
    using concat_take_prefix [of j "length ps" ps] jn(1) assms(2) by simp
  have n: "take n b = concat (take j ps)" "n \<le> length b" "e = None \<longleftrightarrow> n = length b"
    using pre jn(2,3) concat_take_full [OF record_sizes_chunks, of j b] jn(1) assms(2)
    by (metis append_eq_conv_conj prefixE, simp add: prefix_length_le, simp)
  have pf: "writeFrame q r = (Err err, r') \<Longrightarrow> prefix (nc_sent r) (nc_sent r') \<and> prefix (nc_sent r') (nc_sent r @ frame q)"
    for q r err r' using writeFrame_prefix [of q r "Err err" r'] by (auto simp: same_prefix_prefix)
  have max: "(2::64 word) ^ 64 - 1 = NOT 0" by simp
  note f' = f [unfolded write_effect_def Let_def]
  show ?thesis
    unfolding max
    by (rule exI [of _ n], rule exI [of _ e], rule exI [of _ c'], rule exI [of _ raw'], rule exI [of _ j],
        rule exI [of _ ?rawj]) (use f' w n pf in blast)
qed

text \<open>A channel end over the sample packages, with 32-byte keys and counters at \<open>s\<close>.\<close>

definition toy_conn :: "net_conn \<Rightarrow> 64 word \<Rightarrow> (bytes, bytes) Conn" where
  "toy_conn raw s =
     \<lparr>c_raw = Some raw, c_remote = toy_pub 1, c_readAEAD = replicate 32 5, c_readSeq = s, c_readBuf = [],
      c_writeAEAD = replicate 32 5, c_writeSeq = s, c_sealed = []\<rparr>"

lemma toy_conn_simps [simp]:
  "c_raw (toy_conn raw s) = Some raw" "c_readAEAD (toy_conn raw s) = replicate 32 5"
  "c_readSeq (toy_conn raw s) = s" "c_readBuf (toy_conn raw s) = []"
  "c_writeAEAD (toy_conn raw s) = replicate 32 5" "c_writeSeq (toy_conn raw s) = s"
  by (simp_all add: toy_conn_def)

theorem Write_every_branch_witness:
  "\<exists>n e c'. Conn_Write toy_crypto [1, 2, 3] (toy_conn ((fresh_conn [] EOF)\<lparr>nc_room := Some 7\<rparr>) 0) = (Ok (n, e), c') \<and>
    n \<le> 3 \<and> (e = None \<longleftrightarrow> n = 3)"
proof -
  let ?raw = "(fresh_conn [] EOF)\<lparr>nc_room := Some 7\<rparr>"
  have "c_raw (toy_conn ?raw 0) = Some ?raw" by simp
  from Write_every_branch [OF this refl, of toy_crypto "[1, 2, 3]"] show ?thesis by auto
qed

subsection \<open>What is written is read\<close>

lemma in_flight_writes:
  assumes "aead_laws C" "length (c_writeAEAD a) = 32" "c_raw a = Some raw" "accepts raw"
    "unat (c_writeSeq a) + length (all_chunks bs) < 2 ^ 64"
    "c_readAEAD b = c_writeAEAD a" "c_readSeq b = c_writeSeq a" "c_raw b = Some rawB"
    "c_raw (Conn_writes C bs a) = Some raw'" "nc_sent raw' = nc_sent raw @ avail (nc_in rawB)"
  shows "in_flight C b (all_chunks bs)"
  using Conn_writes_ok [OF assms(1-5)] assms(2,5-) record_sizes_all_chunks
  by (auto simp: in_flight_def)

text \<open>C7: whatever sequence of buffers one end writes, a peer that holds the same key and counter and
  is handed, in any segmentation, the bytes these writes put on the wire reads exactly the
  concatenation of those buffers, whatever the size of its own buffer, and then the error with which the stream ends. A reader needs at most one call more
  than there are bytes.\<close>

theorem channel_roundtrip:
  assumes "aead_laws C" "length (c_writeAEAD a) = 32" "c_raw a = Some raw" "accepts raw"
    and "unat (c_writeSeq a) + length (all_chunks bs) < 2 ^ 64"
    and "c_readAEAD b = c_writeAEAD a" "c_readSeq b = c_writeSeq a" "c_readBuf b = []" "c_raw b = Some rawB"
    and "c_raw (Conn_writes C bs a) = Some raw'" "nc_sent raw' = nc_sent raw @ avail (nc_in rawB)"
    and "0 < n" "length (concat bs) < fuel"
  shows "read_all C n fuel b = (concat bs, Some (r_end (nc_in rawB)))"
  using read_all_ok [OF assms(1,12) in_flight_writes [OF assms(1-7,9-11)], of fuel] assms(8,9,13)
  by (simp add: stream_end_def)

lemma chunks_small:
  assumes "xs \<noteq> []" "length xs \<le> maxPlain"
  shows "chunks maxPlain xs = [xs]"
  using assms maxPlain_pos by (subst chunks.simps) (auto simp: chunks.simps [of _ "[]"])

lemma maxPlain_ge: "4 \<le> maxPlain"
  by (simp add: maxPlain_def MaxFrameSize_def size_simps)

lemma toy_aead: "aead_laws toy_crypto"
  using crypto_lawsD(8) [OF toy_crypto_laws] .

theorem channel_roundtrip_witness:
  "\<exists>wire. c_raw (Conn_writes toy_crypto [[1, 2, 3], [4]] (toy_conn (fresh_conn [] EOF) 6)) = Some wire \<and>
    read_all toy_crypto 2 10 (toy_conn (fresh_conn [nc_sent wire] EOF) 6) = ([1, 2, 3, 4], Some EOF)"
proof -
  let ?a = "toy_conn (fresh_conn [] EOF) 6"
  have few: "chunks maxPlain [1, 2, 3] = [[1, 2, 3 :: byte]]" "chunks maxPlain [4] = [[4 :: byte]]"
    using maxPlain_ge by (simp_all add: chunks_small)
  obtain wire where w: "c_raw (Conn_writes toy_crypto [[1, 2, 3], [4]] ?a) = Some wire"
    using Conn_writes_ok [OF toy_aead, of ?a "fresh_conn [] EOF" "[[1, 2, 3], [4]]"] few by simp
  have "read_all toy_crypto 2 10 (toy_conn (fresh_conn [nc_sent wire] EOF) 6) =
      (concat [[1, 2, 3], [4]], Some (r_end (nc_in (fresh_conn [nc_sent wire] EOF))))"
    by (rule channel_roundtrip [OF toy_aead, of ?a "fresh_conn [] EOF"]) (simp_all add: few w)
  with w show ?thesis by (simp add: fresh_conn_def)
qed

subsection \<open>The end of the counter and forged records\<close>

lemma Conn_Write_exhausted:
  assumes "b \<noteq> []" "c_writeSeq c = NOT 0"
  shows "Conn_Write C b c = (Ok (0, Some ErrSequenceExhausted), c)"
proof -
  have "slice_ok 0 (int (min maxPlain (length b))) b" by (simp add: slice_ok_def)
  with assms show ?thesis by (simp add: Conn_Write_def Conn_Write_loop.simps Let_def)
qed

lemma Conn_Read_count:
  "unat (c_readSeq (snd (Conn_Read C n c))) =
     unat (c_readSeq c) + (if c_readBuf c = [] \<and> is_Ok (fst (Conn_Read C n c)) then 1 else 0)"
  "c_writeSeq (snd (Conn_Read C n c)) = c_writeSeq c"
  using unat_Suc_not_max [of "c_readSeq c"]
  by (auto simp: Conn_Read_slices Let_def nil_panic_def split: option.splits prod.splits outcome.splits)

text \<open>C32: no counter ever wraps. With the write counter at \<open>2^64 - 1\<close>, whatever the read counter is,
  \<open>Write\<close> of a non-empty buffer returns \<open>(0, ErrSequenceExhausted)\<close> and neither seals nor sends
  anything; with the read counter there, whatever the write counter is, \<open>Read\<close> consumes the frame,
  returns \<open>ErrSequenceExhausted\<close> and leaves the counter where it is. In every other state the
  counters, read as numbers, only grow: \<open>Write\<close> adds the number of records it sealed to its own
  and leaves the other, \<open>Read\<close> adds one to its own exactly when it took a record off the wire and
  returned it, and leaves the other.\<close>

theorem counter_never_wraps:
  assumes "c_raw c = Some raw"
  shows "(b \<noteq> [] \<and> c_writeSeq c = 2 ^ 64 - 1 \<longrightarrow> Conn_Write C b c = (Ok (0, Some ErrSequenceExhausted), c)) \<and>
    (c_readBuf c = [] \<and> readFrame raw = (Ok f, raw') \<and> c_readSeq c = 2 ^ 64 - 1 \<longrightarrow>
      Conn_Read C n c = (Err ErrSequenceExhausted, c\<lparr>c_raw := Some raw'\<rparr>)) \<and>
    (\<exists>records. c_sealed (snd (Conn_Write C b c)) = c_sealed c @ records \<and>
      unat (c_writeSeq (snd (Conn_Write C b c))) = unat (c_writeSeq c) + length records) \<and>
    c_readSeq (snd (Conn_Write C b c)) = c_readSeq c \<and>
    unat (c_readSeq (snd (Conn_Read C n c))) =
      unat (c_readSeq c) + (if c_readBuf c = [] \<and> is_Ok (fst (Conn_Read C n c)) then 1 else 0) \<and>
    c_writeSeq (snd (Conn_Read C n c)) = c_writeSeq c"
proof (intro conjI impI Conn_Read_count)
  have max: "(2::64 word) ^ 64 - 1 = NOT 0" by simp
  show "Conn_Write C b c = (Ok (0, Some ErrSequenceExhausted), c)" if "b \<noteq> [] \<and> c_writeSeq c = 2 ^ 64 - 1"
    using Conn_Write_exhausted that unfolding max by blast
  show "Conn_Read C n c = (Err ErrSequenceExhausted, c\<lparr>c_raw := Some raw'\<rparr>)"
    if "c_readBuf c = [] \<and> readFrame raw = (Ok f, raw') \<and> c_readSeq c = 2 ^ 64 - 1"
    using that assms unfolding max by (simp add: Conn_Read_slices)
  have "c_raw c \<noteq> None" using assms by simp
  from Conn_Write_effect [OF this, of C b] obtain m e c' r r' j where
    w: "Conn_Write C b c = (Ok (m, e), c')" and f: "write_effect C (chunks maxPlain b) m e c c' r r' j" by blast
  from write_effect_frame(6) [OF f] write_effect_count [OF f]
  show "\<exists>records. c_sealed (snd (Conn_Write C b c)) = c_sealed c @ records \<and>
      unat (c_writeSeq (snd (Conn_Write C b c))) = unat (c_writeSeq c) + length records"
    unfolding w by auto
  show "c_readSeq (snd (Conn_Write C b c)) = c_readSeq c" unfolding w using write_effect_frame(1) [OF f] by simp
qed

text \<open>C24: a record that does not authenticate is reported as \<open>ErrCiphertextCorrupted\<close> and changes
  neither the counter nor the buffer: a peer that keeps reading still receives every genuine
  record behind it, whole and in order.\<close>

theorem forged_record_skipped:
  assumes "aead_laws C" "0 < n" "c_readBuf c = []" "c_raw c = Some raw" "fits junk"
    and "avail (nc_in raw) = frame junk @ rest"
    and "chacha_Open C (c_readAEAD c) (nonceFor (c_readSeq c)) junk [] = None"
    and "rest = wire_of C (c_readAEAD c) (seal_log (c_readSeq c) ps)" "record_sizes ps"
    and "unat (c_readSeq c) + length ps < 2 ^ 64" "c_readSeq c \<noteq> NOT 0" "length (c_readAEAD c) = 32"
    and "length (concat ps) < fuel"
  shows "\<exists>c'. Conn_Read C n c = (Err ErrCiphertextCorrupted, c') \<and> c_readSeq c' = c_readSeq c \<and>
    read_all C n fuel c' = (concat ps, Some (r_end (nc_in raw)))"
proof -
  from readFrame_Ok [OF assms(6,5)] obtain r where
    r: "readFrame raw = (Ok junk, raw\<lparr>nc_in := r\<rparr>)" "avail r = rest" "r_end r = r_end (nc_in raw)" by blast
  let ?c' = "c\<lparr>c_raw := Some (raw\<lparr>nc_in := r\<rparr>)\<rparr>"
  have "Conn_Read C n c = (Err ErrCiphertextCorrupted, ?c')"
    using assms(3,4,7,11) r(1) by (simp add: Conn_Read_slices)
  moreover have "in_flight C ?c' ps" using r(2) assms(8-10,12) by (simp add: in_flight_def)
  from read_all_ok [OF assms(1,2) this, of fuel] assms(3,13) r(3)
  have "read_all C n fuel ?c' = (concat ps, Some (r_end (nc_in raw)))" by (simp add: stream_end_def)
  ultimately show ?thesis by auto
qed

theorem counter_never_wraps_witness:
  "Conn_Write toy_crypto [1] ((toy_conn (fresh_conn [] EOF) 0)\<lparr>c_writeSeq := - 1\<rparr>) =
     (Ok (0, Some ErrSequenceExhausted), (toy_conn (fresh_conn [] EOF) 0)\<lparr>c_writeSeq := - 1\<rparr>) \<and>
   fst (Conn_Read toy_crypto 4 ((toy_conn (fresh_conn [frame [9]] EOF) 0)\<lparr>c_readSeq := - 1\<rparr>)) = Err ErrSequenceExhausted"
proof -
  let ?cw = "(toy_conn (fresh_conn [] EOF) 0)\<lparr>c_writeSeq := - 1\<rparr>"
  let ?cr = "(toy_conn (fresh_conn [frame [9]] EOF) 0)\<lparr>c_readSeq := - 1\<rparr>"
  have "fits [9]" by (simp add: fits_def MaxFrameSize_def)
  then obtain raw' where r: "readFrame (fresh_conn [frame [9]] EOF) = (Ok [9], raw')"
    using readFrame_Ok [of "fresh_conn [frame [9]] EOF" "[9]" "[]"] by auto
  have raw: "c_raw ?cw = Some (fresh_conn [] EOF)" "c_raw ?cr = Some (fresh_conn [frame [9]] EOF)" by simp_all
  have max: "(2::64 word) ^ 64 - 1 = - 1" by simp
  have "Conn_Write toy_crypto [1] ?cw = (Ok (0, Some ErrSequenceExhausted), ?cw)"
    using conjunct1 [OF counter_never_wraps [OF raw(1), of "[1]" toy_crypto]] unfolding max by simp
  moreover have "Conn_Read toy_crypto 4 ?cr = (Err ErrSequenceExhausted, ?cr\<lparr>c_raw := Some raw'\<rparr>)"
    using conjunct1 [OF conjunct2 [OF counter_never_wraps [OF raw(2), of "[1]" toy_crypto "[9]" raw' 4]]] r
    unfolding max by simp
  ultimately show ?thesis by simp
qed

theorem forged_record_skipped_witness:
  "\<exists>c'. Conn_Read toy_crypto 2 (toy_conn (fresh_conn [frame [9]] EOF) 3) = (Err ErrCiphertextCorrupted, c') \<and>
    read_all toy_crypto 2 1 c' = ([], Some EOF)"
proof -
  let ?raw = "fresh_conn [frame [9]] EOF"
  have op: "chacha_Open toy_crypto (replicate 32 5) (nonceFor 3) [9] [] = None"
    by (simp add: toy_crypto_def)
  have "\<exists>c'. Conn_Read toy_crypto 2 (toy_conn ?raw 3) = (Err ErrCiphertextCorrupted, c') \<and>
      c_readSeq c' = c_readSeq (toy_conn ?raw 3) \<and> read_all toy_crypto 2 1 c' = (concat [], Some (r_end (nc_in ?raw)))"
    by (rule forged_record_skipped [OF toy_aead, of 2 _ ?raw "[9]" "[]"])
      (simp_all add: op fits_def MaxFrameSize_def record_sizes_def)
  then show ?thesis by (auto simp: fresh_conn_def)
qed

end
