(* ===== verification/ChanSys.thy ===== *)
theory ChanSys
  imports ChProps
begin

text \<open>
  The channel as a transition system. \<open>conn_step\<close> lets one end perform any operation in any
  order while the network does anything to its raw connection: no nonce is ever used twice.
  \<open>link_step\<close> joins a writing end and a reading end through an adversary who may drop, reorder,
  replay, cut and inject bytes: what the reader delivers is a prefix of what the writer sealed.
  Both are instances of \<open>invariant_system\<close>. The last section shows that \<open>Read\<close> and \<open>Write\<close>
  commute, which is what the two mutexes of the source rely on.
\<close>

subsection \<open>One end\<close>

inductive conn_step ::
  "('dsk, 'dpk, 'ksk, 'kpk) crypto \<Rightarrow> ('dpk, 'kpk) Conn \<Rightarrow> ('dpk, 'kpk) Conn \<Rightarrow> bool" for C where
  step_Read: "Conn_Read C n c = (x, c') \<Longrightarrow> conn_step C c c'"
| step_Write: "Conn_Write C b c = (y, c') \<Longrightarrow> conn_step C c c'"
| step_Close: "Conn_Close c = (z, c') \<Longrightarrow> conn_step C c c'"
| step_SetDeadline: "Conn_SetDeadline t c = (z, c') \<Longrightarrow> conn_step C c c'"
| step_SetReadDeadline: "Conn_SetReadDeadline t c = (z, c') \<Longrightarrow> conn_step C c c'"
| step_SetWriteDeadline: "Conn_SetWriteDeadline t c = (z, c') \<Longrightarrow> conn_step C c c'"
| step_network: "conn_step C c (c\<lparr>c_raw := Some raw\<rparr>)"

definition fresh_end :: "('dpk, 'kpk) Conn \<Rightarrow> bool" where
  "fresh_end c \<longleftrightarrow> (\<exists>raw res i res'. newConn raw res i = (Ok c, res'))"

lemma on_raw_inv: "conn_inv c \<Longrightarrow> on_raw f c = (x, c') \<Longrightarrow> conn_inv c'"
  by (auto simp: on_raw_def split: option.splits prod.splits)

lemmas raw_op_defs = Conn_SetDeadline_def Conn_SetReadDeadline_def Conn_SetWriteDeadline_def Conn_Close_def

lemma conn_step_inv:
  assumes "conn_inv c" "conn_step C c c'"
  shows "conn_inv c'"
  using assms(2)
proof (cases rule: conn_step.cases)
  case (step_Read n x)
  then show ?thesis using Conn_Read_inv [OF assms(1), of C n] by simp
next
  case (step_Write b y)
  then show ?thesis using Conn_Write_inv [OF assms(1), of C b] by simp
qed (use assms(1) in \<open>auto simp: raw_op_defs split: if_splits intro: on_raw_inv\<close>)

interpretation cs: invariant_system fresh_end "conn_step C" conn_inv
  for C :: "('dsk, 'dpk, 'ksk, 'kpk) crypto"
  by unfold_locales (auto simp: fresh_end_def intro: newConn_inv conn_step_inv)

text \<open>C4: from a fresh connection, whatever sequence of operations the program performs (reads, writes
  that fail half-way, closes, deadlines) and whatever the network does in between, no two records
  are sealed with the same nonce: the \<open>i\<close>-th record carries the nonce of counter value \<open>i\<close>, and
  there are as many records as the counter says.\<close>

theorem nonces_never_repeat:
  assumes "newConn raw res i = (Ok c, res')" "(conn_step C)\<^sup>*\<^sup>* c c'"
  shows "distinct (map fst (c_sealed c')) \<and> length (c_sealed c') = unat (c_writeSeq c') \<and>
    (\<forall>k < length (c_sealed c'). fst (c_sealed c' ! k) = nonceFor (word_of_nat k))"
proof -
  have inv: "conn_inv c'"
    using cs.inv_reachable [OF _ assms(2)] assms(1) by (auto simp: fresh_end_def)
  then have m: "map fst (c_sealed c') = map (\<lambda>i. nonceFor (word_of_nat i)) [0..<unat (c_writeSeq c')]"
    by (simp add: conn_inv_def)
  have len: "length (c_sealed c') = unat (c_writeSeq c')" using arg_cong [OF m, of length] by simp
  have "fst (c_sealed c' ! k) = nonceFor (word_of_nat k)" if "k < length (c_sealed c')" for k
    using arg_cong [OF m, of "\<lambda>l. l ! k"] that len by simp
  with conn_inv_distinct [OF inv] len show ?thesis by blast
qed

theorem nonces_never_repeat_witness:
  "\<exists>c c' res'. newConn (fresh_conn [] EOF) (hs_result toy_crypto (replicate 32 9) (toy_pub 1)) True = (Ok c, res') \<and>
    Conn_Write toy_crypto [1] c = (Ok (1, None), c') \<and> map fst (c_sealed c') = [nonceFor 0]"
proof -
  let ?res = "hs_result toy_crypto (replicate 32 9) (toy_pub 1)"
  obtain c res' where n: "newConn (fresh_conn [] EOF) ?res True = (Ok c, res')"
    and c: "c_writeSeq c = 0" "c_raw c = Some (fresh_conn [] EOF)" "length (c_writeAEAD c) = 32"
    by (auto simp: newConn_def)
  have few: "chunks maxPlain [1] = [[1 :: byte]]" using maxPlain_ge by (simp add: chunks_small)
  obtain c' where w: "Conn_Write toy_crypto [1] c = (Ok (1, None), c')" "c_writeSeq c' = 1"
    using Conn_Write_ok [OF toy_aead c(3,2), of "[1]"] by (simp add: c few)
  then have "(conn_step toy_crypto)\<^sup>*\<^sup>* c c'" by (blast intro: step_Write)
  from nonces_never_repeat [OF n this] w(2) have "length (c_sealed c') = 1" "fst (c_sealed c' ! 0) = nonceFor 0"
    by auto
  then have "map fst (c_sealed c') = [nonceFor 0]" by (cases "c_sealed c'") auto
  then show ?thesis using n w(1) by (intro exI [of _ c] exI [of _ c'] exI [of _ res']) simp
qed

subsection \<open>A writer and a reader with an adversary between them\<close>

record ('dpk, 'kpk) link =
  l_writer :: "('dpk, 'kpk) Conn"
  l_reader :: "('dpk, 'kpk) Conn"
  l_delivered :: bytes

text \<open>
  The AEAD assumption (integrity of ciphertexts): if the frame the reader is about to process
  opens under its key at its current nonce, the writer sealed that plaintext with that nonce.
\<close>

definition unforged ::
  "('dsk, 'dpk, 'ksk, 'kpk) crypto \<Rightarrow> ('dpk, 'kpk) Conn \<Rightarrow> ('dpk, 'kpk) Conn \<Rightarrow> bool" where
  "unforged C a b \<longleftrightarrow>
     (case c_raw b of
        None \<Rightarrow> True
      | Some raw \<Rightarrow>
          (case fst (readFrame raw) of
             Ok f \<Rightarrow>
               (case chacha_Open C (c_readAEAD b) (nonceFor (c_readSeq b)) f [] of
                  None \<Rightarrow> True
                | Some p \<Rightarrow> (nonceFor (c_readSeq b), p) \<in> set (c_sealed a))
           | _ \<Rightarrow> True))"

definition delivered :: "bytes result \<Rightarrow> bytes" where
  "delivered x = (case x of Ok bs \<Rightarrow> bs | _ \<Rightarrow> [])"

inductive link_step ::
  "('dsk, 'dpk, 'ksk, 'kpk) crypto \<Rightarrow> ('dpk, 'kpk) link \<Rightarrow> ('dpk, 'kpk) link \<Rightarrow> bool" for C where
  link_writer: "conn_step C (l_writer s) a' \<Longrightarrow> link_step C s (s\<lparr>l_writer := a'\<rparr>)"
| link_read: "unforged C (l_writer s) (l_reader s) \<Longrightarrow> Conn_Read C n (l_reader s) = (x, b') \<Longrightarrow>
    link_step C s (s\<lparr>l_reader := b', l_delivered := l_delivered s @ delivered x\<rparr>)"
| link_reader_writes: "Conn_Write C bs (l_reader s) = (y, b') \<Longrightarrow> link_step C s (s\<lparr>l_reader := b'\<rparr>)"
| link_network: "link_step C s (s\<lparr>l_reader := (l_reader s)\<lparr>c_raw := Some raw\<rparr>\<rparr>)"

definition fresh_link :: "('dpk, 'kpk) link \<Rightarrow> bool" where
  "fresh_link s \<longleftrightarrow> fresh_end (l_writer s) \<and> fresh_end (l_reader s) \<and> l_delivered s = []"

text \<open>
  What was delivered and what waits in the reader's buffer are the plaintexts of the first
  \<open>readSeq\<close> records the writer sealed.
\<close>

definition link_inv :: "('dpk, 'kpk) link \<Rightarrow> bool" where
  "link_inv s \<longleftrightarrow> conn_inv (l_writer s) \<and> conn_inv (l_reader s) \<and>
     unat (c_readSeq (l_reader s)) \<le> length (c_sealed (l_writer s)) \<and>
     l_delivered s @ c_readBuf (l_reader s) =
       concat (map snd (take (unat (c_readSeq (l_reader s))) (c_sealed (l_writer s))))"

lemma sealed_at:
  assumes "conn_inv a" "(nonceFor s, p) \<in> set (c_sealed a)"
  shows "unat s < length (c_sealed a) \<and> c_sealed a ! unat s = (nonceFor s, p)"
proof -
  have m: "map fst (c_sealed a) = map (\<lambda>i. nonceFor (word_of_nat i)) [0..<unat (c_writeSeq a)]"
    using assms(1) by (simp add: conn_inv_def)
  from assms(2) obtain i where i: "i < length (c_sealed a)" "c_sealed a ! i = (nonceFor s, p)"
    by (auto simp: in_set_conv_nth)
  have len: "length (c_sealed a) = unat (c_writeSeq a)" using arg_cong [OF m, of length] by simp
  have "nonceFor (word_of_nat i) = nonceFor s" using arg_cong [OF m, of "\<lambda>l. l ! i"] i len by simp
  moreover have "unat (c_writeSeq a) < 2 ^ LENGTH(64)" "unat s < 2 ^ LENGTH(64)" by (rule unsigned_less)+
  ultimately have "(word_of_nat i :: 64 word) = word_of_nat (unat s)" "i < 2 ^ LENGTH(64)" "unat s < 2 ^ LENGTH(64)"
    using i(1) len by simp_all
  then have "i = unat s" using word_of_nat_inj_lt by blast
  with i show ?thesis by simp
qed

lemma conn_step_sealed:
  assumes "conn_inv c" "conn_step C c c'"
  shows "\<exists>ext. c_sealed c' = c_sealed c @ ext"
  using assms(2)
proof (cases rule: conn_step.cases)
  case (step_Read n x)
  then show ?thesis
    by (auto simp: Conn_Read_slices Let_def split: option.splits prod.splits outcome.splits if_splits)
next
  case (step_Write b y)
  then show ?thesis
    using Conn_Write_effect [of c C b] assms(1) by (auto simp: conn_inv_def dest: write_effect_frame(6))
qed (auto simp: raw_op_defs on_raw_def split: option.splits prod.splits if_splits)

text \<open>A read that succeeds either empties the buffer further or takes the next record.\<close>

lemma Conn_Read_link:
  assumes "Conn_Read C n b = (x, b')"
  shows "c_readSeq b' = c_readSeq b \<and> delivered x @ c_readBuf b' = c_readBuf b \<or>
    (\<exists>p raw f. c_readBuf b = [] \<and> c_readSeq b \<noteq> NOT 0 \<and> c_readSeq b' = c_readSeq b + 1 \<and>
       delivered x @ c_readBuf b' = p \<and> c_raw b = Some raw \<and> fst (readFrame raw) = Ok f \<and>
       chacha_Open C (c_readAEAD b) (nonceFor (c_readSeq b)) f [] = Some p)"
  using assms
  by (auto simp: Conn_Read_slices Let_def delivered_def nil_panic_def
      split: option.splits prod.splits outcome.splits if_splits)

lemma link_inv_read:
  assumes "link_inv s" "unforged C (l_writer s) (l_reader s)" "Conn_Read C n (l_reader s) = (x, b')"
  shows "link_inv (s\<lparr>l_reader := b', l_delivered := l_delivered s @ delivered x\<rparr>)"
proof -
  let ?a = "l_writer s" and ?b = "l_reader s"
  have cb: "conn_inv b'" using Conn_Read_inv [of ?b C n] assms(1,3) by (simp add: link_inv_def)
  from Conn_Read_link [OF assms(3)] show ?thesis
  proof (elim disjE exE conjE)
    assume "c_readSeq b' = c_readSeq ?b" "delivered x @ c_readBuf b' = c_readBuf ?b"
    then show ?thesis using assms(1) cb by (simp add: link_inv_def)
  next
    fix p raw f
    assume b: "c_readBuf ?b = []" "c_readSeq ?b \<noteq> NOT 0" "c_readSeq b' = c_readSeq ?b + 1"
      "delivered x @ c_readBuf b' = p"
      and "c_raw ?b = Some raw" "fst (readFrame raw) = Ok f"
      "chacha_Open C (c_readAEAD ?b) (nonceFor (c_readSeq ?b)) f [] = Some p"
    then have "(nonceFor (c_readSeq ?b), p) \<in> set (c_sealed ?a)" using assms(2) by (simp add: unforged_def)
    with assms(1) have at: "unat (c_readSeq ?b) < length (c_sealed ?a)"
      "c_sealed ?a ! unat (c_readSeq ?b) = (nonceFor (c_readSeq ?b), p)"
      using sealed_at by (auto simp: link_inv_def)
    have "unat (c_readSeq b') = Suc (unat (c_readSeq ?b))" using unat_Suc_not_max [OF b(2)] b(3) by simp
    with at b(1,4) assms(1) cb show ?thesis by (simp add: link_inv_def take_Suc_conv_app_nth)
  qed
qed

lemma link_step_inv:
  assumes "link_inv s" "link_step C s t"
  shows "link_inv t"
  using assms(2)
proof (cases rule: link_step.cases)
  case (link_writer a')
  then obtain ext where "c_sealed a' = c_sealed (l_writer s) @ ext"
    using conn_step_sealed [of "l_writer s" C a'] assms(1) by (auto simp: link_inv_def)
  moreover have "conn_inv a'" using conn_step_inv link_writer assms(1) by (auto simp: link_inv_def)
  ultimately show ?thesis using link_writer assms(1) by (simp add: link_inv_def)
next
  case (link_read n x b')
  then show ?thesis using link_inv_read [OF assms(1)] by simp
next
  case (link_reader_writes bs y b')
  have "c_raw (l_reader s) \<noteq> None" using assms(1) by (simp add: link_inv_def conn_inv_def)
  from Conn_Write_effect [OF this, of C bs] link_reader_writes
  have "c_readSeq b' = c_readSeq (l_reader s)" "c_readBuf b' = c_readBuf (l_reader s)"
    by (auto dest: write_effect_frame)
  moreover have "conn_inv b'"
    using Conn_Write_inv [of "l_reader s" C bs] link_reader_writes assms(1) by (simp add: link_inv_def)
  ultimately show ?thesis using link_reader_writes assms(1) by (simp add: link_inv_def)
next
  case (link_network raw)
  then show ?thesis using assms(1) by (simp add: link_inv_def)
qed

lemma fresh_endD:
  assumes "fresh_end c"
  shows "conn_inv c \<and> c_readSeq c = 0 \<and> c_readBuf c = []"
proof -
  from assms obtain raw res i res' where n: "newConn raw res i = (Ok c, res')"
    by (auto simp: fresh_end_def)
  from newConn_inv [OF n] n [unfolded newConn_Ok_iff] show ?thesis by simp
qed

interpretation ls: invariant_system fresh_link "link_step C" link_inv
  for C :: "('dsk, 'dpk, 'ksk, 'kpk) crypto"
proof unfold_locales
  show "link_inv s" if "fresh_link s" for s :: "('dpk, 'kpk) link"
    using that by (auto simp: fresh_link_def link_inv_def dest!: fresh_endD)
qed (rule link_step_inv)

text \<open>C3: integrity and order against an active adversary. Between a writing and a reading end, an
  adversary may drop, cut, reorder, duplicate and inject bytes at every moment. As long as no
  record that the writer did not seal opens under the reader's key, everything the reader has
  delivered is a prefix of the concatenation of the plaintexts the writer sealed: nothing is
  altered, repeated, skipped or reordered.\<close>

theorem delivered_is_prefix:
  assumes "fresh_link s" "(link_step C)\<^sup>*\<^sup>* s t"
  shows "prefix (l_delivered t) (concat (map snd (c_sealed (l_writer t))))"
proof -
  have "link_inv t" by (rule ls.inv_reachable [OF assms])
  then have "l_delivered t @ c_readBuf (l_reader t) =
      concat (take (unat (c_readSeq (l_reader t))) (map snd (c_sealed (l_writer t))))"
    by (simp add: link_inv_def take_map)
  then have "prefix (l_delivered t) (concat (take (unat (c_readSeq (l_reader t))) (map snd (c_sealed (l_writer t)))))"
    by (metis prefixI)
  also have "prefix \<dots> (concat (map snd (c_sealed (l_writer t))))"
    by (metis append_take_drop_id concat_append prefixI)
  finally show ?thesis .
qed

definition toy_end :: "bool \<Rightarrow> (bytes, bytes) Conn" where
  "toy_end i =
     \<lparr>c_raw = Some (fresh_conn [] EOF), c_remote = toy_pub 1,
      c_readAEAD = (if i then derive toy_crypto [9] channelKeyLabelR2I 32 else derive toy_crypto [9] channelKeyLabelI2R 32),
      c_readSeq = 0, c_readBuf = [],
      c_writeAEAD = (if i then derive toy_crypto [9] channelKeyLabelI2R 32 else derive toy_crypto [9] channelKeyLabelR2I 32),
      c_writeSeq = 0, c_sealed = []\<rparr>"

lemma fresh_toy_end: "fresh_end (toy_end i)"
proof -
  have "\<exists>res'. newConn (fresh_conn [] EOF) (hs_result toy_crypto [9] (toy_pub 1)) i = (Ok (toy_end i), res')"
    by (simp add: newConn_Ok_iff toy_end_def)
  then show ?thesis unfolding fresh_end_def by blast
qed

theorem delivered_is_prefix_witness:
  "\<exists>s t. fresh_link s \<and> (link_step toy_crypto)\<^sup>*\<^sup>* s t \<and> l_delivered t = [1, 2] \<and>
    prefix [1, 2] (concat (map snd (c_sealed (l_writer t))))"
proof -
  let ?k = "derive toy_crypto [9] channelKeyLabelI2R 32"
  let ?ct = "chacha_Seal toy_crypto ?k (nonceFor 0) [1, 2, 3] []"
  let ?s = "\<lparr>l_writer = toy_end True, l_reader = toy_end False, l_delivered = []\<rparr>"
  have few: "chunks maxPlain [1, 2, 3] = [[1, 2, 3 :: byte]]" using maxPlain_ge by (simp add: chunks_small)
  obtain a y where w: "Conn_Write toy_crypto [1, 2, 3] (toy_end True) = (y, a)" "c_sealed a = [(nonceFor 0, [1, 2, 3])]"
    using Conn_Write_ok [OF toy_aead, of "toy_end True" "fresh_conn [] EOF" "[1, 2, 3]"]
    by (simp add: few toy_end_def)
  let ?raw = "fresh_conn [frame ?ct] EOF"
  let ?b = "(toy_end False)\<lparr>c_raw := Some ?raw\<rparr>"
  have fit: "fits ?ct" using Seal_fits [OF toy_aead, of ?k "[1, 2, 3]" 0] maxPlain_ge by simp
  have op: "chacha_Open toy_crypto ?k (nonceFor 0) ?ct [] = Some [1, 2, 3]"
    using aead_law(2) [OF toy_aead, of ?k "nonceFor 0"] by simp
  obtain r where rd: "readFrame ?raw = (Ok ?ct, r)" using readFrame_Ok [of ?raw ?ct "[]"] fit by auto
  obtain b' where read: "Conn_Read toy_crypto 2 ?b = (Ok [1, 2], b')"
    using rd op by (simp add: Conn_Read_slices toy_end_def)
  have unf: "unforged toy_crypto a ?b" using rd op w(2) by (simp add: unforged_def toy_end_def)
  have "link_step toy_crypto ?s (?s\<lparr>l_writer := a\<rparr>)"
    using link_writer [OF step_Write, of toy_crypto "[1, 2, 3]" ?s y a] w(1) by simp
  moreover have "link_step toy_crypto (?s\<lparr>l_writer := a\<rparr>) (?s\<lparr>l_writer := a, l_reader := ?b\<rparr>)"
    using link_network [of toy_crypto "?s\<lparr>l_writer := a\<rparr>" ?raw] by simp
  moreover have "link_step toy_crypto (?s\<lparr>l_writer := a, l_reader := ?b\<rparr>)
      (?s\<lparr>l_writer := a, l_reader := b', l_delivered := [1, 2]\<rparr>)"
    using link_read [of toy_crypto "?s\<lparr>l_writer := a, l_reader := ?b\<rparr>" 2 "Ok [1, 2]" b'] unf read
    by (simp add: delivered_def)
  ultimately have run: "(link_step toy_crypto)\<^sup>*\<^sup>* ?s (?s\<lparr>l_writer := a, l_reader := b', l_delivered := [1, 2]\<rparr>)"
    by (meson r_into_rtranclp rtranclp_trans)
  have "fresh_link ?s" by (simp add: fresh_link_def fresh_toy_end)
  from delivered_is_prefix [OF this run] this run show ?thesis
    by (intro exI [of _ ?s] exI [of _ "?s\<lparr>l_writer := a, l_reader := b', l_delivered := [1, 2]\<rparr>"]) simp
qed

subsection \<open>Read and Write commute\<close>

text \<open>The part of the state \<open>Read\<close> may change.\<close>

definition set_read :: "64 word \<Rightarrow> bytes \<Rightarrow> reader \<Rightarrow> ('dpk, 'kpk) Conn \<Rightarrow> ('dpk, 'kpk) Conn" where
  "set_read s q r c = c\<lparr>c_readSeq := s, c_readBuf := q, c_raw := map_option (nc_in_update (\<lambda>_. r)) (c_raw c)\<rparr>"

lemma set_read_simps [simp]:
  "c_writeSeq (set_read s q r c) = c_writeSeq c" "c_writeAEAD (set_read s q r c) = c_writeAEAD c"
  "c_sealed (set_read s q r c) = c_sealed c"
  "c_raw (set_read s q r c) = map_option (nc_in_update (\<lambda>_. r)) (c_raw c)"
  by (simp_all add: set_read_def)

lemma conn_Write_set_in: "conn_Write p (c\<lparr>nc_in := r\<rparr>) = apsnd (nc_in_update (\<lambda>_. r)) (conn_Write p c)"
  by (simp add: conn_Write_def split: option.splits)

lemma writeFrame_set_in: "writeFrame p (c\<lparr>nc_in := r\<rparr>) = apsnd (nc_in_update (\<lambda>_. r)) (writeFrame p c)"
  by (simp add: writeFrame_def bindS_def conn_Write_set_in split: prod.splits outcome.splits)

lemma Conn_Write_loop_set_read:
  assumes "c_raw c \<noteq> None"
  shows "Conn_Write_loop C b k (set_read s q r c) = apsnd (set_read s q r) (Conn_Write_loop C b k c)"
  using assms
proof (induction "length b - k" arbitrary: k c rule: less_induct)
  case less
  obtain raw where raw: "c_raw c = Some raw" using less.prems by blast
  show ?case
  proof (cases "k < length b")
    case False
    then show ?thesis by (simp add: Conn_Write_loop.simps)
  next
    case True
    define p where "p = take maxPlain (drop k b)"
    let ?f = "\<lambda>c. c\<lparr>c_writeSeq := c_writeSeq c + 1, c_sealed := c_sealed c @ [(nonceFor (c_writeSeq c), p)]\<rparr>"
    let ?ct = "chacha_Seal C (c_writeAEAD c) (nonceFor (c_writeSeq c)) p []"
    obtain x raw' where wr: "writeFrame ?ct raw = (x, raw')" by (cases "writeFrame ?ct raw")
    then have wr': "writeFrame ?ct (raw\<lparr>nc_in := r\<rparr>) = (x, raw'\<lparr>nc_in := r\<rparr>)" by (simp add: writeFrame_set_in)
    have len: "length b - (k + length p) < length b - k"
      using True maxPlain_pos by (auto simp: p_def min_def simp del: maxPlain_pos)
    define c1 where "c1 = ?f (set_read s q r c)"
    define c2 where "c2 = ?f c"
    have up: "c1\<lparr>c_raw := Some (raw'\<lparr>nc_in := r\<rparr>)\<rparr> = set_read s q r (c2\<lparr>c_raw := Some raw'\<rparr>)"
      by (simp add: set_read_def c1_def c2_def)
    have raw1: "c_raw (set_read s q r c) = Some (raw\<lparr>nc_in := r\<rparr>)" using raw by simp
    note step1 = Conn_Write_loop_step [OF True raw1 p_def c1_def, of C x "raw'\<lparr>nc_in := r\<rparr>", unfolded up]
    note step2 = Conn_Write_loop_step [OF True raw p_def c2_def wr]
    note ih = less.hyps [OF len, of "c2\<lparr>c_raw := Some raw'\<rparr>"]
    show ?thesis using step1 step2 ih wr' by (cases x; cases "c_writeSeq c = NOT 0") simp_all
  qed
qed

lemma Conn_Write_loop_in:
  assumes "c_raw c = Some raw" "Conn_Write_loop C b k c = (y, c2)" "c_raw c2 = Some raw'"
  shows "nc_in raw' = nc_in raw"
proof -
  have "set_read (c_readSeq c) (c_readBuf c) (nc_in raw) c = c" using assms(1) by (simp add: set_read_def)
  with Conn_Write_loop_set_read [of c C b k "c_readSeq c" "c_readBuf c" "nc_in raw"] assms(1,2)
  have "c2 = set_read (c_readSeq c) (c_readBuf c) (nc_in raw) c2" by simp
  then have "c_raw c2 = map_option (nc_in_update (\<lambda>_. nc_in raw)) (c_raw c2)"
    using set_read_simps(4) by metis
  then have "raw' = raw'\<lparr>nc_in := nc_in raw\<rparr>" using assms(3) by simp
  then show ?thesis by (metis net_conn.select_convs(1) net_conn.surjective net_conn.update_convs(1))
qed

text \<open>The part of the state \<open>Read\<close> depends on.\<close>

definition read_view :: "('dpk, 'kpk) Conn \<Rightarrow> bytes \<times> 64 word \<times> aead \<times> reader option" where
  "read_view c = (c_readBuf c, c_readSeq c, c_readAEAD c, map_option nc_in (c_raw c))"

lemma readFrame_view:
  assumes "nc_in c = nc_in d"
  shows "\<exists>x r. readFrame c = (x, c\<lparr>nc_in := r\<rparr>) \<and> readFrame d = (x, d\<lparr>nc_in := r\<rparr>)"
proof -
  have rf: "\<exists>x r. conn_ReadFull n c' = (x, c'\<lparr>nc_in := r\<rparr>) \<and> conn_ReadFull n d' = (x, d'\<lparr>nc_in := r\<rparr>)"
    if "nc_in c' = nc_in d'" for n c' d'
    using that by (auto simp: conn_ReadFull_def split: prod.splits)
  from rf [OF assms, of 4] obtain h r where
    h: "conn_ReadFull 4 c = (h, c\<lparr>nc_in := r\<rparr>)" "conn_ReadFull 4 d = (h, d\<lparr>nc_in := r\<rparr>)" by blast
  have "nc_in (c\<lparr>nc_in := r\<rparr>) = nc_in (d\<lparr>nc_in := r\<rparr>)" by simp
  from rf [OF this] obtain x r' where
    "conn_ReadFull (unat (Uint32 (case h of Ok b \<Rightarrow> b))) (c\<lparr>nc_in := r\<rparr>) = (x, c\<lparr>nc_in := r'\<rparr>)"
    "conn_ReadFull (unat (Uint32 (case h of Ok b \<Rightarrow> b))) (d\<lparr>nc_in := r\<rparr>) = (x, d\<lparr>nc_in := r'\<rparr>)"
    by fastforce
  with h show ?thesis by (cases h; cases x) (auto simp: readFrame_def Let_def)
qed

lemma Conn_Read_eq:
  assumes "c_raw c = Some raw" "readFrame raw = (x, raw\<lparr>nc_in := r\<rparr>)"
  shows "Conn_Read C n c =
    (if c_readBuf c \<noteq> [] then (Ok (take n (c_readBuf c)), set_read (c_readSeq c) (drop n (c_readBuf c)) (nc_in raw) c)
     else case x of
       Err e \<Rightarrow> (Err e, set_read (c_readSeq c) [] r c)
     | Panic p \<Rightarrow> (Panic p, set_read (c_readSeq c) [] r c)
     | Ok f \<Rightarrow>
         if c_readSeq c = NOT 0 then (Err ErrSequenceExhausted, set_read (c_readSeq c) [] r c)
         else case chacha_Open C (c_readAEAD c) (nonceFor (c_readSeq c)) f [] of
                None \<Rightarrow> (Err ErrCiphertextCorrupted, set_read (c_readSeq c) [] r c)
              | Some p \<Rightarrow> (Ok (take n p), set_read (c_readSeq c + 1) (drop n p) r c))"
  using assms by (cases c) (auto simp: Conn_Read_slices set_read_def Let_def split: outcome.splits option.splits)

lemma Conn_Read_view:
  assumes "read_view c = read_view d" "c_raw c \<noteq> None"
  shows "\<exists>x s q r. Conn_Read C n c = (x, set_read s q r c) \<and> Conn_Read C n d = (x, set_read s q r d)"
proof -
  from assms obtain raw raw' where raw: "c_raw c = Some raw" "c_raw d = Some raw'" "nc_in raw = nc_in raw'"
    by (cases "c_raw d") (auto simp: read_view_def)
  have v: "c_readBuf d = c_readBuf c" "c_readSeq d = c_readSeq c" "c_readAEAD d = c_readAEAD c"
    using assms(1) by (simp_all add: read_view_def)
  from readFrame_view [OF raw(3)] obtain x r where
    rf: "readFrame raw = (x, raw\<lparr>nc_in := r\<rparr>)" "readFrame raw' = (x, raw'\<lparr>nc_in := r\<rparr>)" by blast
  show ?thesis
    unfolding Conn_Read_eq [OF raw(1) rf(1)] Conn_Read_eq [OF raw(2) rf(2)] v raw(3)
    by (auto split: outcome.splits option.splits)
qed

text \<open>C25: a \<open>Read\<close> and a \<open>Write\<close> on the same connection commute: in either order they return the
  same results and leave the same state. The two directions share no state but the raw
  connection, so holding one mutex per direction is enough.\<close>

theorem Read_Write_commute:
  assumes "c_raw c \<noteq> None" "Conn_Read C n c = (x, c1)" "Conn_Write C b c = (y, c2)"
  shows "\<exists>d. Conn_Write C b c1 = (y, d) \<and> Conn_Read C n c2 = (x, d)"
proof -
  from Conn_Write_effect [OF assms(1), of C b] assms(3) obtain raw raw' where
    w: "c_readSeq c2 = c_readSeq c" "c_readBuf c2 = c_readBuf c" "c_readAEAD c2 = c_readAEAD c"
    "c_raw c = Some raw" "c_raw c2 = Some raw'"
    by (auto dest: write_effect_frame)
  have "nc_in raw' = nc_in raw"
    by (rule Conn_Write_loop_in [OF w(4) assms(3) [unfolded Conn_Write_def] w(5)])
  with w have "read_view c = read_view c2" by (simp add: read_view_def)
  from Conn_Read_view [OF this assms(1), of C n] assms(2) obtain s q r where
    "c1 = set_read s q r c" "Conn_Read C n c2 = (x, set_read s q r c2)" by auto
  moreover have "Conn_Write C b (set_read s q r c) = (y, set_read s q r c2)"
    using Conn_Write_loop_set_read [OF assms(1), of C b 0 s q r] assms(3) by (simp add: Conn_Write_def)
  ultimately show ?thesis by blast
qed

theorem Read_Write_commute_witness:
  "\<exists>x y d. Conn_Write toy_crypto [1] (snd (Conn_Read toy_crypto 4 (toy_end True))) = (y, d) \<and>
    Conn_Read toy_crypto 4 (snd (Conn_Write toy_crypto [1] (toy_end True))) = (x, d)"
proof -
  obtain x c1 y c2 where r: "Conn_Read toy_crypto 4 (toy_end True) = (x, c1)"
    and w: "Conn_Write toy_crypto [1] (toy_end True) = (y, c2)" by (meson surj_pair)
  have "c_raw (toy_end True) \<noteq> None" by (simp add: toy_end_def)
  from Read_Write_commute [OF this r w] r w show ?thesis by auto
qed

end
