(* ===== verification/Endpoint.thy ===== *)
theory Endpoint
  imports Channel Agreement
begin

text \<open>
  The entry points (\<open>dial.go\<close>, \<open>listen.go\<close>, \<open>zap.go\<close>, \<open>config.go\<close>): dialing, listening and
  accepting, and the wrapping as ZAP connections. The raw connection is \<open>w_conn\<close> of the world
  until the handshake is done and \<open>c_raw\<close> of the channel afterwards. What the network does is an
  argument: \<open>net_dial\<close> is the outcome of \<open>DialContext\<close>, \<open>net_listen\<close> of \<open>net.Listen\<close>, and
  \<open>now\<close> the value of \<open>time.Now()\<close>; a \<open>net.Listener\<close> is the queue of outcomes its \<open>Accept\<close>
  will have. The two constructors of the \<open>zap\<close> package are arguments too.
\<close>

definition DefaultPort :: nat where
  "DefaultPort = 9999"

subsection \<open>Handshake over a raw connection\<close>

text \<open>\<open>raw.Close()\<close> and \<open>raw.SetDeadline(t)\<close> with the error ignored.\<close>

definition raw_Close :: "world \<Rightarrow> world" where
  "raw_Close w = snd (on_conn conn_Close w)"

definition raw_SetDeadline :: "int option \<Rightarrow> world \<Rightarrow> world" where
  "raw_SetDeadline t w = snd (on_conn (conn_SetDeadline t) w)"

text \<open>
  The deferred \<open>raw.SetDeadline(time.Time{})\<close>: it runs on every path once it is registered, on
  the connection the new channel holds as well.
\<close>

definition defer_deadline ::
  "bool \<Rightarrow> ('dpk, 'kpk) Conn result \<times> world \<Rightarrow> ('dpk, 'kpk) Conn result \<times> world" where
  "defer_deadline timed r =
     (case r of (x, w) \<Rightarrow>
        if timed
        then let w = raw_SetDeadline None w in
             ((case x of Ok c \<Rightarrow> Ok (c\<lparr>c_raw := Some (w_conn w)\<rparr>) | _ \<Rightarrow> x), w)
        else (x, w))"

text \<open>
  The tail of both handshake functions: close the connection on error, otherwise build the
  channel. The buffers of the handshake result stay in memory as \<open>newConn\<close> leaves them.
\<close>

definition wrap_conn ::
  "bool \<Rightarrow> ('dpk, 'kpk) handshakeResult result \<times> world \<Rightarrow> ('dpk, 'kpk) Conn result \<times> world" where
  "wrap_conn initiator r =
     (case r of
        (Err e, w) \<Rightarrow> (Err e, raw_Close w)
      | (Panic p, w) \<Rightarrow> (Panic p, w)
      | (Ok res, w) \<Rightarrow>
          (case newConn (w_conn w) res initiator of
             (c, res) \<Rightarrow>
               (c, leave [(''shared'', hs_shared res), (''keyI2R'', hs_keyI2R res), (''keyR2I'', hs_keyR2I res)] w)))"

definition clientHandshake ::
  "('dsk, 'dpk, 'ksk, 'kpk) crypto \<Rightarrow> int \<Rightarrow> ('dsk, 'dpk, 'ksk, 'kpk) Config option \<Rightarrow> world
     \<Rightarrow> ('dpk, 'kpk) Conn result \<times> world" where
  "clientHandshake C now cfg w =
     (case cfg of
        None \<Rightarrow> (nil_panic, w)
      | Some cf \<Rightarrow>
          (let timed = cfg_HandshakeTimeout cf > 0;
               w = (if timed then raw_SetDeadline (Some (now + cfg_HandshakeTimeout cf)) w else w) in
           defer_deadline timed (wrap_conn True (runInitiator C cfg w))))"

definition serverHandshake ::
  "('dsk, 'dpk, 'ksk, 'kpk) crypto \<Rightarrow> int \<Rightarrow> ('dsk, 'dpk, 'ksk, 'kpk) Config option \<Rightarrow> world
     \<Rightarrow> ('dpk, 'kpk) Conn result \<times> world" where
  "serverHandshake C now cfg w =
     (case cfg of
        None \<Rightarrow> (nil_panic, w)
      | Some cf \<Rightarrow>
          (let timed = cfg_HandshakeTimeout cf > 0;
               w = (if timed then raw_SetDeadline (Some (now + cfg_HandshakeTimeout cf)) w else w) in
           defer_deadline timed (wrap_conn False (runResponder C cfg w))))"

subsection \<open>Dialing (dial.go)\<close>

definition missing_id :: "('dsk, 'dpk, 'ksk, 'kpk) Config option \<Rightarrow> bool" where
  "missing_id cfg = (case cfg of None \<Rightarrow> True | Some cf \<Rightarrow> cfg_LocalIdentity cf = None)"

definition Dial ::
  "('dsk, 'dpk, 'ksk, 'kpk) crypto \<Rightarrow> (string \<Rightarrow> net_conn ext) \<Rightarrow> int \<Rightarrow> string
     \<Rightarrow> ('dsk, 'dpk, 'ksk, 'kpk) Config option \<Rightarrow> world \<Rightarrow> ('dpk, 'kpk) Conn result \<times> world" where
  "Dial C net_dial now addr cfg w =
     (if missing_id cfg then (Err ErrConfigMissingID, w)
      else case net_dial addr of
             Inl e \<Rightarrow> (Err e, w)
           | Inr raw \<Rightarrow> clientHandshake C now cfg (w\<lparr>w_conn := raw\<rparr>))"

definition Client ::
  "('dsk, 'dpk, 'ksk, 'kpk) crypto \<Rightarrow> int \<Rightarrow> net_conn \<Rightarrow> ('dsk, 'dpk, 'ksk, 'kpk) Config option \<Rightarrow> world
     \<Rightarrow> ('dpk, 'kpk) Conn result \<times> world" where
  "Client C now raw cfg w = clientHandshake C now cfg (w\<lparr>w_conn := raw\<rparr>)"

definition Server ::
  "('dsk, 'dpk, 'ksk, 'kpk) crypto \<Rightarrow> int \<Rightarrow> net_conn \<Rightarrow> ('dsk, 'dpk, 'ksk, 'kpk) Config option \<Rightarrow> world
     \<Rightarrow> ('dpk, 'kpk) Conn result \<times> world" where
  "Server C now raw cfg w = serverHandshake C now cfg (w\<lparr>w_conn := raw\<rparr>)"

subsection \<open>Listening (listen.go)\<close>

record net_listener =
  nl_addr :: string
  nl_queue :: "net_conn ext list"
  nl_end :: go_error
  nl_closed :: bool

definition nl_Accept :: "net_listener \<Rightarrow> net_conn ext \<times> net_listener" where
  "nl_Accept l =
     (if nl_closed l then (Inl ErrClosed, l)
      else case nl_queue l of
             [] \<Rightarrow> (Inl (nl_end l), l)
           | q # qs \<Rightarrow> (q, l\<lparr>nl_queue := qs\<rparr>))"

definition nl_Close :: "net_listener \<Rightarrow> unit result \<times> net_listener" where
  "nl_Close l = (if nl_closed l then (Err ErrClosed, l) else (Ok (), l\<lparr>nl_closed := True\<rparr>))"

record ('dsk, 'dpk, 'ksk, 'kpk) Listener =
  ln_raw :: net_listener
  ln_cfg :: "('dsk, 'dpk, 'ksk, 'kpk) Config option"

definition Listen ::
  "(string \<Rightarrow> net_listener ext) \<Rightarrow> string \<Rightarrow> ('dsk, 'dpk, 'ksk, 'kpk) Config option
     \<Rightarrow> ('dsk, 'dpk, 'ksk, 'kpk) Listener result" where
  "Listen net_listen addr cfg =
     (if missing_id cfg then Err ErrConfigMissingID
      else case net_listen addr of
             Inl e \<Rightarrow> Err e
           | Inr raw \<Rightarrow> Ok \<lparr>ln_raw = raw, ln_cfg = cfg\<rparr>)"

definition Listener_Accept ::
  "('dsk, 'dpk, 'ksk, 'kpk) crypto \<Rightarrow> int \<Rightarrow> ('dsk, 'dpk, 'ksk, 'kpk) Listener \<Rightarrow> world
     \<Rightarrow> ('dpk, 'kpk) Conn result \<times> ('dsk, 'dpk, 'ksk, 'kpk) Listener \<times> world" where
  "Listener_Accept C now l w =
     (case nl_Accept (ln_raw l) of
        (Inl e, raw) \<Rightarrow> (Err e, l\<lparr>ln_raw := raw\<rparr>, w)
      | (Inr conn, raw) \<Rightarrow>
          (case serverHandshake C now (ln_cfg l) (w\<lparr>w_conn := conn\<rparr>) of
             (x, w) \<Rightarrow> (x, l\<lparr>ln_raw := raw\<rparr>, w)))"

definition Listener_Close ::
  "('dsk, 'dpk, 'ksk, 'kpk) Listener \<Rightarrow> unit result \<times> ('dsk, 'dpk, 'ksk, 'kpk) Listener" where
  "Listener_Close l = (case nl_Close (ln_raw l) of (x, raw) \<Rightarrow> (x, l\<lparr>ln_raw := raw\<rparr>))"

definition Listener_Addr :: "('dsk, 'dpk, 'ksk, 'kpk) Listener \<Rightarrow> string" where
  "Listener_Addr l = nl_addr (ln_raw l)"

subsection \<open>ZAP (zap.go)\<close>

definition DialZAP ::
  "(('dpk, 'kpk) Conn \<Rightarrow> unit option \<Rightarrow> 'zconn) \<Rightarrow> ('dsk, 'dpk, 'ksk, 'kpk) crypto \<Rightarrow> (string \<Rightarrow> net_conn ext)
     \<Rightarrow> int \<Rightarrow> string \<Rightarrow> ('dsk, 'dpk, 'ksk, 'kpk) Config option \<Rightarrow> world \<Rightarrow> 'zconn result \<times> world" where
  "DialZAP zap_NewConn C net_dial now addr cfg w =
     bindS (Dial C net_dial now addr cfg w) (\<lambda>raw w.
     (Ok (zap_NewConn raw None), w))"

definition ListenZAP ::
  "(('dsk, 'dpk, 'ksk, 'kpk) Listener \<Rightarrow> unit option \<Rightarrow> 'zln) \<Rightarrow> (string \<Rightarrow> net_listener ext) \<Rightarrow> string
     \<Rightarrow> ('dsk, 'dpk, 'ksk, 'kpk) Config option \<Rightarrow> 'zln result" where
  "ListenZAP zap_NewListener net_listen addr cfg =
     bindR (Listen net_listen addr cfg) (\<lambda>zln.
     Ok (zap_NewListener zln None))"

end
