(* ===== verification/EpProps.thy ===== *)
theory EpProps
  imports Endpoint HsProps ChProps
begin

text \<open>
  The properties of the entry points: the raw connection is closed when a handshake fails and its
  deadline lifted when one succeeds, a listener survives failed handshakes, a missing
  configuration, what stays in memory, and the whole path from \<open>Client\<close> and \<open>Server\<close> to data
  exchanged in both directions.
\<close>

subsection \<open>The connection during a handshake\<close>

lemma raw_SetDeadline_simps [simp]:
  "nc_sent (w_conn (raw_SetDeadline t w)) = nc_sent (w_conn w)"
  "nc_in (w_conn (raw_SetDeadline t w)) = nc_in (w_conn w)"
  "nc_closed (w_conn (raw_SetDeadline t w)) = nc_closed (w_conn w)"
  "accepts (w_conn (raw_SetDeadline t w)) = accepts (w_conn w)"
  "w_rand (raw_SetDeadline t w) = w_rand w" "w_mem (raw_SetDeadline t w) = w_mem w"
  by (simp_all add: raw_SetDeadline_def on_conn_def conn_SetDeadline_def accepts_def)

lemma raw_Close_closed [simp]: "nc_closed (w_conn (raw_Close w))"
  by (simp add: raw_Close_def on_conn_def conn_Close_def)

lemma readFrame_closed [simp]: "nc_closed (snd (readFrame c)) = nc_closed c"
  using readFrame_frame_cond [of c] by auto

lemma writeFrame_open:
  assumes "writeFrame p c = (Ok (), c')"
  shows "\<not> nc_closed c'"
  using assms by (auto simp: writeFrame_def conn_Write_def outcome_simps split: if_splits option.splits)

lemma runInitiator_open:
  assumes "runInitiator C (Some cfg) w = (Ok res, w')"
  shows "\<not> nc_closed (w_conn w')"
proof -
  from runInitiator_OkD [OF assms] obtain local idPub w1 f c resp shared v w2 w3 where
    h: "initiator_hello C local w = (Ok idPub, w1)" and rd: "readFrame (w_conn w1) = (Ok f, c)"
    and dec: "XWingDecapsulate C (id_XWing local) (hr_XWingCiphertext resp) v = (Ok shared, w2)" "v = w1\<lparr>w_conn := c\<rparr>"
    and fin: "initiator_finish C cfg idPub resp shared w2 = (Ok res, w3)" "w' = leave [(''shared'', shared)] w3"
    by metis
  from h have "\<not> nc_closed (w_conn w1)"
    by (auto simp: initiator_hello_def Let_def outcome_simps split: prod.splits dest!: writeFrame_open)
  with readFrame_closed [of "w_conn w1"] rd have "\<not> nc_closed c" by simp
  moreover have "w_conn w2 = c"
    using XWingDecapsulate_conn [of C "id_XWing local" "hr_XWingCiphertext resp" v] dec(1) arg_cong [OF dec(2), of w_conn]
    by simp
  ultimately show ?thesis using initiator_finish_conn [of C cfg idPub resp shared w2] fin by simp
qed

lemma runResponder_open:
  assumes "runResponder C (Some cfg) w = (Ok res, w')"
  shows "\<not> nc_closed (w_conn w')"
proof -
  from runResponder_OkD [OF assms] obtain local init ct shared w2 w3 where
    "responder_reply C local init ct shared w2 = (Ok (), w3)" "w' = leave [(''shared'', shared)] w3" by metis
  then show ?thesis
    by (auto simp: responder_reply_def Let_def outcome_simps split: prod.splits dest!: writeFrame_open)
qed

lemma wrap_conn_Ok_iff:
  "wrap_conn i r = (Ok c, w') \<longleftrightarrow>
     (\<exists>res w res'. r = (Ok res, w) \<and> newConn (w_conn w) res i = (Ok c, res') \<and>
        w' = leave [(''shared'', hs_shared res'), (''keyI2R'', hs_keyI2R res'), (''keyR2I'', hs_keyR2I res')] w)"
  by (auto simp: wrap_conn_def split: prod.splits outcome.splits)

lemma newConn_not_Err: "newConn raw res i \<noteq> (Err e, res')"
  by (auto simp: newConn_def mustChaCha20_def split: if_splits)

lemma wrap_conn_Err: "wrap_conn i r = (Err e, w') \<Longrightarrow> nc_closed (w_conn w')"
  by (auto simp: wrap_conn_def newConn_not_Err split: prod.splits outcome.splits)

lemma defer_deadline_Err:
  "defer_deadline t r = (Err e, w') \<Longrightarrow> (\<And>w. r = (Err e, w) \<Longrightarrow> nc_closed (w_conn w)) \<Longrightarrow> nc_closed (w_conn w')"
  by (auto simp: defer_deadline_def Let_def split: if_splits prod.splits outcome.splits)

text \<open>C27: when a handshake fails, in either role and for whatever reason, the raw connection has been
  closed by the time the error is returned.\<close>

theorem failed_handshake_closes:
  assumes "clientHandshake C now (Some cfg) w = (Err e, w') \<or> serverHandshake C now (Some cfg) w = (Err e, w')"
  shows "nc_closed (w_conn w')"
  using assms
  by (auto simp: clientHandshake_def serverHandshake_def Let_def dest!: defer_deadline_Err intro: wrap_conn_Err)

lemma responder_silent_peer:
  assumes "avail (nc_in (w_conn w)) = []" "cfg_LocalIdentity cfg = Some i"
  shows "fst (runResponder C (Some cfg) w) = Err (r_end (nc_in (w_conn w)))"
proof -
  obtain c where "readFrame (w_conn w) = (Err (r_end (nc_in (w_conn w))), c)"
    using readFrame_spec [of "w_conn w"] assms(1) by (auto simp: next_frame_def short_error_def)
  then show ?thesis by (simp add: runResponder_def responder_hello_def on_conn_def assms(2))
qed

theorem failed_handshake_closes_witness:
  "\<exists>w'. serverHandshake toy_crypto 0 (Some (toy_cfg 2 None)) (toy_world []) = (Err EOF, w') \<and> nc_closed (w_conn w')"
proof -
  let ?w = "raw_SetDeadline (Some 5) (toy_world [])"
  have "fst (runResponder toy_crypto (Some (toy_cfg 2 None)) ?w) = Err EOF"
    using responder_silent_peer [of ?w "toy_cfg 2 None" "toy_id 2" toy_crypto] by (simp add: fresh_conn_def avail_def)
  then have "\<exists>w'. serverHandshake toy_crypto 0 (Some (toy_cfg 2 None)) (toy_world []) = (Err EOF, w')"
    by (cases "runResponder toy_crypto (Some (toy_cfg 2 None)) ?w")
      (simp add: serverHandshake_def toy_cfg_def wrap_conn_def defer_deadline_def Let_def)
  then show ?thesis using failed_handshake_closes by blast
qed

lemma defer_wrap_Ok:
  assumes "defer_deadline True (wrap_conn i r) = (Ok c, w')" "\<And>res v. r = (Ok res, v) \<Longrightarrow> \<not> nc_closed (w_conn v)"
  shows "\<exists>raw. c_raw c = Some raw \<and> \<not> nc_closed raw \<and> nc_rdeadline raw = None \<and> nc_wdeadline raw = None"
proof -
  from assms(1) obtain c0 v where v: "wrap_conn i r = (Ok c0, v)" "c = c0\<lparr>c_raw := Some (w_conn (raw_SetDeadline None v))\<rparr>"
    by (auto simp: defer_deadline_def Let_def split: prod.splits outcome.splits)
  then have "\<not> nc_closed (w_conn v)" using assms(2) by (auto simp: wrap_conn_Ok_iff)
  with v(2) show ?thesis by (simp add: raw_SetDeadline_def on_conn_def conn_SetDeadline_def)
qed

text \<open>C28: with a positive \<open>HandshakeTimeout\<close>, a handshake that succeeds returns a channel whose
  connection is open and carries no deadline: the deadline bounds the handshake only.\<close>

theorem deadline_lifted:
  assumes "0 < cfg_HandshakeTimeout cfg"
    and "clientHandshake C now (Some cfg) w = (Ok c, w') \<or> serverHandshake C now (Some cfg) w = (Ok c, w')"
  shows "\<exists>raw. c_raw c = Some raw \<and> \<not> nc_closed raw \<and> nc_rdeadline raw = None \<and> nc_wdeadline raw = None"
  using assms(2)
proof
  assume "clientHandshake C now (Some cfg) w = (Ok c, w')"
  then show ?thesis
    using assms(1) by (auto simp: clientHandshake_def Let_def dest!: defer_wrap_Ok runInitiator_open)
next
  assume "serverHandshake C now (Some cfg) w = (Ok c, w')"
  then show ?thesis
    using assms(1) by (auto simp: serverHandshake_def Let_def dest!: defer_wrap_Ok runResponder_open)
qed

subsection \<open>Two honest endpoints\<close>

text \<open>
  Everything \<open>a\<close> writes arrives at \<open>b\<close>: whatever buffers are written, however the bytes are cut
  on the way and whatever buffer size the reader uses.
\<close>

definition carries ::
  "('dsk, 'dpk, 'ksk, 'kpk) crypto \<Rightarrow> ('dpk, 'kpk) Conn \<Rightarrow> ('dpk, 'kpk) Conn \<Rightarrow> bool" where
  "carries C a b \<longleftrightarrow> (\<forall>bs n fuel. 0 < n \<longrightarrow> length (concat bs) < fuel \<longrightarrow> length (all_chunks bs) < 2 ^ 64 \<longrightarrow>
     (\<exists>raw rawB raw' wire. c_raw a = Some raw \<and> c_raw b = Some rawB \<and>
        c_raw (Conn_writes C bs a) = Some raw' \<and> nc_sent raw' = nc_sent raw @ wire \<and>
        (\<forall>segs e. concat segs = wire \<longrightarrow>
          read_all C n fuel (b\<lparr>c_raw := Some (rawB\<lparr>nc_in := \<lparr>r_segs = segs, r_end = e\<rparr>\<rparr>)\<rparr>) = (concat bs, Some e))))"

lemma carriesI:
  assumes "aead_laws C" "length (c_writeAEAD a) = 32" "c_readAEAD b = c_writeAEAD a"
    "c_writeSeq a = 0" "c_readSeq b = 0" "c_readBuf b = []"
    "c_raw a = Some raw" "accepts raw" "c_raw b = Some rawB"
  shows "carries C a b"
  unfolding carries_def
proof (intro allI impI)
  fix bs :: "bytes list" and n fuel :: nat
  assume h: "0 < n" "length (concat bs) < fuel" "length (all_chunks bs) < 2 ^ 64"
  define wire where "wire = wire_of C (c_writeAEAD a) (seal_log 0 (all_chunks bs))"
  define raw' where "raw' = raw\<lparr>nc_sent := nc_sent raw @ wire\<rparr>"
  have w: "c_raw (Conn_writes C bs a) = Some raw'"
    using Conn_writes_ok [OF assms(1,2,7,8), of bs] assms(4) h(3) by (simp add: raw'_def wire_def)
  have "read_all C n fuel (b\<lparr>c_raw := Some (rawB\<lparr>nc_in := \<lparr>r_segs = segs, r_end = e\<rparr>\<rparr>)\<rparr>) = (concat bs, Some e)"
    if "concat segs = wire" for segs e
  proof -
    let ?b = "b\<lparr>c_raw := Some (rawB\<lparr>nc_in := \<lparr>r_segs = segs, r_end = e\<rparr>\<rparr>)\<rparr>"
    have "in_flight C ?b (all_chunks bs)"
      by (rule in_flight_writes [OF assms(1,2,7,8),
            where rawB = "rawB\<lparr>nc_in := \<lparr>r_segs = segs, r_end = e\<rparr>\<rparr>" and raw' = raw'])
        (use assms h that w in \<open>simp_all add: avail_def raw'_def\<close>)
    from read_all_ok [OF assms(1) h(1) this, of fuel] h(2) assms(6) show ?thesis by (simp add: stream_end_def)
  qed
  moreover have "nc_sent raw' = nc_sent raw @ wire" by (simp add: raw'_def)
  ultimately show "\<exists>raw rawB raw' wire. c_raw a = Some raw \<and> c_raw b = Some rawB \<and>
        c_raw (Conn_writes C bs a) = Some raw' \<and> nc_sent raw' = nc_sent raw @ wire \<and>
        (\<forall>segs e. concat segs = wire \<longrightarrow>
          read_all C n fuel (b\<lparr>c_raw := Some (rawB\<lparr>nc_in := \<lparr>r_segs = segs, r_end = e\<rparr>\<rparr>)\<rparr>) = (concat bs, Some e))"
    using assms(7,9) w by blast
qed

text \<open>The channel a successful handshake in one role yields.\<close>

lemma wrap_result:
  assumes "r = (Ok (hs_result C shared remote), v)" "accepts (w_conn v)"
  obtains c w' where "defer_deadline timed (wrap_conn i r) = (Ok c, w')" "RemoteIdentity c = remote"
    "c_readAEAD c = derive C shared (if i then channelKeyLabelR2I else channelKeyLabelI2R) 32"
    "c_writeAEAD c = derive C shared (if i then channelKeyLabelI2R else channelKeyLabelR2I) 32"
    "c_readSeq c = 0" "c_writeSeq c = 0" "c_readBuf c = []" "c_raw c = Some (w_conn w')" "accepts (w_conn w')"
    "nc_sent (w_conn w') = nc_sent (w_conn v)" "nc_in (w_conn w') = nc_in (w_conn v)"
proof -
  let ?c = "\<lparr>c_raw = Some (w_conn v), c_remote = remote,
    c_readAEAD = derive C shared (if i then channelKeyLabelR2I else channelKeyLabelI2R) 32, c_readSeq = 0, c_readBuf = [],
    c_writeAEAD = derive C shared (if i then channelKeyLabelI2R else channelKeyLabelR2I) 32, c_writeSeq = 0, c_sealed = []\<rparr>"
  have "\<exists>res'. newConn (w_conn v) (hs_result C shared remote) i = (Ok ?c, res')" by (simp add: newConn_Ok_iff)
  then obtain res' where n: "newConn (w_conn v) (hs_result C shared remote) i = (Ok ?c, res')" ..
  let ?v = "leave [(''shared'', hs_shared res'), (''keyI2R'', hs_keyI2R res'), (''keyR2I'', hs_keyR2I res')] v"
  have w: "wrap_conn i r = (Ok ?c, ?v)" using n assms(1) by (simp add: wrap_conn_def)
  show thesis
    by (rule that [of "if timed then ?c\<lparr>c_raw := Some (w_conn (raw_SetDeadline None ?v))\<rparr> else ?c"
          "if timed then raw_SetDeadline None ?v else ?v"])
      (simp_all add: w defer_deadline_def Let_def RemoteIdentity_def assms(2))
qed

text \<open>A connection that takes every write still does after a handshake, however that ends.\<close>

lemma accepts_writeFrame: "accepts c \<Longrightarrow> accepts (snd (writeFrame p c))"
  by (simp add: writeFrame_def)

lemma accepts_readFrame: "accepts c \<Longrightarrow> accepts (snd (readFrame c))"
  using readFrame_frame_cond [of c] by auto

lemma accepts_on_conn: "accepts (snd (f (w_conn w))) \<Longrightarrow> accepts (w_conn (snd (on_conn f w)))"
  by (simp add: on_conn_def split_def)

lemma accepts_bindS:
  "accepts (w_conn (snd r)) \<Longrightarrow> (\<And>x w. accepts (w_conn w) \<Longrightarrow> accepts (w_conn (snd (f x w)))) \<Longrightarrow>
     accepts (w_conn (snd (bindS r f)))"
  by (cases r; cases "fst r") auto

lemma Sign_conn [simp]: "w_conn (snd (Sign C i ctx m w)) = w_conn w"
  using Sign_frame [of C i ctx m w] by (cases "Sign C i ctx m w") auto

lemma XWingEncapsulate_conn [simp]: "w_conn (snd (XWingEncapsulate C r pk w)) = w_conn w"
proof -
  obtain x w1 where e: "ext_call (reader_or_rand r) (kem_Encapsulate C (MLKEM pk)) w = (x, w1)"
    by (cases "ext_call (reader_or_rand r) (kem_Encapsulate C (MLKEM pk)) w")
  obtain b o' w2 where rd: "with_reader (reader_or_rand r) (ReadFull_buf 32) w1 = ((b, o'), w2)"
    by (metis prod.collapse)
  show ?thesis
    using ext_call_frame [OF e] with_reader_frame [OF rd]
    by (cases x) (simp_all add: XWingEncapsulate_def e rd Let_def split: prod.splits option.splits sum.splits)
qed

lemmas accepts_rules = accepts_bindS accepts_on_conn accepts_writeFrame accepts_readFrame

lemma runInitiator_accepts:
  assumes "accepts (w_conn w)"
  shows "accepts (w_conn (snd (runInitiator C (Some cfg) w)))"
proof -
  have "accepts (w_conn (snd (initiator_hello C i w)))" for i
    using assms by (auto simp: initiator_hello_def Let_def split_def intro!: accepts_rules)
  then show ?thesis
    using assms by (auto simp: runInitiator_def split: option.splits intro!: accepts_rules)
qed

lemma runResponder_accepts:
  assumes "accepts (w_conn w)"
  shows "accepts (w_conn (snd (runResponder C (Some cfg) w)))"
proof -
  have "accepts (w_conn (snd (responder_hello C cfg w)))"
    using assms by (auto simp: responder_hello_def intro!: accepts_rules)
  moreover have "accepts (w_conn (snd (responder_reply C i init ct ss v)))" if "accepts (w_conn v)" for i init ct ss v
    using that by (auto simp: responder_reply_def Let_def split_def intro!: accepts_rules)
  ultimately show ?thesis
    using assms by (auto simp: runResponder_def split_def split: option.splits intro!: accepts_rules)
qed

lemma wrap_defer_sent [simp]: "nc_sent (w_conn (snd (defer_deadline timed (wrap_conn i r)))) = nc_sent (w_conn (snd r))"
proof -
  have "nc_sent (w_conn (snd (defer_deadline timed s))) = nc_sent (w_conn (snd s))" for s :: "('a, 'b) Conn result \<times> world"
    by (simp add: defer_deadline_def Let_def split: prod.splits)
  moreover have "nc_sent (w_conn (raw_Close w)) = nc_sent (w_conn w)" for w
    by (simp add: raw_Close_def on_conn_def conn_Close_def)
  ultimately show ?thesis
    by (auto simp: wrap_conn_def split: prod.splits outcome.splits)
qed

text \<open>The world in which the handshake proper starts.\<close>

definition hs_start :: "int \<Rightarrow> ('dsk, 'dpk, 'ksk, 'kpk) Config \<Rightarrow> world \<Rightarrow> world" where
  "hs_start now cfg w =
     (if cfg_HandshakeTimeout cfg > 0 then raw_SetDeadline (Some (now + cfg_HandshakeTimeout cfg)) w else w)"

lemma hs_start_simps [simp]:
  "nc_sent (w_conn (hs_start now cfg w)) = nc_sent (w_conn w)"
  "nc_in (w_conn (hs_start now cfg w)) = nc_in (w_conn w)"
  "accepts (w_conn (hs_start now cfg w)) = accepts (w_conn w)"
  "w_rand (hs_start now cfg w) = w_rand w"
  by (simp_all add: hs_start_def)

lemma handshake_eqs:
  "clientHandshake C now (Some cfg) w =
     defer_deadline (cfg_HandshakeTimeout cfg > 0) (wrap_conn True (runInitiator C (Some cfg) (hs_start now cfg w)))"
  "serverHandshake C now (Some cfg) w =
     defer_deadline (cfg_HandshakeTimeout cfg > 0) (wrap_conn False (runResponder C (Some cfg) (hs_start now cfg w)))"
  by (simp_all add: clientHandshake_def serverHandshake_def hs_start_def Let_def)

lemma honest_endpoints:
  assumes laws: "crypto_laws C" and ids: "identity_key C a" "identity_key C b"
    and cfgA: "cfg_LocalIdentity cfgA = Some a" "\<not> pin_mismatch C cfgA (Identity_Public C b)"
    and cfgB: "cfg_LocalIdentity cfgB = Some b" "\<not> pin_mismatch C cfgB (Identity_Public C a)"
    and conns: "accepts rawA" "nc_sent rawA = []" "accepts rawB" "nc_sent rawB = []"
    and rng: "entropy_ready C (XWing_Public C (id_XWing a)) (w_rand wb)"
    and runs: "Client C nowA rawA (Some cfgA) wa = (ra, wa')" "Server C nowB rawB (Some cfgB) wb = (rb, wb')"
    and wires: "avail (nc_in rawB) = nc_sent (w_conn wa')" "avail (nc_in rawA) = nc_sent (w_conn wb')"
  shows "\<exists>ca cb. ra = Ok ca \<and> rb = Ok cb \<and>
    RemoteIdentity ca = Identity_Public C b \<and> RemoteIdentity cb = Identity_Public C a \<and>
    carries C ca cb \<and> carries C cb ca"
proof -
  let ?sa = "hs_start nowA cfgA (wa\<lparr>w_conn := rawA\<rparr>)" and ?sb = "hs_start nowB cfgB (wb\<lparr>w_conn := rawB\<rparr>)"
  obtain xa va where ia: "runInitiator C (Some cfgA) ?sa = (xa, va)" by (cases "runInitiator C (Some cfgA) ?sa")
  obtain xb vb where rb: "runResponder C (Some cfgB) ?sb = (xb, vb)" by (cases "runResponder C (Some cfgB) ?sb")
  have ca: "defer_deadline (cfg_HandshakeTimeout cfgA > 0) (wrap_conn True (xa, va)) = (ra, wa')"
    and cb: "defer_deadline (cfg_HandshakeTimeout cfgB > 0) (wrap_conn False (xb, vb)) = (rb, wb')"
    using runs by (simp_all add: Client_def Server_def handshake_eqs ia rb)
  have sent: "nc_sent (w_conn wa') = nc_sent (w_conn va)" "nc_sent (w_conn wb') = nc_sent (w_conn vb)"
    using arg_cong [OF ca, of "\<lambda>r. nc_sent (w_conn (snd r))"] arg_cong [OF cb, of "\<lambda>r. nc_sent (w_conn (snd r))"]
    by simp_all
  obtain shared where res: "xa = Ok (hs_result C shared (Identity_Public C b))"
    "xb = Ok (hs_result C shared (Identity_Public C a))"
    using honest_agreement [OF laws ids cfgA cfgB _ _ _ _ _ ia rb] conns rng wires sent by auto
  have acc: "accepts (w_conn va)" "accepts (w_conn vb)"
    using runInitiator_accepts [of ?sa C cfgA] runResponder_accepts [of ?sb C cfgB] conns ia rb by simp_all
  obtain c1 w1 where c1: "defer_deadline (cfg_HandshakeTimeout cfgA > 0) (wrap_conn True (xa, va)) = (Ok c1, w1)"
    "RemoteIdentity c1 = Identity_Public C b" "c_readAEAD c1 = derive C shared channelKeyLabelR2I 32"
    "c_writeAEAD c1 = derive C shared channelKeyLabelI2R 32" "c_readSeq c1 = 0" "c_writeSeq c1 = 0" "c_readBuf c1 = []"
    "c_raw c1 = Some (w_conn w1)" "accepts (w_conn w1)"
    using wrap_result [OF _ acc(1), of "(xa, va)" C shared "Identity_Public C b" "cfg_HandshakeTimeout cfgA > 0" True] res(1)
    by (metis (full_types))
  obtain c2 w2 where c2: "defer_deadline (cfg_HandshakeTimeout cfgB > 0) (wrap_conn False (xb, vb)) = (Ok c2, w2)"
    "RemoteIdentity c2 = Identity_Public C a" "c_readAEAD c2 = derive C shared channelKeyLabelI2R 32"
    "c_writeAEAD c2 = derive C shared channelKeyLabelR2I 32" "c_readSeq c2 = 0" "c_writeSeq c2 = 0" "c_readBuf c2 = []"
    "c_raw c2 = Some (w_conn w2)" "accepts (w_conn w2)"
    using wrap_result [OF _ acc(2), of "(xb, vb)" C shared "Identity_Public C a" "cfg_HandshakeTimeout cfgB > 0" False] res(2)
    by (metis (full_types))
  note aead = crypto_lawsD(8) [OF laws]
  have "carries C c1 c2" using c1 c2 by (intro carriesI [OF aead _ _ _ _ _ c1(8,9) c2(8)]) simp_all
  moreover have "carries C c2 c1" using c1 c2 by (intro carriesI [OF aead _ _ _ _ _ c2(8,9) c1(8)]) simp_all
  moreover have "ra = Ok c1" "rb = Ok c2" using ca cb c1(1) c2(1) by simp_all
  ultimately show ?thesis using c1(2) c2(2) by auto
qed

text \<open>Both ends of a session on the sample identities.\<close>

definition ep_client :: "bytes \<Rightarrow> (bytes, bytes) Conn result \<times> world" where
  "ep_client inbox = Client toy_crypto 0 (fresh_conn [inbox] EOF) (Some (toy_cfg 1 (Some (toy_pub 2)))) (toy_world [])"

definition ep_hello :: bytes where
  "ep_hello = nc_sent (w_conn (snd (ep_client [])))"

definition ep_server :: "(bytes, bytes) Conn result \<times> world" where
  "ep_server = Server toy_crypto 0 (fresh_conn [ep_hello] EOF) (Some (toy_cfg 2 None)) (toy_world [])"

definition ep_reply :: bytes where
  "ep_reply = nc_sent (w_conn (snd ep_server))"

lemma ep_client_sends: "nc_sent (w_conn (snd (ep_client x))) = ep_hello"
proof -
  let ?cfg = "toy_cfg 1 (Some (toy_pub 2))"
  let ?w = "\<lambda>y. hs_start 0 ?cfg ((toy_world [])\<lparr>w_conn := fresh_conn [y] EOF\<rparr>)"
  have "nc_sent (w_conn (snd (ep_client y))) =
      frame (two_fields (idp toy_crypto (toy_id 1)) (fst (Sign toy_crypto (toy_id 1) hsLabelInit (idp toy_crypto (toy_id 1)) (?w y))))" for y
    using initiator_sends [OF toy_crypto_laws toy_identity, of ?cfg 1 "?w y"]
    by (auto simp: ep_client_def Client_def handshake_eqs)
  then show ?thesis unfolding ep_hello_def using toy_Sign by metis
qed

lemma ep_session:
  obtains ca cb wa wb where "ep_client ep_reply = (Ok ca, wa)" "ep_server = (Ok cb, wb)"
proof -
  obtain ra wa where a: "ep_client ep_reply = (ra, wa)" by (cases "ep_client ep_reply")
  obtain rb wb where b: "ep_server = (rb, wb)" by (cases ep_server)
  have s: "nc_sent (w_conn wa) = ep_hello" "nc_sent (w_conn wb) = ep_reply"
    using ep_client_sends [of ep_reply] a arg_cong [OF b, of "\<lambda>r. nc_sent (w_conn (snd r))"]
    by (simp_all add: ep_reply_def)
  have "\<exists>ca cb. ra = Ok ca \<and> rb = Ok cb"
    using honest_endpoints [OF toy_crypto_laws toy_identity [of 1] toy_identity [of 2] _ _ _ _ _ _ _ _ _
        a [unfolded ep_client_def] b [unfolded ep_server_def]] s sample_ready by auto
  with a b that show thesis by blast
qed

subsection \<open>Listeners and configurations\<close>

lemma defer_deadline_OkD:
  assumes "defer_deadline timed r = (Ok c, w')"
  obtains c0 v where "r = (Ok c0, v)" "c = c0\<lparr>c_raw := c_raw c\<rparr>" "w_mem w' = w_mem v"
  using assms by (cases r; cases "fst r") (auto simp: defer_deadline_def Let_def split: if_splits)

lemma defer_wrap_raw: "defer_deadline timed (wrap_conn i r) = (Ok c, w') \<Longrightarrow> c_raw c \<noteq> None"
  by (auto simp: defer_deadline_def Let_def wrap_conn_Ok_iff newConn_Ok_iff split: prod.splits if_splits outcome.splits)

text \<open>C30: a connection whose handshake fails does not disturb the listener: after any \<open>Accept\<close> on an
  open listener, whatever it returns, the listener is still open with exactly the head of its queue
  consumed, so calling \<open>Accept\<close> again serves the next connection.\<close>

theorem Accept_keeps_listening:
  assumes "\<not> nl_closed (ln_raw l)" "nl_queue (ln_raw l) = q # qs" "Listener_Accept C now l w = (x, l', w')"
  shows "l' = l\<lparr>ln_raw := (ln_raw l)\<lparr>nl_queue := qs\<rparr>\<rparr> \<and>
    (\<forall>conn qs'. qs = Inr conn # qs' \<longrightarrow>
       fst (Listener_Accept C now l' v) = fst (serverHandshake C now (ln_cfg l) (v\<lparr>w_conn := conn\<rparr>)))"
  using assms by (cases q) (auto simp: Listener_Accept_def nl_Accept_def split: prod.splits)

definition sample_listener :: "net_conn ext list \<Rightarrow> (bytes, bytes, bytes, bytes) Listener" where
  "sample_listener q =
     \<lparr>ln_raw = \<lparr>nl_addr = ''127.0.0.1:9999'', nl_queue = q, nl_end = ErrClosed, nl_closed = False\<rparr>,
      ln_cfg = Some (toy_cfg 2 None)\<rparr>"

theorem Accept_keeps_listening_witness:
  "\<exists>l' w'. Listener_Accept toy_crypto 0 (sample_listener [Inl EOF, Inr (fresh_conn [] EOF)]) (toy_world []) = (Err EOF, l', w') \<and>
    nl_queue (ln_raw l') = [Inr (fresh_conn [] EOF)]"
proof -
  let ?l = "sample_listener [Inl EOF, Inr (fresh_conn [] EOF)]"
  obtain l' w' where a: "Listener_Accept toy_crypto 0 ?l (toy_world []) = (Err EOF, l', w')"
    by (simp add: Listener_Accept_def nl_Accept_def sample_listener_def)
  have "\<not> nl_closed (ln_raw ?l)" "nl_queue (ln_raw ?l) = Inl EOF # [Inr (fresh_conn [] EOF)]"
    by (simp_all add: sample_listener_def)
  from Accept_keeps_listening [OF this a, of "toy_world []"] a show ?thesis by auto
qed

text \<open>C29: a connection that \<open>Accept\<close> hands out belongs to the peer whose identity it reports: that
  identity was parsed from the first frame of the connection, signed that frame and satisfies the
  listener's pin; the channel is fresh (both counters zero, empty buffer) with 32-byte keys.\<close>

theorem Accept_authenticated:
  assumes "Listener_Accept C now l w = (Ok c, l', w')" "ln_cfg l = Some cfg" "nl_queue (ln_raw l) = Inr conn # qs"
  shows "\<exists>ident sig rest. avail (nc_in conn) = frame (two_fields ident sig) @ rest \<and>
    ParseIdentityPublic C ident = Ok (RemoteIdentity c) \<and>
    Verify C (RemoteIdentity c) hsLabelInit ident sig = Ok () \<and> \<not> pin_mismatch C cfg (RemoteIdentity c) \<and>
    conn_inv c \<and> c_readSeq c = 0 \<and> c_writeSeq c = 0 \<and> c_readBuf c = []"
proof -
  from assms have "serverHandshake C now (Some cfg) (w\<lparr>w_conn := conn\<rparr>) = (Ok c, w')"
    by (auto simp: Listener_Accept_def nl_Accept_def split: prod.splits if_splits)
  then obtain c0 v where wr: "wrap_conn False (runResponder C (Some cfg) (hs_start now cfg (w\<lparr>w_conn := conn\<rparr>))) = (Ok c0, v)"
    and c: "c = c0\<lparr>c_raw := c_raw c\<rparr>" "c_raw c \<noteq> None"
    unfolding handshake_eqs using defer_wrap_raw by (metis defer_deadline_OkD)
  then obtain res u res' where rr: "runResponder C (Some cfg) (hs_start now cfg (w\<lparr>w_conn := conn\<rparr>)) = (Ok res, u)"
    and nc: "newConn (w_conn u) res False = (Ok c0, res')" by (auto simp: wrap_conn_Ok_iff)
  from rr obtain init w1 where
    "responder_hello C cfg (hs_start now cfg (w\<lparr>w_conn := conn\<rparr>)) = (Ok (init, hs_remote res), w1)"
    by (rule runResponder_OkD)
  then have "\<exists>w1. responder_hello C cfg (hs_start now cfg (w\<lparr>w_conn := conn\<rparr>)) = (Ok (init, hs_remote res), w1)" by blast
  note hello = this [unfolded responder_hello_Ok_iff]
  have "conn_inv c0" using newConn_inv [OF nc] .
  then have "conn_inv c" using c by (metis conn_inv_updates(3) option.exhaust_sel)
  moreover have "RemoteIdentity c = hs_remote res" "c_readSeq c = 0" "c_writeSeq c = 0" "c_readBuf c = []"
    using nc by (subst c(1), simp add: newConn_Ok_iff RemoteIdentity_def)+
  ultimately show ?thesis using hello by auto
qed

text \<open>\<open>Dial\<close> and \<open>Listen\<close> refuse a nil configuration or identity with \<open>ErrConfigMissingID\<close>
  before they touch the network; \<open>Client\<close> and \<open>Server\<close> dereference the nil configuration and
  panic.\<close>

lemma nil_configuration:
  "Dial C net_dial now addr None w = (Err ErrConfigMissingID, w) \<and>
   Dial C net_dial now addr (Some (cfg\<lparr>cfg_LocalIdentity := None\<rparr>)) w = (Err ErrConfigMissingID, w) \<and>
   Listen net_listen addr (None :: ('dsk, 'dpk, 'ksk, 'kpk) Config option) = Err ErrConfigMissingID \<and>
   Listen net_listen addr (Some (cfg\<lparr>cfg_LocalIdentity := None\<rparr>)) = Err ErrConfigMissingID \<and>
   is_Panic (fst (Client C now raw None w)) \<and> is_Panic (fst (Server C now raw None w))"
  by (simp add: Dial_def Listen_def missing_id_def Client_def Server_def clientHandshake_def serverHandshake_def
      nil_panic_def)

lemma run_result:
  assumes "(if i then runInitiator else runResponder) C (Some cfg) w = (Ok res, w')"
  shows "\<exists>shared remote. res = hs_result C shared remote"
proof (cases i)
  case True
  with assms have "runInitiator C (Some cfg) w = (Ok res, w')" by simp
  from runInitiator_OkD [OF this] obtain p resp shared w2 where
    "\<exists>u. initiator_finish C cfg p resp shared w2 = (Ok res, u)" by metis
  then show ?thesis unfolding initiator_finish_Ok_iff by blast
next
  case False
  with assms have "runResponder C (Some cfg) w = (Ok res, w')" by simp
  from runResponder_OkD [OF this] show ?thesis by metis
qed

text \<open>C31: what a successful handshake leaves of its result in memory, in either role (\<open>initiator\<close> says
  which): both channel keys are zeroed, but the X-Wing secret from which both keys (and nothing
  else) are derived is left as it is, so the zeroing protects nothing against a later memory
  disclosure.\<close>

theorem shared_secret_not_wiped:
  assumes "(if initiator then clientHandshake else serverHandshake) C now (Some cfg) w = (Ok c, w')"
  shows "\<exists>shared mem. w_mem w' = mem @ [(''shared'', shared), (''keyI2R'', replicate 32 0), (''keyR2I'', replicate 32 0)] \<and>
    c_writeAEAD c = derive C shared (if initiator then channelKeyLabelI2R else channelKeyLabelR2I) 32 \<and>
    c_readAEAD c = derive C shared (if initiator then channelKeyLabelR2I else channelKeyLabelI2R) 32"
proof -
  let ?r = "(if initiator then runInitiator else runResponder) C (Some cfg) (hs_start now cfg w)"
  have "defer_deadline (cfg_HandshakeTimeout cfg > 0) (wrap_conn initiator ?r) = (Ok c, w')"
    using assms by (cases initiator) (simp_all add: handshake_eqs)
  then obtain c0 v where wr: "wrap_conn initiator ?r = (Ok c0, v)" and c: "c = c0\<lparr>c_raw := c_raw c\<rparr>"
    and mem: "w_mem w' = w_mem v"
    by (rule defer_deadline_OkD)
  from wr obtain res u res' where ri: "?r = (Ok res, u)" and nc: "newConn (w_conn u) res initiator = (Ok c0, res')"
    and v: "v = leave [(''shared'', hs_shared res'), (''keyI2R'', hs_keyI2R res'), (''keyR2I'', hs_keyR2I res')] u"
    unfolding wrap_conn_Ok_iff by blast
  from run_result [OF ri] obtain shared remote where res: "res = hs_result C shared remote" by blast
  have "c_writeAEAD c = c_writeAEAD c0" "c_readAEAD c = c_readAEAD c0" by (subst c, simp)+
  with res nc mem v show ?thesis
    by (intro exI [of _ shared] exI [of _ "w_mem u"]) (cases initiator; auto simp: newConn_Ok_iff)
qed

theorem deadline_lifted_witness:
  "\<exists>c w' raw. serverHandshake toy_crypto 0 (Some (toy_cfg 2 None)) ((toy_world [])\<lparr>w_conn := fresh_conn [ep_hello] EOF\<rparr>) = (Ok c, w') \<and>
    c_raw c = Some raw \<and> nc_rdeadline raw = None \<and> nc_wdeadline raw = None"
proof -
  obtain c w' where "ep_server = (Ok c, w')" by (rule ep_session)
  then have s: "serverHandshake toy_crypto 0 (Some (toy_cfg 2 None)) ((toy_world [])\<lparr>w_conn := fresh_conn [ep_hello] EOF\<rparr>) = (Ok c, w')"
    by (simp add: ep_server_def Server_def)
  from deadline_lifted [OF _ disjI2 [OF s]] s show ?thesis by (auto simp: toy_cfg_def)
qed

theorem Accept_authenticated_witness:
  "\<exists>c l' w'. Listener_Accept toy_crypto 0 (sample_listener [Inr (fresh_conn [ep_hello] EOF)]) (toy_world []) = (Ok c, l', w') \<and>
    (\<exists>ident. ParseIdentityPublic toy_crypto ident = Ok (RemoteIdentity c))"
proof -
  let ?l = "sample_listener [Inr (fresh_conn [ep_hello] EOF)]"
  obtain c w' where "ep_server = (Ok c, w')" by (rule ep_session)
  then obtain l' where a: "Listener_Accept toy_crypto 0 ?l (toy_world []) = (Ok c, l', w')"
    by (simp add: ep_server_def Server_def Listener_Accept_def nl_Accept_def sample_listener_def)
  from Accept_authenticated [OF a, of "toy_cfg 2 None" "fresh_conn [ep_hello] EOF" "[]"] a show ?thesis
    by (auto simp: sample_listener_def)
qed

theorem shared_secret_not_wiped_witness:
  "(\<exists>c w' shared. clientHandshake toy_crypto 0 (Some (toy_cfg 1 (Some (toy_pub 2))))
      ((toy_world [])\<lparr>w_conn := fresh_conn [ep_reply] EOF\<rparr>) = (Ok c, w') \<and>
    (''shared'', shared) \<in> set (w_mem w') \<and> c_writeAEAD c = derive toy_crypto shared channelKeyLabelI2R 32) \<and>
   (\<exists>c w' shared. serverHandshake toy_crypto 0 (Some (toy_cfg 2 None))
      ((toy_world [])\<lparr>w_conn := fresh_conn [ep_hello] EOF\<rparr>) = (Ok c, w') \<and>
    (''shared'', shared) \<in> set (w_mem w') \<and> c_writeAEAD c = derive toy_crypto shared channelKeyLabelR2I 32)"
proof -
  obtain c w' d v' where e: "ep_client ep_reply = (Ok c, w')" "ep_server = (Ok d, v')" by (rule ep_session)
  have s: "clientHandshake toy_crypto 0 (Some (toy_cfg 1 (Some (toy_pub 2))))
      ((toy_world [])\<lparr>w_conn := fresh_conn [ep_reply] EOF\<rparr>) = (Ok c, w')"
    using e(1) by (simp add: ep_client_def Client_def)
  have t: "serverHandshake toy_crypto 0 (Some (toy_cfg 2 None)) ((toy_world [])\<lparr>w_conn := fresh_conn [ep_hello] EOF\<rparr>) = (Ok d, v')"
    using trans [OF ep_server_def [symmetric] e(2)] by (simp add: Server_def)
  have "\<exists>shared. (''shared'', shared) \<in> set (w_mem w') \<and> c_writeAEAD c = derive toy_crypto shared channelKeyLabelI2R 32"
    using shared_secret_not_wiped [of True, simplified, OF s] by fastforce
  moreover have "\<exists>shared. (''shared'', shared) \<in> set (w_mem v') \<and> c_writeAEAD d = derive toy_crypto shared channelKeyLabelR2I 32"
    using shared_secret_not_wiped [of False, simplified, OF t] by fastforce
  ultimately show ?thesis using s t by blast
qed

end
