(* ===== verification/TestServer.thy ===== *)
theory TestServer
  imports EpProps
begin

text \<open>
  The interoperability test server (\<open>cmd/zwing-test-server/main.go\<close>): it generates an identity,
  listens, prints its address and public identity, accepts one connection, echoes one read and
  exits. \<open>log.Fatalf\<close> ends the process without running deferred calls.
\<close>

datatype exit = Exit0 | Fatal string go_error | Crash string

record server_run =
  sv_exit :: exit
  sv_stdout :: "string list"
  sv_listener :: "(net_listener) option"
  sv_conn :: "net_conn option"

text \<open>
  A return and a panic run the deferred calls, a fatal exit does not. \<open>defer conn.Close()\<close> runs
  before \<open>defer ln.Close()\<close>.
\<close>

definition unwinds :: "exit \<Rightarrow> bool" where
  "unwinds e = (case e of Fatal _ _ \<Rightarrow> False | _ \<Rightarrow> True)"

definition defer_ln_Close ::
  "exit \<Rightarrow> ('dsk, 'dpk, 'ksk, 'kpk) Listener \<Rightarrow> ('dsk, 'dpk, 'ksk, 'kpk) Listener" where
  "defer_ln_Close e ln = (if unwinds e then snd (Listener_Close ln) else ln)"

definition defer_conn_Close :: "exit \<times> ('dpk, 'kpk) Conn \<Rightarrow> exit \<times> ('dpk, 'kpk) Conn" where
  "defer_conn_Close r = (case r of (e, conn) \<Rightarrow> (e, if unwinds e then snd (Conn_Close conn) else conn))"

text \<open>
  One read into the buffer of 4096 bytes and one write of \<open>buf[:n]\<close>.
\<close>

definition serve_one ::
  "('dsk, 'dpk, 'ksk, 'kpk) crypto \<Rightarrow> ('dpk, 'kpk) Conn \<Rightarrow> exit \<times> ('dpk, 'kpk) Conn" where
  "serve_one C conn =
     (case Conn_Read C 4096 conn of
        (Err e, conn) \<Rightarrow> (if e = EOF then Exit0 else Fatal ''read'' e, conn)
      | (Panic p, conn) \<Rightarrow> (Crash p, conn)
      | (Ok filled, conn) \<Rightarrow>
          (let buf = copy_array 4096 filled; n = int (length filled) in
           case bindS (slice 0 n buf, conn) (\<lambda>payload conn. Conn_Write C payload conn) of
             (Ok (_, Some e), conn) \<Rightarrow> (Fatal ''write'' e, conn)
           | (Ok (_, None), conn) \<Rightarrow> (Exit0, conn)
           | (Err e, conn) \<Rightarrow> (Fatal ''write'' e, conn)
           | (Panic p, conn) \<Rightarrow> (Crash p, conn)))"

definition main ::
  "('dsk, 'dpk, 'ksk, 'kpk) crypto \<Rightarrow> (string \<Rightarrow> net_listener ext) \<Rightarrow> int \<Rightarrow> string \<Rightarrow> world \<Rightarrow> server_run" where
  "main C net_listen now addr w =
     (case GenerateIdentity C w of
        (Err e, w) \<Rightarrow> \<lparr>sv_exit = Fatal ''identity'' e, sv_stdout = [], sv_listener = None, sv_conn = None\<rparr>
      | (Panic p, w) \<Rightarrow> \<lparr>sv_exit = Crash p, sv_stdout = [], sv_listener = None, sv_conn = None\<rparr>
      | (Ok ident, w) \<Rightarrow>
     (case Listen net_listen addr (Some \<lparr>cfg_LocalIdentity = Some ident, cfg_ExpectedRemote = None, cfg_HandshakeTimeout = 0\<rparr>) of
        Err e \<Rightarrow> \<lparr>sv_exit = Fatal ''listen'' e, sv_stdout = [], sv_listener = None, sv_conn = None\<rparr>
      | Panic p \<Rightarrow> \<lparr>sv_exit = Crash p, sv_stdout = [], sv_listener = None, sv_conn = None\<rparr>
      | Ok ln \<Rightarrow>
     (let pubBytes = Identity_MarshalBinary C (Identity_Public C ident);
          out = [Listener_Addr ln, EncodeToString pubBytes] in
      case Listener_Accept C now ln w of
        (Err e, ln, w) \<Rightarrow>
          \<lparr>sv_exit = Fatal ''accept'' e, sv_stdout = out,
           sv_listener = Some (ln_raw (defer_ln_Close (Fatal ''accept'' e) ln)), sv_conn = None\<rparr>
      | (Panic p, ln, w) \<Rightarrow>
          \<lparr>sv_exit = Crash p, sv_stdout = out, sv_listener = Some (ln_raw (defer_ln_Close (Crash p) ln)), sv_conn = None\<rparr>
      | (Ok conn, ln, w) \<Rightarrow>
     (case defer_conn_Close (serve_one C conn) of
        (e, conn) \<Rightarrow>
          \<lparr>sv_exit = e, sv_stdout = out, sv_listener = Some (ln_raw (defer_ln_Close e ln)), sv_conn = c_raw conn\<rparr>))))"

text \<open>The listener \<open>main\<close> opens.\<close>

abbreviation server_listener ::
  "('dsk, 'ksk) Identity \<Rightarrow> net_listener \<Rightarrow> ('dsk, 'dpk, 'ksk, 'kpk) Listener" where
  "server_listener i nl \<equiv> \<lparr>ln_raw = nl,
     ln_cfg = Some \<lparr>cfg_LocalIdentity = Some i, cfg_ExpectedRemote = None, cfg_HandshakeTimeout = 0\<rparr>\<rparr>"

text \<open>\<open>main\<close> once the listener is up.\<close>

lemma main_serving:
  assumes "GenerateIdentity C w = (Ok i, w1)" "net_listen addr = Inr nl"
  shows "main C net_listen now addr w =
     (case Listener_Accept C now (server_listener i nl) w1 of
        (Err e, ln, w) \<Rightarrow> \<lparr>sv_exit = Fatal ''accept'' e, sv_stdout = [nl_addr nl, EncodeToString (idp C i)],
          sv_listener = Some (ln_raw (defer_ln_Close (Fatal ''accept'' e) ln)), sv_conn = None\<rparr>
      | (Panic p, ln, w) \<Rightarrow> \<lparr>sv_exit = Crash p, sv_stdout = [nl_addr nl, EncodeToString (idp C i)],
          sv_listener = Some (ln_raw (defer_ln_Close (Crash p) ln)), sv_conn = None\<rparr>
      | (Ok c, ln, w) \<Rightarrow> (case defer_conn_Close (serve_one C c) of (e, c) \<Rightarrow>
          \<lparr>sv_exit = e, sv_stdout = [nl_addr nl, EncodeToString (idp C i)],
           sv_listener = Some (ln_raw (defer_ln_Close e ln)), sv_conn = c_raw c\<rparr>))"
  by (simp add: main_def assms Listen_def missing_id_def Listener_Addr_def Let_def)

lemma hex_length: "length (EncodeToString b) = 2 * length b"
  by (induction b) (simp_all add: EncodeToString_def)

lemma GenerateIdentity_key:
  assumes "crypto_laws C" "GenerateIdentity C w = (Ok i, w')"
  shows "identity_key C i"
  using GenerateIdentityFrom_key [OF crypto_lawsD(6) [OF assms(1)]] assms(2) by (simp add: GenerateIdentity_def)

lemma ext_call_not_Panic: "\<not> is_Panic (fst (ext_call r f v))"
  by (simp add: ext_call_def split_def)

lemma GenerateIdentity_not_Panic [simp]: "\<not> is_Panic (fst (GenerateIdentity C w))"
proof -
  have "\<not> is_Panic (fst (with_reader r (ReadFull 32) v))" for r v
    by (cases r) (simp_all add: with_reader_def split_def)
  then show ?thesis
    by (simp add: GenerateIdentity_def GenerateIdentityFrom_def mldsa_GenerateKey_def GenerateXWingKey_def
        Let_def bindS_not_Panic ext_call_not_Panic split_def)
qed

lemma Listener_Close_closed: "nl_closed (ln_raw (snd (Listener_Close ln)))"
  by (auto simp: Listener_Close_def nl_Close_def split: prod.splits)

lemma Conn_Close_sent:
  "c_raw c = Some raw \<Longrightarrow> \<exists>raw'. c_raw (snd (Conn_Close c)) = Some raw' \<and> nc_closed raw' \<and> nc_sent raw' = nc_sent raw"
  by (auto simp: Conn_Close_def on_raw_def conn_Close_def)

lemma Conn_Read_keeps:
  assumes "c_raw c = Some raw" "Conn_Read C n c = (x, c')"
  shows "\<exists>raw'. c_raw c' = Some raw' \<and> nc_sent raw' = nc_sent raw"
    "c_writeSeq c' = c_writeSeq c" "c_writeAEAD c' = c_writeAEAD c" "x = Ok bs \<Longrightarrow> length bs \<le> n"
proof -
  obtain y r where rf: "readFrame raw = (y, raw\<lparr>nc_in := r\<rparr>)" using readFrame_frame_cond [of raw] by (metis prod.collapse)
  show "\<exists>raw'. c_raw c' = Some raw' \<and> nc_sent raw' = nc_sent raw" "c_writeSeq c' = c_writeSeq c"
    "c_writeAEAD c' = c_writeAEAD c" "x = Ok bs \<Longrightarrow> length bs \<le> n"
    using assms rf by (auto simp: Conn_Read_slices Let_def split: option.splits outcome.splits if_splits)
qed

lemma Conn_Write_sends:
  assumes "c_raw c = Some raw" "Conn_Write C b c = (y, c')"
  shows "\<exists>raw' ext. c_raw c' = Some raw' \<and> nc_sent raw' = nc_sent raw @ ext \<and>
    (y = Ok (n, None) \<longrightarrow> ext = wire_of C (c_writeAEAD c) (seal_log (c_writeSeq c) (chunks maxPlain b)))"
proof -
  from Conn_Write_loop_effect [OF assms(1), of 0 b C] assms(2) obtain m e raw' j where
    y: "y = Ok (m, e)" and f: "write_effect C (chunks maxPlain b) m e c c' raw raw' j"
    by (auto simp: Conn_Write_def)
  have "\<exists>ext. nc_sent raw' = nc_sent raw @ ext \<and>
      (e = None \<longrightarrow> ext = wire_of C (c_writeAEAD c) (seal_log (c_writeSeq c) (chunks maxPlain b)))"
    using f by (auto simp: write_effect_def Let_def dest!: writeFrame_prefix)
  with y write_effect_frame(5) [OF f] show ?thesis by auto
qed

text \<open>
  What one service does: it ends normally after an early hang-up or an exact echo, and on every
  path the connection keeps what was sent before.
\<close>

lemma serve_one_effect:
  assumes "c_raw c = Some raw" "serve_one C c = (e, c')"
  shows "\<exists>raw' ext. c_raw c' = Some raw' \<and> nc_sent raw' = nc_sent raw @ ext \<and>
    (e = Exit0 \<longrightarrow> fst (Conn_Read C 4096 c) = Err EOF \<and> ext = [] \<or>
      (\<exists>buf c1. Conn_Read C 4096 c = (Ok buf, c1) \<and>
         ext = wire_of C (c_writeAEAD c) (seal_log (c_writeSeq c) (chunks maxPlain buf))))"
proof -
  obtain x c1 where r: "Conn_Read C 4096 c = (x, c1)" by (cases "Conn_Read C 4096 c")
  note k = Conn_Read_keeps [OF assms(1) r]
  from k(1) obtain raw1 where raw1: "c_raw c1 = Some raw1" "nc_sent raw1 = nc_sent raw" by blast
  show ?thesis
  proof (cases x)
    case (Ok buf)
    obtain y c2 where w: "Conn_Write C buf c1 = (y, c2)" by (cases "Conn_Write C buf c1")
    have "slice 0 (int (length buf)) (copy_array 4096 buf) = (Ok buf :: bytes result)"
      using k(4) [OF Ok] by (simp add: copy_array_def)
    with assms(2) r Ok w have e: "c' = c2" "e = Exit0 \<longrightarrow> (\<exists>n. y = Ok (n, None))"
      by (auto simp: serve_one_def Let_def split: outcome.splits option.splits prod.splits)
    show ?thesis using Conn_Write_sends [OF raw1(1) w] raw1(2) k(2,3) e r Ok by fastforce
  qed (use assms(2) r raw1 in \<open>auto simp: serve_one_def split: if_splits\<close>)
qed

lemma Accept_raw:
  assumes "Listener_Accept C now (server_listener i nl) w = (Ok c, ln, w')"
  shows "\<exists>conn qs res u. nl_queue nl = Inr conn # qs \<and> c_raw c = Some (w_conn w') \<and> c_writeSeq c = 0 \<and>
    runResponder C (ln_cfg (server_listener i nl)) (w\<lparr>w_conn := conn\<rparr>) = (Ok res, u) \<and>
    nc_sent (w_conn w') = nc_sent (w_conn u)"
proof -
  let ?cfg = "\<lparr>cfg_LocalIdentity = Some i, cfg_ExpectedRemote = None, cfg_HandshakeTimeout = 0\<rparr>"
  from assms obtain conn qs where q: "nl_queue nl = Inr conn # qs"
    and s: "serverHandshake C now (Some ?cfg) (w\<lparr>w_conn := conn\<rparr>) = (Ok c, w')"
    by (auto simp: Listener_Accept_def nl_Accept_def split: prod.splits sum.splits if_splits list.splits)
  from s obtain res u res' where "runResponder C (Some ?cfg) (w\<lparr>w_conn := conn\<rparr>) = (Ok res, u)"
    "newConn (w_conn u) res False = (Ok c, res')" "w_conn w' = w_conn u"
    by (auto simp: serverHandshake_def defer_deadline_def wrap_conn_Ok_iff)
  with q show ?thesis by (auto simp: newConn_Ok_iff)
qed

text \<open>C35: when the server exits normally, it accepted one connection, and either the peer hung up
  before sending anything and the server sent nothing on the channel, or what it sent on the
  channel is exactly the bytes of its one read, sealed from counter zero and nothing else; the
  connection and the listener are closed.\<close>

theorem main_clean_exit:
  assumes "sv_exit (main C net_listen now addr w) = Exit0"
  shows "\<exists>i w1 nl c ln w2 raw0 raw l. GenerateIdentity C w = (Ok i, w1) \<and> net_listen addr = Inr nl \<and>
    Listener_Accept C now (server_listener i nl) w1 = (Ok c, ln, w2) \<and> c_raw c = Some raw0 \<and>
    sv_listener (main C net_listen now addr w) = Some l \<and> nl_closed l \<and>
    sv_conn (main C net_listen now addr w) = Some raw \<and> nc_closed raw \<and>
    (fst (Conn_Read C 4096 c) = Err EOF \<and> nc_sent raw = nc_sent raw0 \<or>
     (\<exists>buf c1. Conn_Read C 4096 c = (Ok buf, c1) \<and>
        nc_sent raw = nc_sent raw0 @ wire_of C (c_writeAEAD c) (seal_log 0 (chunks maxPlain buf))))"
proof -
  from assms obtain i w1 nl where g: "GenerateIdentity C w = (Ok i, w1)" and n: "net_listen addr = Inr nl"
    by (auto simp: main_def Listen_def missing_id_def split: prod.splits outcome.splits sum.splits)
  note M = main_serving [of C w i w1 net_listen addr nl now, OF g n]
  from assms obtain c ln w2 where a: "Listener_Accept C now (server_listener i nl) w1 = (Ok c, ln, w2)"
    unfolding M by (auto split: prod.splits outcome.splits)
  obtain e c' where s: "serve_one C c = (e, c')" by (cases "serve_one C c")
  have M: "main C net_listen now addr w = \<lparr>sv_exit = e, sv_stdout = [nl_addr nl, EncodeToString (idp C i)],
      sv_listener = Some (ln_raw (defer_ln_Close e ln)), sv_conn = c_raw (snd (defer_conn_Close (e, c')))\<rparr>"
    unfolding M a by (simp add: s defer_conn_Close_def)
  have e: "e = Exit0" using assms by (simp add: M)
  from Accept_raw [OF a] have c: "c_raw c = Some (w_conn w2)" "c_writeSeq c = 0" by auto
  from serve_one_effect [OF c(1) s] e c(2) obtain raw' where raw': "c_raw c' = Some raw'"
    "fst (Conn_Read C 4096 c) = Err EOF \<and> nc_sent raw' = nc_sent (w_conn w2) \<or>
      (\<exists>buf c1. Conn_Read C 4096 c = (Ok buf, c1) \<and>
        nc_sent raw' = nc_sent (w_conn w2) @ wire_of C (c_writeAEAD c) (seal_log 0 (chunks maxPlain buf)))"
    by auto
  from Conn_Close_sent [OF raw'(1)] obtain raw where
    "c_raw (snd (Conn_Close c')) = Some raw" "nc_closed raw" "nc_sent raw = nc_sent raw'" by blast
  with raw'(2) have "sv_conn (main C net_listen now addr w) = Some raw" "nc_closed raw"
    "fst (Conn_Read C 4096 c) = Err EOF \<and> nc_sent raw = nc_sent (w_conn w2) \<or>
      (\<exists>buf c1. Conn_Read C 4096 c = (Ok buf, c1) \<and>
        nc_sent raw = nc_sent (w_conn w2) @ wire_of C (c_writeAEAD c) (seal_log 0 (chunks maxPlain buf)))"
    by (simp_all add: M e defer_conn_Close_def unwinds_def)
  moreover have "sv_listener (main C net_listen now addr w) = Some (ln_raw (snd (Listener_Close ln)))"
    by (simp add: M e defer_ln_Close_def unwinds_def)
  ultimately show ?thesis using g n a c(1) Listener_Close_closed [of ln] by blast
qed

lemma served_identity:
  assumes "crypto_laws C" "identity_key C i" "GenerateIdentity C w = (Ok i, w1)" "net_listen addr = Inr nl"
    and "sv_conn (main C net_listen now addr w) = Some raw"
  shows "\<exists>conn qs ident ct shared sig rest. nl_queue nl = Inr conn # qs \<and>
    nc_sent raw = nc_sent conn @ frame (resp_payload C ct shared (idp C i) sig) @ rest \<and>
    Verify C (Identity_Public C i) hsLabelResponse (transcriptHash ident ct) sig = Ok ()"
proof -
  note M = main_serving [of C w i w1 net_listen addr nl now, OF assms(3,4)]
  from assms(5) obtain c ln w2 where a: "Listener_Accept C now (server_listener i nl) w1 = (Ok c, ln, w2)"
    unfolding M by (auto split: prod.splits outcome.splits)
  obtain e c' where s: "serve_one C c = (e, c')" by (cases "serve_one C c")
  from Accept_raw [OF a] obtain conn qs res u where q: "nl_queue nl = Inr conn # qs"
    and c: "c_raw c = Some (w_conn w2)" and u: "nc_sent (w_conn w2) = nc_sent (w_conn u)"
    and r: "runResponder C (ln_cfg (server_listener i nl)) (w1\<lparr>w_conn := conn\<rparr>) = (Ok res, u)" by blast
  from responder_sends [OF r [simplified], of i] assms(1,2) obtain ident ct sig where
    sg: "Verify C (Identity_Public C i) hsLabelResponse (transcriptHash ident ct) sig = Ok ()"
    and snt: "nc_sent (w_conn u) = nc_sent conn @ frame (resp_payload C ct (hs_shared res) (idp C i) sig)" by auto
  from serve_one_effect [OF c s] obtain raw' ext where
    e: "c_raw c' = Some raw'" "nc_sent raw' = nc_sent (w_conn w2) @ ext" by blast
  have "nc_sent raw = nc_sent raw'"
    using assms(5) Conn_Close_sent [OF e(1)] e(1) unfolding M a
    by (auto simp: s defer_conn_Close_def split: if_splits)
  with e(2) u snt have "nc_sent raw = nc_sent conn @ frame (resp_payload C ct (hs_shared res) (idp C i) sig) @ ext" by simp
  with q sg show ?thesis by blast
qed

text \<open>C36: the two lines a harness reads. Whenever the server prints at all it prints the listener's
  address and the hexadecimal form (6400 digits) of the identity it generated, which parses back
  to that identity; and if it served a connection, the first frame it sent there carries this very
  identity and a signature that verifies under it. Otherwise it prints nothing and exits with the
  error of generating the identity or of listening.\<close>

theorem main_announces:
  assumes "crypto_laws C"
  shows "sv_stdout (main C net_listen now addr w) = [] \<and>
      (\<exists>e. sv_exit (main C net_listen now addr w) = Fatal ''identity'' e \<or>
           sv_exit (main C net_listen now addr w) = Fatal ''listen'' e) \<or>
    (\<exists>i w1 nl. GenerateIdentity C w = (Ok i, w1) \<and> net_listen addr = Inr nl \<and>
       sv_stdout (main C net_listen now addr w) = [nl_addr nl, EncodeToString (idp C i)] \<and>
       length (EncodeToString (idp C i)) = 6400 \<and> ParseIdentityPublic C (idp C i) = Ok (Identity_Public C i) \<and>
       (\<forall>raw. sv_conn (main C net_listen now addr w) = Some raw \<longrightarrow>
         (\<exists>conn qs ident ct shared sig rest. nl_queue nl = Inr conn # qs \<and>
            nc_sent raw = nc_sent conn @ frame (resp_payload C ct shared (idp C i) sig) @ rest \<and>
            Verify C (Identity_Public C i) hsLabelResponse (transcriptHash ident ct) sig = Ok ())))"
proof -
  obtain x w1 where g: "GenerateIdentity C w = (x, w1)" by (cases "GenerateIdentity C w")
  have np: "\<not> is_Panic x" using GenerateIdentity_not_Panic [of C w] g by simp
  show ?thesis
  proof (cases "(\<exists>i. x = Ok i) \<and> (\<exists>nl. net_listen addr = Inr nl)")
    case True
    then obtain i nl where i: "GenerateIdentity C w = (Ok i, w1)" and n: "net_listen addr = Inr nl" using g by blast
    have k: "identity_key C i" using GenerateIdentity_key [OF assms i] .
    have p: "ParseIdentityPublic C (idp C i) = Ok (Identity_Public C i)"
      by (rule Parse_Identity_Marshal [OF identity_public_Public [OF assms k]])
    have "sv_stdout (main C net_listen now addr w) = [nl_addr nl, EncodeToString (idp C i)]"
      by (simp add: main_serving [of C w i w1 net_listen addr nl now, OF i n] split: prod.splits outcome.splits)
    moreover have "\<exists>conn qs ident ct shared sig rest. nl_queue nl = Inr conn # qs \<and>
            nc_sent raw = nc_sent conn @ frame (resp_payload C ct shared (idp C i) sig) @ rest \<and>
            Verify C (Identity_Public C i) hsLabelResponse (transcriptHash ident ct) sig = Ok ()"
      if "sv_conn (main C net_listen now addr w) = Some raw" for raw
      by (rule served_identity [OF assms k i n that])
    ultimately show ?thesis using i n p honest_sizes(1) [OF assms k] by (auto simp: hex_length)
  next
    case False
    then show ?thesis using np g
      by (cases x; cases "net_listen addr") (auto simp: main_def Listen_def missing_id_def)
  qed
qed

subsection \<open>A run\<close>

definition sample_net :: "string \<Rightarrow> net_listener ext" where
  "sample_net addr = Inr \<lparr>nl_addr = addr, nl_queue = [Inr (fresh_conn [sample_hello] EOF)], nl_end = ErrClosed, nl_closed = False\<rparr>"

lemma writeFrame_keeps_in: "writeFrame p c = (x, c') \<Longrightarrow> nc_in c' = nc_in c"
  using writeFrame_in [of p c] by simp

lemma responder_reply_keeps_in:
  assumes "responder_reply C i init ct ss w = (Ok (), w')"
  shows "nc_in (w_conn w') = nc_in (w_conn w)"
proof -
  have "w_conn (snd (Sign C i ctx m v)) = w_conn v" for ctx m v by simp
  with assms show ?thesis
    by (auto simp: responder_reply_def Let_def split_def outcome_simps dest!: writeFrame_keeps_in)
qed

lemma sample_responder_inbox:
  assumes "runResponder toy_crypto (Some cfg) w = (Ok res, w')" "w_conn w = fresh_conn [sample_hello] EOF"
  shows "avail (nc_in (w_conn w')) = [] \<and> r_end (nc_in (w_conn w')) = EOF"
proof -
  obtain sig where s: "sample_hello = frame (two_fields (idp toy_crypto (toy_id 1)) sig) @ []"
    "Verify toy_crypto (toy_pub 1) hsLabelInit (idp toy_crypto (toy_id 1)) sig = Ok ()" "u16_fits sig" by (rule sample_hello_is)
  from runResponder_OkD [OF assms(1)] obtain local init ct shared w1 w2 w3 where
    h: "responder_hello toy_crypto cfg w = (Ok (init, hs_remote res), w1)"
    and e: "XWingEncapsulate toy_crypto None (ip_XWingPub (hs_remote res)) w1 = (Ok (ct, shared), w2)"
    and rp: "responder_reply toy_crypto local init ct shared w2 = (Ok (), w3)" "w' = leave [(''shared'', shared)] w3" by metis
  have "avail (nc_in (w_conn w)) = frame (two_fields (idp toy_crypto (toy_id 1)) sig) @ []"
    using s(1) assms(2) by simp
  from responder_hello_honest [OF toy_crypto_laws toy_identity s(2,3) this, of cfg] h assms(2)
  have "avail (nc_in (w_conn w1)) = []" "r_end (nc_in (w_conn w1)) = EOF"
    by (auto simp: fresh_conn_def)
  moreover have "nc_in (w_conn w') = nc_in (w_conn w1)"
    using XWingEncapsulate_Ok [OF e] responder_reply_keeps_in [OF rp(1)] rp(2) by auto
  ultimately show ?thesis by simp
qed

lemma sample_server_run:
  assumes "identity_key toy_crypto i" "length (avail (w_rand w)) = 72" "w_conn w = fresh_conn [sample_hello] EOF"
    and cfg: "cfg = \<lparr>cfg_LocalIdentity = Some i, cfg_ExpectedRemote = None, cfg_HandshakeTimeout = 0\<rparr>"
  obtains c w' where "serverHandshake toy_crypto 0 (Some cfg) w = (Ok c, w')" "fst (Conn_Read toy_crypto 4096 c) = Err EOF"
proof -
  let ?C = toy_crypto
  have cf: "cfg_LocalIdentity cfg = Some i" "\<not> pin_mismatch ?C cfg r" "hs_start 0 cfg v = v" for r v
    by (simp_all add: cfg pin_mismatch_def hs_start_def)
  obtain sig where s: "sample_hello = frame (two_fields (idp ?C (toy_id 1)) sig) @ []"
    "Verify ?C (toy_pub 1) hsLabelInit (idp ?C (toy_id 1)) sig = Ok ()" "u16_fits sig" by (rule sample_hello_is)
  have w: "accepts (w_conn w)" "avail (nc_in (w_conn w)) = frame (two_fields (idp ?C (toy_id 1)) sig) @ []"
    using s(1) assms(3) by simp_all
  have "entropy_ready ?C (XWing_Public ?C (id_XWing (toy_id 1))) (w_rand w)"
    using toy_gen_rest [of "w_rand w"] assms(2) by (auto simp: entropy_ready_def toy_crypto_def)
  from responder_run_honest [OF toy_crypto_laws toy_identity assms(1) cf(1,2) w(1) this s(2,3) w(2)]
  obtain shared v where run: "runResponder ?C (Some cfg) w = (Ok (hs_result ?C shared (toy_pub 1)), v)" by blast
  have acc: "accepts (w_conn v)" using runResponder_accepts [OF w(1), of ?C cfg] run by simp
  obtain c w' where c: "serverHandshake ?C 0 (Some cfg) w = (Ok c, w')" "c_readBuf c = []" "c_raw c = Some (w_conn w')"
    "nc_in (w_conn w') = nc_in (w_conn v)"
    using wrap_result [OF run acc, of "cfg_HandshakeTimeout cfg > 0" False] unfolding handshake_eqs cf(3) by metis
  obtain r where "readFrame (w_conn w') = (Err EOF, r)"
    using readFrame_spec [of "w_conn w'"] c(4) sample_responder_inbox [OF run assms(3)]
    by (auto simp: next_frame_def short_error_def)
  with c have "fst (Conn_Read ?C 4096 c) = Err EOF" by (simp add: Conn_Read_slices)
  with c(1) that show thesis by blast
qed

lemma sample_main_exits: "sv_exit (main toy_crypto sample_net 0 ''127.0.0.1:0'' (toy_world [])) = Exit0"
proof -
  let ?C = toy_crypto
  obtain i w where g: "GenerateIdentity ?C (toy_world []) = (Ok i, w)" and l: "length (avail (w_rand w)) = 72"
    by (rule sample_identity)
  let ?cfg = "\<lparr>cfg_LocalIdentity = Some i, cfg_ExpectedRemote = None, cfg_HandshakeTimeout = 0\<rparr>"
  obtain c w' where c: "serverHandshake ?C 0 (Some ?cfg) (w\<lparr>w_conn := fresh_conn [sample_hello] EOF\<rparr>) = (Ok c, w')"
    "fst (Conn_Read ?C 4096 c) = Err EOF"
    using sample_server_run [OF GenerateIdentity_key [OF toy_crypto_laws g], of "w\<lparr>w_conn := fresh_conn [sample_hello] EOF\<rparr>" ?cfg] l
    by auto
  from c(2) obtain c1 where "Conn_Read ?C 4096 c = (Err EOF, c1)" by (cases "Conn_Read ?C 4096 c") auto
  with g c(1) show ?thesis
    by (simp add: main_def serve_one_def defer_conn_Close_def Listen_def sample_net_def missing_id_def Listener_Accept_def
        nl_Accept_def Let_def)
qed

theorem main_announces_witness:
  "\<exists>i. sv_stdout (main toy_crypto sample_net 0 ''127.0.0.1:0'' (toy_world [])) =
    [''127.0.0.1:0'', EncodeToString (idp toy_crypto i)]"
  using main_announces [OF toy_crypto_laws, of sample_net 0 "''127.0.0.1:0''" "toy_world []"] sample_main_exits
  by (auto simp: sample_net_def)

theorem main_clean_exit_witness:
  "\<exists>l. sv_listener (main toy_crypto sample_net 0 ''127.0.0.1:0'' (toy_world [])) = Some l \<and> nl_closed l"
  using main_clean_exit [OF sample_main_exits] by blast

end
