(* ===== verification/Spec2Isabelle.thy ===== *)
theory Spec2Isabelle
  imports Formats HsSafety ChanSys TestServer
begin

text \<open>
  Verification of Z-Wing, a mutually authenticated, hybrid post-quantum secure channel over
  \<open>net.Conn\<close> (Go package \<open>zwing\<close>, files under \<open>src/\<close>).

  \<^bold>\<open>The program.\<close> An endpoint owns a long-term \<open>Identity\<close> (Ed25519, ML-DSA-65 and X-Wing keys,
  \<open>identity.go\<close>, \<open>kem.go\<close>). \<open>Dial\<close>, \<open>Client\<close>, \<open>Server\<close> and \<open>Listener.Accept\<close> (\<open>dial.go\<close>,
  \<open>listen.go\<close>) run a one-round-trip handshake (\<open>handshake.go\<close>) in length-prefixed frames
  (\<open>wire.go\<close>) over a raw connection: the initiator sends its signed public identity; the responder
  encapsulates to the initiator's X-Wing key and returns the ciphertext with its own signed
  identity, sealed under a key derived from the X-Wing secret. Both derive two channel keys, and
  \<open>newConn\<close> (\<open>channel.go\<close>) turns the connection into a channel that seals each record with
  ChaCha20-Poly1305 under a 64-bit counter. \<open>zap.go\<close> wraps channels as ZAP connections;
  \<open>cmd/zwing-test-server\<close> is an echo server for interoperability tests.

  \<^bold>\<open>The theories.\<close>
  \<^item> \<open>Prelude\<close>: bytes, the outcome type \<open>Ok\<close>/\<open>Err\<close>/\<open>Panic\<close> with its two sequencing
    combinators, slice expressions that panic out of bounds, big-endian integers, constant-time comparison, hexadecimal text; the locales
    \<open>codec\<close> and \<open>invariant_system\<close>.
  \<^item> \<open>GoIO\<close>: the error values (\<open>errors.go\<close>), \<open>io.Reader\<close>, \<open>io.ReadFull\<close>, \<open>net.Conn\<close>.
  \<^item> \<open>Wire\<close>: \<open>writeFrame\<close>, \<open>readFrame\<close> (\<open>wire.go\<close>); specification \<open>next_frame\<close>, locale
    \<open>framing\<close> interpreted as \<open>zf\<close>.
  \<^item> \<open>Sha2\<close>, \<open>Sha3\<close>: SHA-256 and SHA3-256 of the standard library.
  \<^item> \<open>Crypto\<close>: the packages outside the repository, as one record parameter \<open>C\<close> with named
    laws, and an executable instance \<open>toy_crypto\<close> that satisfies them (used only in witnesses);
    the state \<open>world\<close> of a call: two entropy sources, the raw connection, and the secret buffers
    left in memory.
  \<^item> \<open>Kem\<close>: \<open>kem.go\<close>; locale \<open>kem_scheme\<close> interpreted as \<open>xw\<close>, codec \<open>xk\<close>.
  \<^item> \<open>Ident\<close>: \<open>identity.go\<close>; locale \<open>signature_scheme\<close> interpreted as \<open>ids\<close>, codec \<open>ik\<close>.
  \<^item> \<open>HsWire\<close>, \<open>Aead\<close>, \<open>Handshake\<close>: \<open>handshake.go\<close>, the AEAD helpers of \<open>channel.go\<close> and
    \<open>config.go\<close>; codecs \<open>hic\<close>, \<open>hrc\<close>, \<open>ridc\<close>. \<open>runInitiator\<close> and \<open>runResponder\<close> are split
    into the source's numbered steps.
  \<^item> \<open>Agreement\<close>: what a run of either role does, for any peer and for an honest one.
  \<^item> \<open>Channel\<close>: \<open>channel.go\<close>, with the nonce invariant \<open>conn_inv\<close> and the record stream.
  \<^item> \<open>Endpoint\<close>: \<open>dial.go\<close>, \<open>listen.go\<close>, \<open>zap.go\<close>. \<open>TestServer\<close>: the test server.
  \<^item> \<open>Formats\<close>, \<open>HsProps\<close>, \<open>HsSafety\<close>, \<open>ChProps\<close>, \<open>ChanSys\<close>, \<open>EpProps\<close>: the properties;
    \<open>Samples\<close>: the concrete data of the witnesses.

  \<^bold>\<open>What is shown.\<close> Formats: framing refines its specification whatever the segmentation; all
  encodings round-trip and are canonical; X-Wing decapsulation inverts encapsulation; hybrid
  signatures verify exactly when both parts do; both digests determine what they bind. Handshake:
  two honest parties agree on the secret and on each other's identity; against an arbitrary peer,
  success implies that the peer's identity signed what it had to sign and that pins hold, and no
  input panics; \<open>handshake_memory\<close> lists what a run leaves in its buffers, the zeroed ones and the
  X-Wing secret that is not zeroed; the limits of the protocol (no forward secrecy with respect to
  the initiator's static key, acceptance of recorded first messages) are theorems too. Channel: nonces never repeat under any interleaving; what arrives is a prefix of
  what was sealed whatever an active adversary does, provided that no record opens which the
  writer did not seal; written data is read back whole; \<open>Read\<close> and \<open>Write\<close> commute; neither
  counter wraps; \<open>Write\<close> is described on every branch. Endpoints: failure closes the connection, success lifts the deadline,
  listeners survive failed handshakes. The test server echoes exactly what it read and announces
  the identity it authenticates with. \<open>secure_session\<close> below joins everything.

  \<^bold>\<open>Modelling choices.\<close> A stream is a list of segments with the error that ends it; a sink accepts
  a bounded or unbounded number of bytes and then fails with its error. That a deadline expires
  shows as these errors. The mutexes of \<open>Conn\<close> make \<open>Read\<close> and \<open>Write\<close> atomic: each is one
  function of the state. Counters are 64-bit words, length prefixes 16- and 32-bit words, both with
  wrap-around. \<open>read_all\<close> takes fuel: one call more than the number of bytes to come always
  suffices (\<open>read_all_ok\<close>), because every successful call delivers at least one byte. All other
  loops terminate by a measure. \<open>c_sealed\<close> is a ghost log that no operation reads.

  A slice expression \<open>s[lo:hi]\<close> is \<open>slice\<close>, which panics unless \<open>0 \<le> lo \<le> hi \<le> len(s)\<close>; Go's bound
  on \<open>hi\<close> is the capacity, so the model panics at least as often. \<open>ed25519.Verify\<close> panics on a key
  that does not have 32 bytes. \<open>w_mem\<close> records the named buffers of \<open>kem.go\<close>, \<open>handshake.go\<close> and
  \<open>newConn\<close> that held key material, with their contents when their function returned; the arrays
  \<open>shared\<close>, which the code never clears, are among them. Copies the compiler or the hash, HKDF and
  AEAD packages make are below this model.

  Pointers that may be nil in normal use are options: configurations, their local identity and pin,
  both arguments of \<open>Equal\<close>, the readers of \<open>GenerateIdentityFrom\<close>, \<open>GenerateXWingKey\<close> and
  \<open>XWingEncapsulate\<close>, and \<open>Conn.raw\<close>. An \<open>IdentityPublic\<close> is one that \<open>Identity.Public\<close> or
  \<open>ParseIdentityPublic\<close> returns, with non-nil \<open>DSAPub\<close> and \<open>XWingPub\<close>; a caller that builds the
  structure by hand and leaves them nil makes \<open>MarshalBinary\<close>, \<open>Verify\<close> and \<open>Equal\<close> (hence a pin
  check) dereference nil, which is outside the model. Likewise the private keys of an \<open>Identity\<close>
  are those a generator returned.

  \<^bold>\<open>Not modelled.\<close> The cryptographic packages themselves (parameters with laws), computational
  secrecy, the scheduler and real time, the \<open>zap\<close> package, the JavaScript and Python ports, and
  the tests.
\<close>

section \<open>The whole path\<close>

text \<open>C1: a complete session. Two endpoints with generated identities and matching (or no) pins, run as
  \<open>Client\<close> and \<open>Server\<close> on connections that carry each other's bytes, both obtain a channel; each
  reports the other's identity; and whatever sequence of buffers either side then writes, the
  other side reads exactly these bytes, however the network cuts them and whatever buffer size it
  reads with.\<close>

theorem secure_session:
  assumes "crypto_laws C" "identity_key C a" "identity_key C b"
    and "cfg_LocalIdentity cfgA = Some a" "\<not> pin_mismatch C cfgA (Identity_Public C b)"
    and "cfg_LocalIdentity cfgB = Some b" "\<not> pin_mismatch C cfgB (Identity_Public C a)"
    and "accepts rawA" "nc_sent rawA = []" "accepts rawB" "nc_sent rawB = []"
    and "entropy_ready C (XWing_Public C (id_XWing a)) (w_rand wb)"
    and "Client C nowA rawA (Some cfgA) wa = (ra, wa')" "Server C nowB rawB (Some cfgB) wb = (rb, wb')"
    and "avail (nc_in rawB) = nc_sent (w_conn wa')" "avail (nc_in rawA) = nc_sent (w_conn wb')"
  shows "\<exists>ca cb. ra = Ok ca \<and> rb = Ok cb \<and>
    RemoteIdentity ca = Identity_Public C b \<and> RemoteIdentity cb = Identity_Public C a \<and>
    carries C ca cb \<and> carries C cb ca"
  by (rule honest_endpoints [OF assms])

theorem secure_session_witness:
  "\<exists>ca cb. fst (ep_client ep_reply) = Ok ca \<and> fst ep_server = Ok cb \<and>
    RemoteIdentity ca = toy_pub 2 \<and> RemoteIdentity cb = toy_pub 1 \<and> carries toy_crypto ca cb"
proof -
  obtain ra wa where a: "ep_client ep_reply = (ra, wa)" by (cases "ep_client ep_reply")
  obtain rb wb where b: "ep_server = (rb, wb)" by (cases ep_server)
  have s: "nc_sent (w_conn wa) = ep_hello" "nc_sent (w_conn wb) = ep_reply"
    using ep_client_sends [of ep_reply] a arg_cong [OF b, of "\<lambda>r. nc_sent (w_conn (snd r))"]
    by (simp_all add: ep_reply_def)
  from secure_session [OF toy_crypto_laws toy_identity [of 1] toy_identity [of 2] _ _ _ _ _ _ _ _ _
      a [unfolded ep_client_def] b [unfolded ep_server_def]] s sample_ready a arg_cong [OF b, of fst]
  show ?thesis by auto
qed

end
